(* ===== verification/Archive_Prelude.thy ===== *)
theory Archive_Prelude
  imports Main "HOL-Library.Word"
begin

text \<open>
  Shared vocabulary of the development: the Rust result type with its three outcomes (a value, an
  error that the caller sees, a panic that ends the task), programs that thread a state through
  fallible calls, a fault oracle for external services, the chain types of \<open>primitives/src/lib.rs\<close>
  and the decimal rendering of unsigned integers used for message keys.
\<close>

named_theorems prog_simps \<open>evaluation rules of the program combinators\<close>
named_theorems prog_pres \<open>preservation of a state predicate by the program combinators\<close>

section \<open>Machine integers, bytes and the types of the chain\<close>

type_synonym u8 = "8 word"
type_synonym u32 = "32 word"
type_synonym u64 = "64 word"
type_synonym u128 = "128 word"
type_synonym usize = "64 word"
type_synonym bytes = "u8 list"

text \<open>\<open>primitives/src/lib.rs\<close>: the block number, balance and moment of the chain, a 256-bit hash,
  opaque extrinsics, and the header, block and block id that are built from them.\<close>

type_synonym BlockNumber = u32
type_synonym Balance = u128
type_synonym Moment = u64
type_synonym H256 = "256 word"
type_synonym DigestItem = bytes
type_synonym Extrinsic = bytes
type_synonym Justification = "bytes \<times> bytes"
type_synonym StorageKey = bytes
type_synonym StorageData = bytes

record Header =
  parent_hash :: H256
  number :: BlockNumber
  state_root :: H256
  extrinsics_root :: H256
  digest :: "DigestItem list"

record Block =
  header :: Header
  extrinsics :: "Extrinsic list"

record SignedBlock =
  block :: Block
  justifications :: "Justification list option"

datatype BlockId = Hash H256 | Number BlockNumber

text \<open>The bytes of a hash, most significant byte first, as \<open>as_ref().to_vec()\<close> lists them.\<close>

definition hash_bytes :: "H256 \<Rightarrow> bytes" where
  "hash_bytes h = map (\<lambda>i. ucast (drop_bit (8 * (31 - i)) h)) [0..<32]"

section \<open>Results and programs\<close>

text \<open>
  A Rust call either returns \<open>Ok\<close>, returns \<open>Err\<close>, or panics. The \<open>?\<close> operator passes an error on;
  a panic is never caught by the code below.
\<close>

datatype ('e, 'a) result = Ok 'a | Err 'e | Panic string

fun map_err :: "('e \<Rightarrow> 'f) \<Rightarrow> ('e, 'a) result \<Rightarrow> ('f, 'a) result" where
  "map_err f (Ok x) = Ok x"
| "map_err f (Err e) = Err (f e)"
| "map_err f (Panic m) = Panic m"

fun map_ok :: "('a \<Rightarrow> 'b) \<Rightarrow> ('e, 'a) result \<Rightarrow> ('e, 'b) result" where
  "map_ok f (Ok x) = Ok (f x)"
| "map_ok f (Err e) = Err e"
| "map_ok f (Panic m) = Panic m"

fun and_then :: "('e, 'a) result \<Rightarrow> ('a \<Rightarrow> ('e, 'b) result) \<Rightarrow> ('e, 'b) result" where
  "and_then (Ok x) f = f x"
| "and_then (Err e) f = Err e"
| "and_then (Panic m) f = Panic m"

fun is_ok :: "('e, 'a) result \<Rightarrow> bool" where
  "is_ok (Ok x) \<longleftrightarrow> True"
| "is_ok (Err e) \<longleftrightarrow> False"
| "is_ok (Panic m) \<longleftrightarrow> False"

fun is_panic :: "('e, 'a) result \<Rightarrow> bool" where
  "is_panic (Ok x) \<longleftrightarrow> False"
| "is_panic (Err e) \<longleftrightarrow> False"
| "is_panic (Panic m) \<longleftrightarrow> True"

text \<open>\<open>unwrap\<close> and \<open>expect\<close>: an error (or an absent value) becomes a panic with the message.\<close>

fun unwrap_result :: "string \<Rightarrow> ('e, 'a) result \<Rightarrow> ('f, 'a) result" where
  "unwrap_result m (Ok x) = Ok x"
| "unwrap_result m (Err e) = Panic m"
| "unwrap_result m (Panic n) = Panic n"

fun expect_some :: "string \<Rightarrow> 'a option \<Rightarrow> ('e, 'a) result" where
  "expect_some m None = Panic m"
| "expect_some m (Some x) = Ok x"

fun ok_or :: "'e \<Rightarrow> 'a option \<Rightarrow> ('e, 'a) result" where
  "ok_or e None = Err e"
| "ok_or e (Some x) = Ok x"

text \<open>The errors of \<open>sp_blockchain\<close> that the code raises or maps to. A formatted hash is kept as the
  hash, a formatted error of another package as its text.\<close>

datatype blockchain_error =
    Backend string
  | Storage string
  | UnknownBlock H256
  | IncompletePipeline
  | NotInFinalizedChain
  | InvalidStateRoot
  | ChangesTriesNotSupported
  | ChangesTrieAccessFailed string
  | RuntimeCodeError string
  | VersionInvalid string
  | RuntimeApiError string
  | Execution string
  | Application string

text \<open>A program over a state: what it returns, and the state it leaves behind in every outcome.\<close>

type_synonym ('s, 'e, 'a) prog = "'s \<Rightarrow> ('e, 'a) result \<times> 's"

definition return_prog :: "('e, 'a) result \<Rightarrow> ('s, 'e, 'a) prog" where
  "return_prog r s = (r, s)"

abbreviation ret :: "'a \<Rightarrow> ('s, 'e, 'a) prog" where
  "ret x \<equiv> return_prog (Ok x)"

definition pbind :: "('s, 'e, 'a) prog \<Rightarrow> ('a \<Rightarrow> ('s, 'e, 'b) prog) \<Rightarrow> ('s, 'e, 'b) prog" where
  "pbind m f s = (case m s of
      (Ok x, s') \<Rightarrow> f x s'
    | (Err e, s') \<Rightarrow> (Err e, s')
    | (Panic w, s') \<Rightarrow> (Panic w, s'))"

definition modify_prog :: "('s \<Rightarrow> 's) \<Rightarrow> ('s, 'e, unit) prog" where
  "modify_prog f s = (Ok (), f s)"

definition gets_prog :: "('s \<Rightarrow> 'a) \<Rightarrow> ('s, 'e, 'a) prog" where
  "gets_prog f s = (Ok (f s), s)"

text \<open>\<open>let _ = call;\<close> drops the value and the error, and still panics when the call panics.\<close>

definition ignore_result :: "('s, 'e, 'a) prog \<Rightarrow> ('s, 'f, unit) prog" where
  "ignore_result m s = (case m s of
      (Ok _, s') \<Rightarrow> (Ok (), s')
    | (Err _, s') \<Rightarrow> (Ok (), s')
    | (Panic w, s') \<Rightarrow> (Panic w, s'))"

text \<open>\<open>call?;\<close> as a statement: only the value is dropped.\<close>

definition discard :: "('s, 'e, 'a) prog \<Rightarrow> ('s, 'e, unit) prog" where
  "discard m = pbind m (\<lambda>_. ret ())"

definition map_err_prog :: "('e \<Rightarrow> 'f) \<Rightarrow> ('s, 'e, 'a) prog \<Rightarrow> ('s, 'f, 'a) prog" where
  "map_err_prog f m s = (case m s of (r, s') \<Rightarrow> (map_err f r, s'))"

text \<open>Run a program of a component on that component's part of a larger state.\<close>

definition zoom :: "('s \<Rightarrow> 't) \<Rightarrow> ('t \<Rightarrow> 's \<Rightarrow> 's) \<Rightarrow> ('t, 'e, 'a) prog \<Rightarrow> ('s, 'e, 'a) prog" where
  "zoom g p m s = (case m (g s) of (r, t) \<Rightarrow> (r, p t s))"

fun for_each_prog :: "('a \<Rightarrow> ('s, 'e, unit) prog) \<Rightarrow> 'a list \<Rightarrow> ('s, 'e, unit) prog" where
  "for_each_prog f [] = ret ()"
| "for_each_prog f (x # xs) = pbind (f x) (\<lambda>_. for_each_prog f xs)"

lemma for_each_prog_cong [fundef_cong]:
  "xs = ys \<Longrightarrow> (\<And>x. x \<in> set ys \<Longrightarrow> f x = g x) \<Longrightarrow> for_each_prog f xs = for_each_prog g ys"
  by (induction ys arbitrary: xs) simp_all

text \<open>A state predicate that a program never breaks, whatever it returns.\<close>

definition preserves :: "('s \<Rightarrow> bool) \<Rightarrow> ('s, 'e, 'a) prog \<Rightarrow> bool" where
  "preserves I m \<longleftrightarrow> (\<forall>s. I s \<longrightarrow> I (snd (m s)))"

section \<open>Faults of external services\<close>

text \<open>
  The n-th call to a service may fail. The flag of a fault says whether the request took effect
  before the failure was reported (a connection that breaks after the commit) or not.
\<close>

type_synonym 'e faults = "nat \<Rightarrow> (bool \<times> 'e) option"

abbreviation no_faults :: "nat \<Rightarrow> 'f option" where
  "no_faults \<equiv> (\<lambda>_. None)"

section \<open>Decimal rendering of unsigned integers\<close>

definition digit_char :: "nat \<Rightarrow> char" where
  "digit_char d = char_of (48 + d)"

fun dec_string :: "nat \<Rightarrow> string" where
  "dec_string n = (if n < 10 then [digit_char n] else dec_string (n div 10) @ [digit_char (n mod 10)])"

declare dec_string.simps [simp del]

text \<open>\<open>to_string()\<close> of a 32-bit unsigned integer.\<close>

definition to_string_u32 :: "u32 \<Rightarrow> string" where
  "to_string_u32 w = dec_string (unat w)"

definition dec_value :: "string \<Rightarrow> nat" where
  "dec_value cs = foldl (\<lambda>acc c. 10 * acc + (of_char c - 48)) 0 cs"

section \<open>Lemmas on results and programs\<close>

text \<open>The result combinators as case distinctions, for splitting.\<close>

lemma and_then_case: "and_then r f = (case r of Ok x \<Rightarrow> f x | Err e \<Rightarrow> Err e | Panic m \<Rightarrow> Panic m)"
  by (cases r) simp_all

lemma unwrap_result_case:
  "unwrap_result m r = (case r of Ok x \<Rightarrow> Ok x | Err e \<Rightarrow> Panic m | Panic n \<Rightarrow> Panic n)"
  by (cases r) simp_all

lemma ok_or_case: "ok_or e v = (case v of None \<Rightarrow> Err e | Some x \<Rightarrow> Ok x)"
  by (cases v) simp_all

lemma expect_some_case: "expect_some m v = (case v of None \<Rightarrow> Panic m | Some x \<Rightarrow> Ok x)"
  by (cases v) simp_all

lemmas result_cases = and_then_case unwrap_result_case ok_or_case expect_some_case

lemma return_prog_eval [simp, prog_simps]: "return_prog r s = (r, s)"
  by (simp add: return_prog_def)

lemma modify_prog_eval [simp, prog_simps]: "modify_prog f s = (Ok (), f s)"
  by (simp add: modify_prog_def)

lemma gets_prog_eval [simp, prog_simps]: "gets_prog f s = (Ok (f s), s)"
  by (simp add: gets_prog_def)

lemma pbind_ret [simp, prog_simps]: "pbind (ret x) f = f x"
  by (rule ext) (simp add: pbind_def)

lemma pbind_modify [simp, prog_simps]: "pbind (modify_prog g) f s = f () (g s)"
  by (simp add: pbind_def)

lemma pbind_gets [simp, prog_simps]: "pbind (gets_prog g) f s = f (g s) s"
  by (simp add: pbind_def)

lemma pbind_Ok [prog_simps]: "m s = (Ok x, s') \<Longrightarrow> pbind m f s = f x s'"
  by (simp add: pbind_def)

lemma pbind_Err [prog_simps]: "m s = (Err e, s') \<Longrightarrow> pbind m f s = (Err e, s')"
  by (simp add: pbind_def)

lemma pbind_Panic [prog_simps]: "m s = (Panic w, s') \<Longrightarrow> pbind m f s = (Panic w, s')"
  by (simp add: pbind_def)

lemma pbind_assoc: "pbind (pbind m f) g = pbind m (\<lambda>x. pbind (f x) g)"
  by (rule ext) (simp add: pbind_def split: prod.splits result.splits)

lemma pbind_eq_Ok:
  "pbind m f s = (Ok y, t) \<longleftrightarrow> (\<exists>x s'. m s = (Ok x, s') \<and> f x s' = (Ok y, t))"
  by (auto simp: pbind_def split: prod.splits result.splits)

lemma discard_eq_Ok: "discard m s = (Ok u, t) \<longleftrightarrow> (\<exists>x. m s = (Ok x, t))"
  by (auto simp: discard_def pbind_eq_Ok)

lemma map_err_is_ok [simp]: "is_ok (map_err f r) = is_ok r"
  by (cases r) simp_all

lemma map_err_is_panic [simp]: "is_panic (map_err f r) = is_panic r"
  by (cases r) simp_all

lemma map_err_eq_Ok [simp]: "map_err f r = Ok x \<longleftrightarrow> r = Ok x"
  by (cases r) simp_all

lemma map_ok_is_ok [simp]: "is_ok (map_ok f r) = is_ok r"
  by (cases r) simp_all

lemma and_then_eq_Ok: "and_then r f = Ok y \<longleftrightarrow> (\<exists>x. r = Ok x \<and> f x = Ok y)"
  by (cases r) simp_all

lemma map_ok_eq_Ok: "map_ok f r = Ok y \<longleftrightarrow> (\<exists>x. r = Ok x \<and> y = f x)"
  by (cases r) auto

lemma map_err_prog_snd [simp]: "snd (map_err_prog f m s) = snd (m s)"
  by (simp add: map_err_prog_def split: prod.splits)

lemma map_err_prog_fst [simp]: "fst (map_err_prog f m s) = map_err f (fst (m s))"
  by (simp add: map_err_prog_def split: prod.splits)

lemma zoom_snd [simp]: "snd (zoom g p m s) = p (snd (m (g s))) s"
  by (simp add: zoom_def split: prod.splits)

lemma zoom_fst [simp]: "fst (zoom g p m s) = fst (m (g s))"
  by (simp add: zoom_def split: prod.splits)

lemma preservesI: "(\<And>s. I s \<Longrightarrow> I (snd (m s))) \<Longrightarrow> preserves I m"
  by (simp add: preserves_def)

lemma preservesD: "preserves I m \<Longrightarrow> I s \<Longrightarrow> I (snd (m s))"
  by (simp add: preserves_def)

lemma preserves_return [prog_pres, intro]: "preserves I (return_prog r)"
  by (simp add: preserves_def)

lemma preserves_gets [prog_pres, intro]: "preserves I (gets_prog f)"
  by (simp add: preserves_def)

lemma preserves_modify [prog_pres]: "(\<And>s. I s \<Longrightarrow> I (f s)) \<Longrightarrow> preserves I (modify_prog f)"
  by (simp add: preserves_def)

lemma preserves_pbind [prog_pres]:
  assumes "preserves I m" and "\<And>x. preserves I (f x)"
  shows "preserves I (pbind m f)"
proof (rule preservesI)
  fix s assume "I s"
  with assms(1) have "I (snd (m s))" by (rule preservesD)
  then show "I (snd (pbind m f s))"
    using assms(2) by (auto simp: pbind_def preserves_def split: prod.splits result.splits)
qed

lemma preserves_ignore [prog_pres]: "preserves I m \<Longrightarrow> preserves I (ignore_result m)"
  by (auto simp: preserves_def ignore_result_def split: prod.splits result.splits)

lemma preserves_discard [prog_pres]: "preserves I m \<Longrightarrow> preserves I (discard m)"
  unfolding discard_def by (intro preserves_pbind preserves_return)

lemma preserves_map_err [prog_pres]: "preserves I m \<Longrightarrow> preserves I (map_err_prog f m)"
  by (simp add: preserves_def)

lemma preserves_zoom [prog_pres]:
  assumes "preserves J m" and "\<And>s. I s \<Longrightarrow> J (g s)" and "\<And>s t. I s \<Longrightarrow> J t \<Longrightarrow> I (p t s)"
  shows "preserves I (zoom g p m)"
  using assms by (auto simp: preserves_def)

lemma preserves_for_each [prog_pres]:
  "(\<And>x. preserves I (f x)) \<Longrightarrow> preserves I (for_each_prog f xs)"
  by (induction xs) (auto intro: prog_pres)

lemma snd_ignore_result [simp]: "snd (ignore_result m s) = snd (m s)"
  by (simp add: ignore_result_def split: prod.splits result.splits)

text \<open>A relation between the states before and after, for the whole of a sequence.\<close>

lemma for_each_relates:
  assumes "\<And>s. R s s" and "\<And>s t u. R s t \<Longrightarrow> R t u \<Longrightarrow> R s u"
    and "\<And>x s. x \<in> set xs \<Longrightarrow> R s (snd (f x s))"
  shows "R s (snd (for_each_prog f xs s))"
  using assms(3)
proof (induction xs arbitrary: s)
  case (Cons x xs)
  have "R s (snd (f x s))" by (simp add: Cons.prems)
  moreover have "R t (snd (for_each_prog f xs t))" for t by (simp add: Cons)
  ultimately show ?case
    using assms(2) by (force simp: pbind_def split: prod.splits result.splits)
qed (simp add: assms(1))

section \<open>Lemmas on decimal rendering\<close>

lemma of_char_digit_char: "d < 10 \<Longrightarrow> of_char (digit_char d) = (48 + d :: nat)"
  by (simp add: digit_char_def)

lemma dec_value_append [simp]: "dec_value (cs @ [c]) = 10 * dec_value cs + (of_char c - 48)"
  by (simp add: dec_value_def)

text \<open>Reading the rendering of a number gives the number back.\<close>

lemma dec_value_dec_string [simp]: "dec_value (dec_string n) = n"
proof (induction n rule: dec_string.induct)
  case (1 n)
  show ?case
  proof (cases "n < 10")
    case True
    then show ?thesis
      using of_char_digit_char [of n] by (simp add: dec_string.simps [of n] dec_value_def)
  next
    case False
    with 1 have "dec_value (dec_string (n div 10)) = n div 10" by simp
    with False show ?thesis
      using of_char_digit_char [of "n mod 10"] by (simp add: dec_string.simps [of n])
  qed
qed

lemma dec_string_inject [simp]: "dec_string m = dec_string n \<longleftrightarrow> m = n"
  by (metis dec_value_dec_string)

lemma to_string_u32_inject [simp]: "to_string_u32 v = to_string_u32 w \<longleftrightarrow> v = w"
  by (simp add: to_string_u32_def word_unat_eq_iff)

section \<open>Lemmas on hashes\<close>

lemma length_hash_bytes [simp]: "length (hash_bytes h) = 32"
  by (simp add: hash_bytes_def)

lemma hash_bytes_bit:
  assumes "n < 256"
  shows "bit h n = bit (hash_bytes h ! (31 - n div 8)) (n mod 8)"
proof -
  have k: "n div 8 < 32" using assms by simp
  have "[0..<32] ! (31 - n div 8) = 31 - n div 8"
    by (subst nth_upt) auto
  moreover have "31 - (31 - n div 8) = n div 8" using k by arith
  ultimately have "hash_bytes h ! (31 - n div 8) = ucast (drop_bit (8 * (n div 8)) h)"
    by (simp add: hash_bytes_def)
  then show ?thesis
    by (simp add: bit_simps)
qed

lemma hash_bytes_inject [simp]: "hash_bytes g = hash_bytes h \<longleftrightarrow> g = h"
proof
  assume eq: "hash_bytes g = hash_bytes h"
  show "g = h"
    by (rule bit_word_eqI) (simp add: hash_bytes_bit eq)
qed simp

section \<open>Signed readings of 32-bit words\<close>

lemma mod_shift_u32:
  fixes u :: int
  assumes "0 \<le> u" "u < 4294967296" 
  shows "(u + 2147483648) mod 4294967296 - 2147483648 = (if u < 2147483648 then u else u - 4294967296)"
proof (cases "u < 2147483648")
  case False
  have "(u - 2147483648 + 4294967296) mod 4294967296 = (u - 2147483648) mod 4294967296" by (rule mod_add_self2)
  also have "\<dots> = u - 2147483648" using False assms by (intro mod_pos_pos_trivial) simp_all
  finally show ?thesis using False by (simp add: add.commute)
qed (use assms in simp)

lemma sint_u32: "sint (w :: 32 word) = (if uint w < 2147483648 then uint w else uint w - 4294967296)"
  using mod_shift_u32 [of "uint w"] uint_lt2p[of w]
    by (simp add: sint_uint signed_take_bit_eq_take_bit_shift take_bit_eq_mod)

lemma sint_u32_nonneg: "0 \<le> sint (w :: 32 word) \<Longrightarrow> sint w = uint w"
  using uint_lt2p[of w] by (simp add: sint_u32 split: if_splits)

lemma u32_signed_range: "0 \<le> sint w \<and> sint w < 10000000 \<longleftrightarrow> w < 10000000" for w :: "32 word"
  using uint_lt2p[of w] by (auto simp: sint_u32 word_less_def)

lemma u32_signed_le: "0 \<le> sint v \<Longrightarrow> 0 \<le> sint w \<Longrightarrow> sint v \<le> sint w \<longleftrightarrow> v \<le> w" for w :: "32 word"
  by (simp add: sint_u32_nonneg word_le_def)

end
