(* ===== verification/Version_Cache.thy ===== *)
theory Version_Cache
  imports Archive_Prelude
begin

text \<open>
  The runtime version cache of \<open>archive/executor/src/version_cache.rs\<close>: the version of a block's
  runtime is read from the wasm blob under \<open>:code\<close> and remembered under the hash of that blob. The
  theory also states the interface (\<open>version_source\<close>) through which the block executor asks for
  versions.
\<close>

section \<open>Model\<close>

record RuntimeVersion =
  spec_name :: string
  impl_name :: string
  authoring_version :: u32
  spec_version :: u32
  impl_version :: u32
  apis :: "(bytes \<times> u32) list"
  transaction_version :: u32

datatype service_error = Other string | ClientError string

text \<open>
  What the cache calls: the backend's state, the storage of a state, the default hasher of the
  standard library (whose algorithm is unspecified), the wasm executor that reads the version
  section of a blob, the two codecs of the version, and the API table query of \<open>sp_version\<close>.
\<close>

record 'st version_env =
  ve_state_at :: "BlockId \<Rightarrow> (service_error, 'st) result"
  ve_storage :: "'st \<Rightarrow> bytes \<Rightarrow> (string, bytes option) result"
  ve_hasher :: "bytes option \<Rightarrow> u64"
  ve_runtime_version :: "bytes \<Rightarrow> bytes option"
  ve_decode_old :: "bytes \<Rightarrow> RuntimeVersion option"
  ve_decode_new :: "bytes \<Rightarrow> RuntimeVersion option"
  ve_has_api_with :: "RuntimeVersion \<Rightarrow> bytes \<Rightarrow> (u32 \<Rightarrow> bool) \<Rightarrow> bool"
  ve_core_api_id :: bytes

text \<open>The cache, with the blobs handed to the wasm executor so far (latest first).\<close>

record RuntimeVersionCache =
  versions :: "u64 \<rightharpoonup> RuntimeVersion"
  executor_calls :: "bytes list"

definition CODE :: bytes where
  "CODE = map of_char '':code''"

fun str_prefix :: "string \<Rightarrow> string \<Rightarrow> bool" where
  "str_prefix [] cs = True"
| "str_prefix (p # ps) [] = False"
| "str_prefix (p # ps) (c # cs) = (p = c \<and> str_prefix ps cs)"

fun str_contains :: "string \<Rightarrow> string \<Rightarrow> bool" where
  "str_contains p [] = (p = [])"
| "str_contains p (c # cs) = (str_prefix p (c # cs) \<or> str_contains p cs)"

text \<open>The host functions kept for the interpreter, out of all the node has.\<close>

definition version_host_functions :: "string list \<Rightarrow> string list" where
  "version_host_functions fs =
     filter (\<lambda>f. \<not> str_contains ''ext_logging'' f)
     (filter (\<lambda>f. \<not> str_contains ''ext_default_child_storage'' f)
     (filter (\<lambda>f. \<not> str_contains ''ext_storage'' f)
     (filter (\<lambda>f. \<not> str_contains ''ext_offchain'' f)
     (filter (\<lambda>f. \<not> str_contains ''wasm_tracing'' f) fs))))"

definition version_cache_new :: RuntimeVersionCache where
  "version_cache_new = \<lparr>versions = Map.empty, executor_calls = []\<rparr>"

definition make_hash :: "'st version_env \<Rightarrow> bytes option \<Rightarrow> u64" where
  "make_hash env code = ve_hasher env code"

definition decode_version :: "'st version_env \<Rightarrow> bytes \<Rightarrow> (service_error, RuntimeVersion) result" where
  "decode_version env bs =
     and_then (ok_or (Other ''decode error'') (ve_decode_old env bs)) (\<lambda>v.
       if ve_has_api_with env v (ve_core_api_id env) (\<lambda>n. 3 \<le> n)
       then ok_or (Other ''decode error'') (ve_decode_new env bs)
       else Ok v)"

definition get_by_id ::
  "'st version_env \<Rightarrow> BlockId \<Rightarrow> (RuntimeVersionCache, service_error, RuntimeVersion option) prog" where
  "get_by_id env bid =
     pbind (return_prog (ve_state_at env bid)) (\<lambda>st.
     pbind (return_prog (unwrap_result ''No storage found'' (ve_storage env st CODE))) (\<lambda>code.
     pbind (gets_prog versions) (\<lambda>cache.
       if cache (make_hash env code) \<noteq> None then ret (cache (make_hash env code))
       else
         pbind (return_prog (expect_some ''unwrap on None'' code)) (\<lambda>blob.
         pbind (modify_prog (\<lambda>c. c\<lparr>executor_calls := blob # executor_calls c\<rparr>)) (\<lambda>_.
         pbind (return_prog (ok_or (Other ''wasm runtime'') (ve_runtime_version env blob))) (\<lambda>ver.
         pbind (return_prog (decode_version env ver)) (\<lambda>version.
         pbind (modify_prog (\<lambda>c. c\<lparr>versions := (versions c)(make_hash env code \<mapsto> version)\<rparr>)) (\<lambda>_.
           ret (Some version)))))))))"

definition cache_get ::
  "'st version_env \<Rightarrow> H256 \<Rightarrow> (RuntimeVersionCache, service_error, RuntimeVersion option) prog" where
  "cache_get env h = get_by_id env (Hash h)"

section \<open>Reference: the version without a cache\<close>

definition blob_version :: "'st version_env \<Rightarrow> bytes \<Rightarrow> (service_error, RuntimeVersion) result" where
  "blob_version env blob =
     and_then (ok_or (Other ''wasm runtime'') (ve_runtime_version env blob)) (decode_version env)"

definition code_at :: "'st version_env \<Rightarrow> BlockId \<Rightarrow> (service_error, bytes option) result" where
  "code_at env bid =
     and_then (ve_state_at env bid) (\<lambda>st. unwrap_result ''No storage found'' (ve_storage env st CODE))"

definition direct_version :: "'st version_env \<Rightarrow> BlockId \<Rightarrow> (service_error, RuntimeVersion option) result" where
  "direct_version env bid =
     and_then (code_at env bid) (\<lambda>code.
     and_then (expect_some ''unwrap on None'' code) (\<lambda>blob.
     map_ok Some (blob_version env blob)))"

text \<open>The runtime blobs of the chain.\<close>

definition chain_codes :: "'st version_env \<Rightarrow> bytes option set" where
  "chain_codes env = {code. \<exists>bid. code_at env bid = Ok code}"

text \<open>
  Every cached entry is the version of a blob that was handed to the executor and hashes to its
  key, and a blob whose version could be read was handed over only once. The blobs come from a given
  set of codes, which is that of the chain unless the chain changes meanwhile.
\<close>

definition cache_inv_over :: "bytes option set \<Rightarrow> 'st version_env \<Rightarrow> RuntimeVersionCache \<Rightarrow> bool" where
  "cache_inv_over codes env c \<longleftrightarrow>
     Some ` set (executor_calls c) \<subseteq> codes \<and>
     (\<forall>k v. versions c k = Some v \<longrightarrow>
        (\<exists>blob\<in>set (executor_calls c). make_hash env (Some blob) = k \<and> blob_version env blob = Ok v)) \<and>
     (\<forall>blob\<in>set (executor_calls c). is_ok (blob_version env blob) \<longrightarrow>
        versions c (make_hash env (Some blob)) \<noteq> None) \<and>
     distinct (filter (\<lambda>b. is_ok (blob_version env b)) (executor_calls c))"

abbreviation cache_inv :: "'st version_env \<Rightarrow> RuntimeVersionCache \<Rightarrow> bool" where
  "cache_inv env \<equiv> cache_inv_over (chain_codes env) env"

text \<open>The hasher tells the blobs that occur on the chain apart.\<close>

definition collision_free :: "'st version_env \<Rightarrow> bool" where
  "collision_free env \<longleftrightarrow> inj_on (make_hash env) (chain_codes env)"

section \<open>The interface the block executor relies on\<close>

text \<open>
  A source of versions keeps a state of its own; as long as its invariant holds it answers as a
  direct lookup would, and every request keeps the invariant.
\<close>

locale version_source =
  fixes get :: "BlockId \<Rightarrow> ('c, 'e, RuntimeVersion option) prog"
    and direct :: "BlockId \<Rightarrow> ('e, RuntimeVersion option) result"
    and invar :: "'c \<Rightarrow> bool"
  assumes get_direct: "invar c \<Longrightarrow> fst (get bid c) = direct bid"
    and get_invar: "invar c \<Longrightarrow> invar (snd (get bid c))"
begin

lemma get_preserves: "preserves invar (get bid)"
  by (rule preservesI) (rule get_invar)

lemma get_after_requests:
  assumes "invar c"
  shows "fst (get bid (snd (for_each_prog (\<lambda>i. ignore_result (get i)) ids c))) = direct bid"
proof -
  have "preserves invar (for_each_prog (\<lambda>i. ignore_result (get i)) ids)"
    by (intro prog_pres get_preserves)
  then show ?thesis using assms by (auto dest: preservesD intro: get_direct)
qed

lemma requests_invar:
  "invar c \<Longrightarrow> invar (snd (for_each_prog (\<lambda>i. ignore_result (get i)) ids c))"
  by (rule preservesD) (intro prog_pres get_preserves)

end

section \<open>The cache implements the interface\<close>

lemma cache_inv_new: "cache_inv_over codes env version_cache_new"
  by (simp add: cache_inv_over_def version_cache_new_def)

text \<open>The four ways a request can go.\<close>

lemma get_by_id_no_code:
  "code_at env bid = Err e \<Longrightarrow> get_by_id env bid c = (Err e, c)"
  "code_at env bid = Panic w \<Longrightarrow> get_by_id env bid c = (Panic w, c)"
  by (auto simp: get_by_id_def code_at_def pbind_def split: result.splits
      elim!: unwrap_result.elims and_then.elims)

lemma get_by_id_hit:
  "code_at env bid = Ok code \<Longrightarrow> versions c (make_hash env code) = Some v \<Longrightarrow>
   get_by_id env bid c = (Ok (Some v), c)"
  by (auto simp: get_by_id_def code_at_def pbind_def split: result.splits elim!: and_then.elims)

lemma get_by_id_absent:
  "code_at env bid = Ok None \<Longrightarrow> versions c (make_hash env None) = None \<Longrightarrow>
   get_by_id env bid c = (Panic ''unwrap on None'', c)"
  by (auto simp: get_by_id_def code_at_def pbind_def split: result.splits elim!: and_then.elims)

lemma get_by_id_miss:
  assumes "code_at env bid = Ok (Some blob)" and "versions c (make_hash env (Some blob)) = None"
  shows "get_by_id env bid c =
    (let c' = c\<lparr>executor_calls := blob # executor_calls c\<rparr> in
     case blob_version env blob of
       Ok v \<Rightarrow> (Ok (Some v), c'\<lparr>versions := (versions c)(make_hash env (Some blob) \<mapsto> v)\<rparr>)
     | Err e \<Rightarrow> (Err e, c')
     | Panic w \<Rightarrow> (Panic w, c'))"
  using assms
  by (auto simp: get_by_id_def code_at_def blob_version_def pbind_def split: result.splits
      elim!: and_then.elims)

lemma cache_inv_call_failed:
  "cache_inv_over codes env c \<Longrightarrow> Some blob \<in> codes \<Longrightarrow> \<not> is_ok (blob_version env blob) \<Longrightarrow>
   cache_inv_over codes env (c\<lparr>executor_calls := blob # executor_calls c\<rparr>)"
  by (auto simp: cache_inv_over_def)

lemma cache_inv_call_ok:
  assumes "cache_inv_over codes env c" and "versions c (make_hash env (Some blob)) = None"
    and "blob_version env blob = Ok v" and "Some blob \<in> codes"
  shows "cache_inv_over codes env (c\<lparr>executor_calls := blob # executor_calls c,
    versions := (versions c)(make_hash env (Some blob) \<mapsto> v)\<rparr>)"
  using assms by (auto simp: cache_inv_over_def)

lemma chain_codesI: "code_at env bid = Ok code \<Longrightarrow> code \<in> chain_codes env"
  by (auto simp: chain_codes_def)

lemma cache_inv_over_get:
  assumes inv: "cache_inv_over codes env c" and sub: "chain_codes env \<subseteq> codes"
  shows "cache_inv_over codes env (snd (get_by_id env bid c))"
proof (cases "code_at env bid")
  case (Ok code)
  show ?thesis
  proof (cases "versions c (make_hash env code)")
    case (Some v)
    with Ok inv show ?thesis by (simp add: get_by_id_hit)
  next
    case None
    show ?thesis
    proof (cases code)
      case Absent: None
      with Ok None inv show ?thesis by (simp add: get_by_id_absent)
    next
      case Blob: (Some blob)
      with Ok sub have "Some blob \<in> codes" by (auto dest: chain_codesI)
      with Blob show ?thesis
        using get_by_id_miss [of env bid blob c] cache_inv_call_failed [OF inv, of blob]
          cache_inv_call_ok [OF inv, of blob] Ok None
        by (cases "blob_version env blob") (auto simp: Let_def)
    qed
  qed
qed (use inv in \<open>auto simp: get_by_id_no_code\<close>)

lemmas cache_inv_get = cache_inv_over_get [OF _ order.refl]

lemma get_by_id_direct_over:
  assumes inv: "cache_inv_over codes env c" and sub: "chain_codes env \<subseteq> codes"
    and inj: "inj_on (make_hash env) codes"
  shows "fst (get_by_id env bid c) = direct_version env bid"
proof (cases "code_at env bid")
  case (Ok code)
  show ?thesis
  proof (cases "versions c (make_hash env code)")
    case (Some v)
    then obtain blob where eq: "make_hash env (Some blob) = make_hash env code"
      and v: "blob_version env blob = Ok v" and "Some blob \<in> codes"
      using inv unfolding cache_inv_over_def by blast
    moreover have "code \<in> codes" using Ok sub by (auto dest: chain_codesI)
    ultimately have "code = Some blob" using inj by (auto dest: inj_onD)
    with Ok Some v show ?thesis by (simp add: get_by_id_hit direct_version_def)
  next
    case None
    then show ?thesis
      using Ok get_by_id_absent [of env bid c] get_by_id_miss [of env bid _ c]
      by (cases code) (auto simp: direct_version_def Let_def split: result.splits)
  qed
qed (auto simp: get_by_id_no_code direct_version_def)

lemma get_by_id_direct:
  "cache_inv env c \<Longrightarrow> collision_free env \<Longrightarrow> fst (get_by_id env bid c) = direct_version env bid"
  unfolding collision_free_def by (rule get_by_id_direct_over) simp_all

interpretation cache: version_source "get_by_id env" "direct_version env"
  "\<lambda>c. cache_inv env c \<and> collision_free env" for env
  by unfold_locales (auto simp: get_by_id_direct cache_inv_get)

lemma cache_inv_requests:
  "cache_inv env (snd (for_each_prog (\<lambda>i. ignore_result (get_by_id env i)) bids version_cache_new))"
  by (rule preservesD [where I = "cache_inv env", OF _ cache_inv_new]) (intro prog_pres preservesI cache_inv_get)

lemma cache_inv_distinct:
  "cache_inv env c \<Longrightarrow> distinct (filter (\<lambda>b. is_ok (blob_version env b)) (executor_calls c))"
  by (simp add: cache_inv_over_def)

section \<open>Properties\<close>

text \<open>C17: after any sequence of requests to a fresh cache, whatever they returned, the cache
  answers the next request exactly as reading the version from the block's own code would, errors
  and panics included, provided the hasher has no collision among the runtime blobs of the chain.\<close>

theorem version_cache_transparent:
  assumes "collision_free env"
  shows "fst (get_by_id env bid
      (snd (for_each_prog (\<lambda>i. ignore_result (get_by_id env i)) bids version_cache_new))) =
    direct_version env bid"
  by (rule cache.get_after_requests) (simp add: assms cache_inv_new)

text \<open>The wasm executor is asked at most once for each blob whose version can be read, over
  any sequence of requests, as the module promises.\<close>

lemma version_read_once:
  "distinct (filter (\<lambda>blob. is_ok (blob_version env blob))
     (executor_calls (snd (for_each_prog (\<lambda>i. ignore_result (get_by_id env i)) bids version_cache_new))))"
  by (rule cache_inv_distinct, rule cache_inv_requests)

text \<open>A chain with two runtimes, used to instantiate the environment.\<close>

definition demo_version :: "u32 \<Rightarrow> RuntimeVersion" where
  "demo_version n = \<lparr>spec_name = ''archive'', impl_name = ''patracts-archive'', authoring_version = 10,
     spec_version = n, impl_version = 1, apis = [], transaction_version = 2\<rparr>"

definition demo_version_env :: "unit version_env" where
  "demo_version_env =
     \<lparr>ve_state_at = (\<lambda>_. Ok ()),
      ve_storage = (\<lambda>_ k. if k = CODE then Ok (Some [1]) else Ok None),
      ve_hasher = (\<lambda>c. case c of None \<Rightarrow> 0 | Some b \<Rightarrow> of_nat (length b)),
      ve_runtime_version = (\<lambda>b. Some b),
      ve_decode_old = (\<lambda>b. Some (demo_version 265)),
      ve_decode_new = (\<lambda>b. Some (demo_version 265)),
      ve_has_api_with = (\<lambda>_ _ _. False),
      ve_core_api_id = []\<rparr>"

lemma demo_version_code: "code_at demo_version_env bid = Ok (Some [1])"
  by (simp add: code_at_def demo_version_env_def)

lemma demo_version_collision_free: "collision_free demo_version_env"
  by (auto simp: collision_free_def chain_codes_def demo_version_code inj_on_def)

theorem version_cache_transparent_witness:
  "collision_free demo_version_env \<and>
   fst (get_by_id demo_version_env (Number 3)
     (snd (for_each_prog (\<lambda>i. ignore_result (get_by_id demo_version_env i)) [Number 1, Number 2]
        version_cache_new))) = Ok (Some (demo_version 265))"
proof -
  have "direct_version demo_version_env (Number 3) = Ok (Some (demo_version 265))"
    by (simp add: direct_version_def demo_version_code blob_version_def decode_version_def)
       (simp add: demo_version_env_def decode_version_def)
  with version_cache_transparent [OF demo_version_collision_free, of "Number 3" "[Number 1, Number 2]"]
  show ?thesis by (simp add: demo_version_collision_free)
qed

end
