(* ===== verification/Postgres_Db.thy ===== *)
theory Postgres_Db
  imports Archive_Prelude
begin

text \<open>
  The Postgres side of the archive (\<open>archive/postgres\<close>): the row models, the three tables of the
  migrations with their keys, checks, partitions and foreign key, the upsert statements of
  \<open>insert.rs\<close>, the queries of \<open>query.rs\<close>, the update of \<open>update.rs\<close> and the methods of
  \<open>PostgresDb\<close>, each over a pool and a server that may fail at any call. The interface
  \<open>archive_store\<close> is what the notifier and the initializer rely on.
\<close>

section \<open>Rows and tables\<close>

datatype JsonValue = JsonNull | JsonText string

record MetadataModel =
  mm_spec_version :: u32
  mm_block_num :: u32
  mm_block_hash :: bytes
  mm_meta :: bytes

record BlockModel =
  bm_spec_version :: u32
  bm_block_num :: u32
  bm_block_hash :: bytes
  bm_parent_hash :: bytes
  bm_state_root :: bytes
  bm_extrinsics_root :: bytes
  bm_digest :: bytes
  bm_extrinsics :: "bytes list"
  bm_justifications :: "bytes list option"
  bm_main_changes :: JsonValue
  bm_child_changes :: JsonValue

record FinalizedBlockModel =
  fm_block_num :: u32
  fm_block_hash :: bytes

text \<open>
  A 32-bit unsigned parameter is stored in an \<open>integer\<close> column as the signed number with the same
  bits; the checks of the schema read it as signed.
\<close>

record tables =
  metadatas :: "MetadataModel list"
  blocks :: "BlockModel list"
  finalized_block :: "FinalizedBlockModel option"

datatype violation = No_partition | Check_violation | Foreign_key_violation
datatype SqlxError = Database violation | Connection string

definition in_check_range :: "u32 \<Rightarrow> bool" where
  "in_check_range n \<longleftrightarrow> 0 \<le> sint n \<and> sint n < 2147483647"

text \<open>The partitions \<open>blocks_0 .. blocks_9\<close>, of one million numbers each.\<close>

definition partition_of :: "u32 \<Rightarrow> nat option" where
  "partition_of n =
     (if 0 \<le> sint n \<and> sint n < 10000000 then Some (nat (sint n) div 1000000) else None)"

definition create_tables :: tables where
  "create_tables = \<lparr>metadatas = [], blocks = [], finalized_block = None\<rparr>"

section \<open>Statements\<close>

type_synonym 'a stmt = "tables \<Rightarrow> (SqlxError, 'a \<times> tables) result"

text \<open>\<open>INSERT ... ON CONFLICT (key) DO UPDATE SET\<close> every column: the row with the key is replaced,
  or the new row is added.\<close>

fun upsert_by :: "('r \<Rightarrow> 'k) \<Rightarrow> 'r \<Rightarrow> 'r list \<Rightarrow> 'r list" where
  "upsert_by key r [] = [r]"
| "upsert_by key r (x # xs) = (if key x = key r then r # xs else x # upsert_by key r xs)"

definition gen_query_metadata :: "MetadataModel \<Rightarrow> u64 stmt" where
  "gen_query_metadata m t =
     (if sint (mm_spec_version m) < 0 then Err (Database Check_violation)
      else Ok (1, t\<lparr>metadatas := upsert_by mm_spec_version m (metadatas t)\<rparr>))"

definition gen_query_block :: "BlockModel \<Rightarrow> u64 stmt" where
  "gen_query_block m t =
     (if partition_of (bm_block_num m) = None then Err (Database No_partition)
      else if \<not> in_check_range (bm_block_num m) then Err (Database Check_violation)
      else if bm_spec_version m \<notin> mm_spec_version ` set (metadatas t)
        then Err (Database Foreign_key_violation)
      else Ok (1, t\<lparr>blocks := upsert_by bm_block_num m (blocks t)\<rparr>))"

definition gen_query_finalized :: "FinalizedBlockModel \<Rightarrow> u64 stmt" where
  "gen_query_finalized m t =
     (if \<not> in_check_range (fm_block_num m) then Err (Database Check_violation)
      else Ok (1, t\<lparr>finalized_block := Some m\<rparr>))"

definition update_spec_stmt :: "u32 \<Rightarrow> u32 \<Rightarrow> u64 stmt" where
  "update_spec_stmt spec num t =
     (let hit = filter (\<lambda>b. bm_block_num b = num) (blocks t) in
      if hit \<noteq> [] \<and> spec \<notin> mm_spec_version ` set (metadatas t)
      then Err (Database Foreign_key_violation)
      else Ok (of_nat (length hit), t\<lparr>blocks :=
        map (\<lambda>b. if bm_block_num b = num then b\<lparr>bm_spec_version := spec\<rparr> else b) (blocks t)\<rparr>))"

definition metadata_exists_stmt :: "u32 \<Rightarrow> bool stmt" where
  "metadata_exists_stmt spec t = Ok (spec \<in> mm_spec_version ` set (metadatas t), t)"

text \<open>\<open>SELECT MAX(block_num)\<close> is over the signed column; the result is cast back with \<open>as u32\<close>.\<close>

definition max_block_num_stmt :: "u32 option stmt" where
  "max_block_num_stmt t =
     Ok (map_option word_of_int
          (if blocks t = [] then None else Some (Max (set (map (\<lambda>b. sint (bm_block_num b)) (blocks t))))), t)"

definition finalized_block_stmt :: "FinalizedBlockModel option stmt" where
  "finalized_block_stmt t =
     Ok (map_option (\<lambda>b. \<lparr>fm_block_num = word_of_int (sint (fm_block_num b)),
                            fm_block_hash = fm_block_hash b\<rparr>) (finalized_block t), t)"

section \<open>The database handle\<close>

text \<open>
  The pool may fail to hand out a connection and a statement may fail on its connection, before or
  after it took effect; both are given per call, counted by the clock of the state.
\<close>

record pg_env =
  pool_faults :: "nat \<Rightarrow> SqlxError option"
  stmt_faults :: "SqlxError faults"

record pg =
  tables :: tables
  pg_clock :: nat

definition conn :: "pg_env \<Rightarrow> (pg, SqlxError, unit) prog" where
  "conn env s =
     (case pool_faults env (pg_clock s) of None \<Rightarrow> Ok () | Some e \<Rightarrow> Err e,
      s\<lparr>pg_clock := Suc (pg_clock s)\<rparr>)"

definition execute_stmt :: "pg_env \<Rightarrow> 'a stmt \<Rightarrow> (pg, SqlxError, 'a) prog" where
  "execute_stmt env q s =
     (let s' = s\<lparr>pg_clock := Suc (pg_clock s)\<rparr> in
      case stmt_faults env (pg_clock s) of
        None \<Rightarrow>
          (case q (tables s) of
             Ok (x, t) \<Rightarrow> (Ok x, s'\<lparr>tables := t\<rparr>)
           | Err e \<Rightarrow> (Err e, s')
           | Panic w \<Rightarrow> (Panic w, s'))
      | Some (applied, e) \<Rightarrow>
          (Err e, case q (tables s) of Ok (x, t) \<Rightarrow> if applied then s'\<lparr>tables := t\<rparr> else s' | _ \<Rightarrow> s'))"

datatype InsertModel =
    Metadata_row MetadataModel
  | Block_row BlockModel
  | Finalized_row FinalizedBlockModel

fun gen_query :: "InsertModel \<Rightarrow> u64 stmt" where
  "gen_query (Metadata_row m) = gen_query_metadata m"
| "gen_query (Block_row m) = gen_query_block m"
| "gen_query (Finalized_row m) = gen_query_finalized m"

definition db_insert :: "pg_env \<Rightarrow> InsertModel \<Rightarrow> (pg, SqlxError, u64) prog" where
  "db_insert env m = pbind (conn env) (\<lambda>_. execute_stmt env (gen_query m))"

definition update_spec :: "pg_env \<Rightarrow> u32 \<Rightarrow> u32 \<Rightarrow> (pg, SqlxError, u64) prog" where
  "update_spec env spec num = pbind (conn env) (\<lambda>_. execute_stmt env (update_spec_stmt spec num))"

definition check_if_metadata_exists :: "pg_env \<Rightarrow> u32 \<Rightarrow> (pg, SqlxError, bool) prog" where
  "check_if_metadata_exists env spec =
     pbind (conn env) (\<lambda>_. execute_stmt env (metadata_exists_stmt spec))"

definition max_block_num :: "pg_env \<Rightarrow> (pg, SqlxError, u32 option) prog" where
  "max_block_num env = pbind (conn env) (\<lambda>_. execute_stmt env max_block_num_stmt)"

definition query_finalized_block :: "pg_env \<Rightarrow> (pg, SqlxError, FinalizedBlockModel option) prog" where
  "query_finalized_block env = pbind (conn env) (\<lambda>_. execute_stmt env finalized_block_stmt)"

text \<open>Any request a task can make, and a run of them, whatever each returns.\<close>

datatype db_request =
    Insert_request InsertModel
  | Update_request u32 u32
  | Exists_request u32
  | Max_request
  | Finalized_request

fun run_request :: "pg_env \<Rightarrow> db_request \<Rightarrow> (pg, SqlxError, unit) prog" where
  "run_request env (Insert_request m) = ignore_result (db_insert env m)"
| "run_request env (Update_request spec num) = ignore_result (update_spec env spec num)"
| "run_request env (Exists_request spec) = ignore_result (check_if_metadata_exists env spec)"
| "run_request env Max_request = ignore_result (max_block_num env)"
| "run_request env Finalized_request = ignore_result (query_finalized_block env)"

section \<open>The schema as an invariant, and the tables as maps\<close>

definition schema_inv :: "tables \<Rightarrow> bool" where
  "schema_inv t \<longleftrightarrow>
     distinct (map mm_spec_version (metadatas t)) \<and>
     distinct (map bm_block_num (blocks t)) \<and>
     (\<forall>m\<in>set (metadatas t). 0 \<le> sint (mm_spec_version m)) \<and>
     (\<forall>b\<in>set (blocks t). partition_of (bm_block_num b) \<noteq> None \<and> in_check_range (bm_block_num b) \<and>
        bm_spec_version b \<in> mm_spec_version ` set (metadatas t)) \<and>
     (\<forall>f. finalized_block t = Some f \<longrightarrow> in_check_range (fm_block_num f))"

definition rows_by :: "('r \<Rightarrow> 'k) \<Rightarrow> 'r list \<Rightarrow> 'k \<rightharpoonup> 'r" where
  "rows_by key rs = map_of (map (\<lambda>r. (key r, r)) rs)"

definition block_rows :: "pg \<Rightarrow> u32 \<rightharpoonup> BlockModel" where
  "block_rows s = rows_by bm_block_num (blocks (tables s))"

definition metadata_rows :: "pg \<Rightarrow> u32 \<rightharpoonup> MetadataModel" where
  "metadata_rows s = rows_by mm_spec_version (metadatas (tables s))"

section \<open>The interface of the archive store\<close>

text \<open>
  What the archive tasks rely on: an acknowledged insert is a map update, an existence query tells
  whether a metadata row is there, and no call of any outcome breaks the schema.
\<close>

locale archive_store =
  fixes insert_block :: "BlockModel \<Rightarrow> ('s, 'e, u64) prog"
    and insert_meta :: "MetadataModel \<Rightarrow> ('s, 'e, u64) prog"
    and meta_exists :: "u32 \<Rightarrow> ('s, 'e, bool) prog"
    and block_map :: "'s \<Rightarrow> u32 \<rightharpoonup> BlockModel"
    and meta_map :: "'s \<Rightarrow> u32 \<rightharpoonup> MetadataModel"
    and invar :: "'s \<Rightarrow> bool"
  assumes insert_block_ok: "insert_block b s = (Ok n, s') \<Longrightarrow>
      block_map s' = (block_map s)(bm_block_num b \<mapsto> b) \<and> meta_map s' = meta_map s"
    and insert_meta_ok: "insert_meta m s = (Ok n, s') \<Longrightarrow>
      meta_map s' = (meta_map s)(mm_spec_version m \<mapsto> m) \<and> block_map s' = block_map s"
    and meta_exists_ok: "meta_exists v s = (Ok x, s') \<Longrightarrow>
      (x \<longleftrightarrow> meta_map s v \<noteq> None) \<and> meta_map s' = meta_map s \<and> block_map s' = block_map s"
    and invar_calls: "invar s \<Longrightarrow> invar (snd (insert_block b s))"
      "invar s \<Longrightarrow> invar (snd (insert_meta m s))" "invar s \<Longrightarrow> invar (snd (meta_exists v s))"
    and invar_foreign_key: "invar s \<Longrightarrow> block_map s k = Some b \<Longrightarrow> meta_map s (bm_spec_version b) \<noteq> None"
begin

text \<open>Storing a list of blocks that are all acknowledged.\<close>

lemma insert_blocks_ok:
  "for_each_prog (\<lambda>b. discard (insert_block b)) bs s = (Ok (), s') \<Longrightarrow>
   block_map s' = block_map s ++ map_of (rev (map (\<lambda>b. (bm_block_num b, b)) bs))"
proof (induction bs arbitrary: s)
  case (Cons b bs)
  from Cons.prems obtain n s1 where "insert_block b s = (Ok n, s1)"
    and rest: "for_each_prog (\<lambda>b. discard (insert_block b)) bs s1 = (Ok (), s')"
    by (auto simp: pbind_eq_Ok discard_eq_Ok)
  then have "block_map s1 = (block_map s)(bm_block_num b \<mapsto> b)"
    using insert_block_ok by blast
  with Cons.IH [OF rest] have "block_map s' =
      (block_map s)(bm_block_num b \<mapsto> b) ++ map_of (rev (map (\<lambda>b. (bm_block_num b, b)) bs))"
    by (simp only:)
  then show ?case by simp
qed simp

lemma insert_block_twice:
  assumes "insert_block b s = (Ok n, s1)" and "insert_block b s1 = (Ok k, s2)"
  shows "block_map s2 = block_map s1 \<and> meta_map s2 = meta_map s1"
  using insert_block_ok [OF assms(1)] insert_block_ok [OF assms(2)] by simp

end

section \<open>Lemmas on keyed rows\<close>

lemma rows_by_upsert [simp]: "rows_by key (upsert_by key r rs) = (rows_by key rs)(key r \<mapsto> r)"
  by (induction rs) (auto simp: rows_by_def fun_eq_iff)

lemma key_upsert: "key ` set (upsert_by key r rs) = insert (key r) (key ` set rs)"
  by (induction rs) auto

lemma set_upsert: "x \<in> set (upsert_by key r rs) \<Longrightarrow> x = r \<or> x \<in> set rs"
  by (induction rs) (auto split: if_splits)

lemma upsert_Nil [simp]: "upsert_by key r rs \<noteq> []"
  by (cases rs) auto

lemma distinct_upsert: "distinct (map key rs) \<Longrightarrow> distinct (map key (upsert_by key r rs))"
proof (induction rs)
  case (Cons x rs)
  then show ?case using key_upsert [of key r rs] by (auto simp: image_iff)
qed simp

lemma rows_by_SomeD: "rows_by key rs k = Some r \<Longrightarrow> r \<in> set rs \<and> key r = k"
  by (auto simp: rows_by_def dest: map_of_SomeD)

lemma rows_by_None: "rows_by key rs k = None \<longleftrightarrow> k \<notin> key ` set rs"
  by (auto simp: rows_by_def map_of_eq_None_iff image_iff)

lemma rows_by_mem: "k \<in> key ` set rs \<longleftrightarrow> rows_by key rs k \<noteq> None"
  using rows_by_None [of key rs k] by simp

lemma rows_by_map: "(\<And>r. key (f r) = key r) \<Longrightarrow> rows_by key (map f rs) k = map_option f (rows_by key rs k)"
  by (induction rs) (auto simp: rows_by_def)

lemma length_filter_key:
  "distinct (map key rs) \<Longrightarrow> length (filter (\<lambda>r. key r = k) rs) = (if rows_by key rs k = None then 0 else 1)"
proof (induction rs)
  case (Cons r rs)
  then show ?case
    using rows_by_None [of key rs k] by (auto simp: rows_by_def filter_empty_conv)
qed (simp add: rows_by_def)

section \<open>Lemmas on statements and calls\<close>

lemma conn_tables [simp]: "tables (snd (conn env s)) = tables s"
  by (simp add: conn_def)

text \<open>An acknowledged call ran its statement on the tables.\<close>

lemma call_ok:
  assumes "pbind (conn env) (\<lambda>_. execute_stmt env q) s = (Ok x, s')"
  shows "case q (tables s) of Ok (y, t) \<Rightarrow> y = x \<and> tables s' = t | _ \<Rightarrow> False"
  using assms
  by (auto simp: pbind_eq_Ok conn_def execute_stmt_def Let_def split: option.splits prod.splits result.splits)

text \<open>Any call leaves the tables as they were or as its statement makes them.\<close>

lemma call_tables:
  "tables (snd (pbind (conn env) (\<lambda>_. execute_stmt env q) s)) = tables s \<or>
   (\<exists>x. q (tables s) = Ok (x, tables (snd (pbind (conn env) (\<lambda>_. execute_stmt env q) s))))"
  by (auto simp: pbind_def conn_def execute_stmt_def Let_def split: option.splits prod.splits result.splits)

lemma call_no_faults:
  assumes "pool_faults env = no_faults" and "stmt_faults env = no_faults"
  shows "pbind (conn env) (\<lambda>_. execute_stmt env q) s =
    (case q (tables s) of
       Ok (x, t) \<Rightarrow> (Ok x, s\<lparr>tables := t, pg_clock := pg_clock s + 2\<rparr>)
     | Err e \<Rightarrow> (Err e, s\<lparr>pg_clock := pg_clock s + 2\<rparr>)
     | Panic w \<Rightarrow> (Panic w, s\<lparr>pg_clock := pg_clock s + 2\<rparr>))"
  using assms by (auto simp: pbind_def conn_def execute_stmt_def split: result.splits prod.splits)

lemma call_invariant:
  assumes "\<And>t x t'. I t \<Longrightarrow> q t = Ok (x, t') \<Longrightarrow> I t'"
  shows "preserves (\<lambda>s. I (tables s)) (pbind (conn env) (\<lambda>_. execute_stmt env q))"
  unfolding preserves_def using call_tables [of env q] assms by metis

lemma call_frame:
  assumes "\<And>t x t'. q t = Ok (x, t') \<Longrightarrow> f t' = f t"
  shows "f (tables (snd (pbind (conn env) (\<lambda>_. execute_stmt env q) s))) = f (tables s)"
  using call_tables [of env q s] assms by metis

lemma call_rule:
  assumes "P (tables s)" and "\<And>x t. q (tables s) = Ok (x, t) \<Longrightarrow> P t"
  shows "P (tables (snd (pbind (conn env) (\<lambda>_. execute_stmt env q) s)))"
  using call_tables [of env q s] assms by metis

lemma call_not_panic:
  assumes "\<And>t. \<not> is_panic (q t)"
  shows "\<not> is_panic (fst (pbind (conn env) (\<lambda>_. execute_stmt env q) s))"
  using assms [of "tables s"]
  by (auto simp: pbind_def conn_def execute_stmt_def Let_def split: option.splits prod.splits result.splits)

lemma gen_query_not_panic: "\<not> is_panic (gen_query m t)"
  by (cases m) (simp_all add: gen_query_metadata_def gen_query_block_def gen_query_finalized_def)

lemmas stmt_defs = gen_query_metadata_def gen_query_block_def gen_query_finalized_def
  update_spec_stmt_def metadata_exists_stmt_def max_block_num_stmt_def finalized_block_stmt_def
lemmas call_defs = db_insert_def update_spec_def check_if_metadata_exists_def max_block_num_def
  query_finalized_block_def

lemma schema_inv_create: "schema_inv create_tables"
  by (simp add: schema_inv_def create_tables_def)

lemma schema_inv_metadata:
  "schema_inv t \<Longrightarrow> gen_query_metadata m t = Ok (n, t') \<Longrightarrow> schema_inv t'"
  by (auto simp: schema_inv_def gen_query_metadata_def distinct_upsert key_upsert
      dest!: set_upsert split: if_splits)

lemma schema_inv_block:
  "schema_inv t \<Longrightarrow> gen_query_block m t = Ok (n, t') \<Longrightarrow> schema_inv t'"
  by (auto simp: schema_inv_def gen_query_block_def distinct_upsert dest!: set_upsert split: if_splits)

lemma schema_inv_finalized:
  "schema_inv t \<Longrightarrow> gen_query_finalized m t = Ok (n, t') \<Longrightarrow> schema_inv t'"
  by (auto simp: schema_inv_def gen_query_finalized_def split: if_splits)

lemma schema_inv_insert: "schema_inv t \<Longrightarrow> gen_query m t = Ok (n, t') \<Longrightarrow> schema_inv t'"
  by (cases m) (auto intro: schema_inv_metadata schema_inv_block schema_inv_finalized)

lemma schema_inv_update_spec:
  assumes inv: "schema_inv t" and upd: "update_spec_stmt spec num t = Ok (n, t')"
  shows "schema_inv t'"
proof -
  let ?f = "\<lambda>b. if bm_block_num b = num then b\<lparr>bm_spec_version := spec\<rparr> else b"
  from upd have t': "t' = t\<lparr>blocks := map ?f (blocks t)\<rparr>"
    and fk: "(\<forall>b\<in>set (blocks t). bm_block_num b \<noteq> num) \<or> spec \<in> mm_spec_version ` set (metadatas t)"
    by (auto simp: update_spec_stmt_def Let_def filter_empty_conv split: if_splits)
  have "map bm_block_num (map ?f (blocks t)) = map bm_block_num (blocks t)" by simp
  with inv fk show ?thesis by (auto simp: schema_inv_def t' simp del: map_map split: if_splits)
qed

lemma schema_inv_query:
  "schema_inv t \<Longrightarrow> metadata_exists_stmt v t = Ok (x, t') \<Longrightarrow> schema_inv t'"
  "schema_inv t \<Longrightarrow> max_block_num_stmt t = Ok (y, t') \<Longrightarrow> schema_inv t'"
  "schema_inv t \<Longrightarrow> finalized_block_stmt t = Ok (z, t') \<Longrightarrow> schema_inv t'"
  by (auto simp: metadata_exists_stmt_def max_block_num_stmt_def finalized_block_stmt_def)

lemma schema_calls:
  "preserves (\<lambda>s. schema_inv (tables s)) (db_insert env m)"
  "preserves (\<lambda>s. schema_inv (tables s)) (update_spec env spec num)"
  "preserves (\<lambda>s. schema_inv (tables s)) (check_if_metadata_exists env spec)"
  "preserves (\<lambda>s. schema_inv (tables s)) (max_block_num env)"
  "preserves (\<lambda>s. schema_inv (tables s)) (query_finalized_block env)"
  unfolding call_defs
  by (rule call_invariant, erule schema_inv_insert schema_inv_update_spec schema_inv_query, assumption)+

section \<open>The database implements the store\<close>

lemma db_insert_block_ok:
  "db_insert env (Block_row b) s = (Ok n, s') \<Longrightarrow>
   block_rows s' = (block_rows s)(bm_block_num b \<mapsto> b) \<and> metadata_rows s' = metadata_rows s"
  unfolding db_insert_def
  by (drule call_ok)
     (auto simp: gen_query_block_def block_rows_def metadata_rows_def split: if_splits)

lemma db_insert_metadata_ok:
  "db_insert env (Metadata_row m) s = (Ok n, s') \<Longrightarrow>
   metadata_rows s' = (metadata_rows s)(mm_spec_version m \<mapsto> m) \<and> block_rows s' = block_rows s"
  unfolding db_insert_def
  by (drule call_ok)
     (auto simp: gen_query_metadata_def block_rows_def metadata_rows_def split: if_splits)

lemma check_if_metadata_exists_ok:
  "check_if_metadata_exists env v s = (Ok x, s') \<Longrightarrow>
   (x \<longleftrightarrow> metadata_rows s v \<noteq> None) \<and> metadata_rows s' = metadata_rows s \<and> block_rows s' = block_rows s"
  unfolding check_if_metadata_exists_def
  by (drule call_ok)
     (auto simp: metadata_exists_stmt_def block_rows_def metadata_rows_def rows_by_mem)

lemma foreign_key_rows:
  "schema_inv (tables s) \<Longrightarrow> block_rows s k = Some b \<Longrightarrow> metadata_rows s (bm_spec_version b) \<noteq> None"
  by (auto simp: schema_inv_def block_rows_def metadata_rows_def rows_by_mem dest!: rows_by_SomeD)

interpretation db: archive_store
  "\<lambda>b. db_insert env (Block_row b)" "\<lambda>m. db_insert env (Metadata_row m)"
  "check_if_metadata_exists env" block_rows metadata_rows "\<lambda>s. schema_inv (tables s)" for env
proof unfold_locales
  show "schema_inv (tables s) \<Longrightarrow> schema_inv (tables (snd (db_insert env (Block_row b) s)))" for b s
    using schema_calls(1) by (rule preservesD)
  show "schema_inv (tables s) \<Longrightarrow> schema_inv (tables (snd (db_insert env (Metadata_row m) s)))" for m s
    using schema_calls(1) by (rule preservesD)
  show "schema_inv (tables s) \<Longrightarrow> schema_inv (tables (snd (check_if_metadata_exists env v s)))" for v s
    using schema_calls(3) by (rule preservesD)
qed (rule db_insert_block_ok db_insert_metadata_ok check_if_metadata_exists_ok foreign_key_rows; assumption)+

section \<open>Properties\<close>

lemma partition_of_None: "partition_of n = None \<longleftrightarrow> 10000000 \<le> n"
  using u32_signed_range [of n] by (auto simp: partition_of_def not_less split: if_splits)

lemma partition_in_check_range: "n < 10000000 \<Longrightarrow> in_check_range n"
  using u32_signed_range [of n] by (simp add: in_check_range_def)

lemma block_rows_keys: "bm_block_num ` set (blocks (tables s)) = dom (block_rows s)"
  by (simp only: block_rows_def dom_def rows_by_mem [symmetric] Collect_mem_eq)

lemma schema_inv_request: "preserves (\<lambda>s. schema_inv (tables s)) (run_request env r)"
  by (cases r) (auto intro: preserves_ignore schema_calls)

text \<open>C31: starting from the migrated (empty) tables, every run of requests of the archive, with any
  pattern of pool and statement failures, leaves tables that satisfy the whole schema: primary keys
  are unique, every block lies in a partition and has a metadata row for its version, and the checks
  hold.\<close>

theorem schema_always_holds:
  "schema_inv (tables (snd (for_each_prog (run_request env) rs \<lparr>tables = create_tables, pg_clock = 0\<rparr>)))"
proof -
  have "preserves (\<lambda>s. schema_inv (tables s)) (for_each_prog (run_request env) rs)"
    by (intro preserves_for_each schema_inv_request)
  then show ?thesis by (rule preservesD) (simp add: schema_inv_create)
qed

text \<open>Without faults, inserting a block row is acknowledged exactly when its number is below ten
  million and its version has a metadata row; then the row is stored under its number (replacing an
  earlier one) and nothing else changes, otherwise no table changes.\<close>

lemma insert_block_contract:
  assumes "pool_faults env = no_faults" and "stmt_faults env = no_faults"
  shows "if bm_block_num b < 10000000 \<and> metadata_rows s (bm_spec_version b) \<noteq> None
    then fst (db_insert env (Block_row b) s) = Ok 1 \<and>
      block_rows (snd (db_insert env (Block_row b) s)) = (block_rows s)(bm_block_num b \<mapsto> b) \<and>
      metadata_rows (snd (db_insert env (Block_row b) s)) = metadata_rows s
    else \<not> is_ok (fst (db_insert env (Block_row b) s)) \<and>
      tables (snd (db_insert env (Block_row b) s)) = tables s"
proof -
  have eq: "db_insert env (Block_row b) s = (case gen_query_block b (tables s) of
       Ok (x, t) \<Rightarrow> (Ok x, s\<lparr>tables := t, pg_clock := pg_clock s + 2\<rparr>)
     | Err e \<Rightarrow> (Err e, s\<lparr>pg_clock := pg_clock s + 2\<rparr>)
     | Panic w \<Rightarrow> (Panic w, s\<lparr>pg_clock := pg_clock s + 2\<rparr>))"
    using call_no_faults [OF assms, of "gen_query_block b" s] by (simp add: db_insert_def)
  show ?thesis
    using partition_in_check_range [of "bm_block_num b"]
    by (auto simp: eq gen_query_block_def partition_of_None metadata_rows_def block_rows_def rows_by_mem)
qed

text \<open>C37: a block number that reaches ten million is refused by the partitioned table however the
  database behaves: the insert never returns success and never changes a table.\<close>

theorem no_partition_never_stored:
  assumes "10000000 \<le> bm_block_num b"
  shows "\<not> is_ok (fst (db_insert env (Block_row b) s)) \<and>
    tables (snd (db_insert env (Block_row b) s)) = tables s"
proof -
  have "gen_query_block b t = Err (Database No_partition)" for t
    using assms by (simp add: gen_query_block_def partition_of_None)
  then show ?thesis
    by (auto simp: db_insert_def pbind_def conn_def execute_stmt_def Let_def
        split: option.splits prod.splits)
qed

text \<open>When the query for the highest block answers, the answer is the greatest stored number as an
  unsigned integer: the signed column and the cast back to 32 bits lose nothing. It is absent exactly
  when no block is stored.\<close>

lemma max_block_num_greatest:
  assumes "schema_inv (tables s)" and "max_block_num env s = (Ok r, s')"
  shows "(case r of None \<Rightarrow> dom (block_rows s) = {}
     | Some n \<Rightarrow> n \<in> dom (block_rows s) \<and> (\<forall>k\<in>dom (block_rows s). k \<le> n)) \<and> tables s' = tables s"
proof -
  let ?S = "(\<lambda>b. sint (bm_block_num b)) ` set (blocks (tables s))"
  from assms(2) have r: "r = map_option word_of_int (if blocks (tables s) = [] then None else Some (Max ?S))"
    and t: "tables s' = tables s"
    unfolding max_block_num_def by (auto dest!: call_ok simp: max_block_num_stmt_def)
  show ?thesis
  proof (cases "blocks (tables s) = []")
    case True
    then show ?thesis using r t by (simp flip: block_rows_keys)
  next
    case False
    then have "Max ?S \<in> ?S" by (intro Max_in) simp_all
    then obtain b where b: "b \<in> set (blocks (tables s))" and mx: "Max ?S = sint (bm_block_num b)"
      by auto
    have nonneg: "0 \<le> sint (bm_block_num c)" if "c \<in> set (blocks (tables s))" for c
      using assms(1) that by (simp add: schema_inv_def in_check_range_def)
    have "bm_block_num c \<le> bm_block_num b" if c: "c \<in> set (blocks (tables s))" for c
    proof -
      have "sint (bm_block_num c) \<le> Max ?S" using c by (intro Max_ge) auto
      then show ?thesis using mx u32_signed_le [OF nonneg [OF c] nonneg [OF b]] by simp
    qed
    then show ?thesis using False r t b mx by (auto simp flip: block_rows_keys)
  qed
qed

text \<open>C39: the finalized block is a single row: what the last acknowledged insert wrote is what the
  query returns, number and hash unchanged.\<close>

theorem finalized_block_roundtrip:
  assumes "db_insert env (Finalized_row f) s = (Ok n, s1)"
    and "query_finalized_block env s1 = (Ok r, s2)"
  shows "r = Some f"
proof -
  have "finalized_block (tables s1) = Some f"
    using assms(1) unfolding db_insert_def
    by (auto dest!: call_ok simp: gen_query_finalized_def split: if_splits)
  then show ?thesis
    using assms(2) unfolding query_finalized_block_def
    by (auto dest!: call_ok simp: finalized_block_stmt_def)
qed

text \<open>Changing the version of a block needs a metadata row for the new version; acknowledged, it
  reports one row when the block is stored and none otherwise, changes the version of that block only,
  and leaves every metadata row.\<close>

lemma update_spec_contract:
  assumes "schema_inv (tables s)" and "update_spec env v k s = (Ok n, s')"
  shows "block_rows s' = (block_rows s)(k := map_option (\<lambda>b. b\<lparr>bm_spec_version := v\<rparr>) (block_rows s k)) \<and>
    metadata_rows s' = metadata_rows s \<and>
    n = (if k \<in> dom (block_rows s) then 1 else 0) \<and>
    (k \<in> dom (block_rows s) \<longrightarrow> metadata_rows s v \<noteq> None)"
proof -
  let ?f = "\<lambda>b. if bm_block_num b = k then b\<lparr>bm_spec_version := v\<rparr> else b"
  let ?hit = "filter (\<lambda>b. bm_block_num b = k) (blocks (tables s))"
  have bl: "blocks (tables s') = map ?f (blocks (tables s))"
    and md: "metadatas (tables s') = metadatas (tables s)"
    and n: "n = of_nat (length ?hit)"
    and fk: "?hit \<noteq> [] \<longrightarrow> v \<in> mm_spec_version ` set (metadatas (tables s))"
    using assms(2) unfolding update_spec_def
    by (auto dest!: call_ok simp: update_spec_stmt_def Let_def split: if_splits)
  have hit: "length ?hit = (if block_rows s k = None then 0 else 1)"
    using assms(1) by (simp add: schema_inv_def block_rows_def length_filter_key)
  have "block_rows s' j = map_option ?f (block_rows s j)" for j
    by (simp add: block_rows_def bl rows_by_map)
  moreover have "map_option ?f (block_rows s j) =
      (if j = k then map_option (\<lambda>b. b\<lparr>bm_spec_version := v\<rparr>) (block_rows s j) else block_rows s j)" for j
    by (cases "block_rows s j") (auto simp: block_rows_def dest: rows_by_SomeD)
  ultimately have "block_rows s' = (block_rows s)(k := map_option (\<lambda>b. b\<lparr>bm_spec_version := v\<rparr>) (block_rows s k))"
    by auto
  moreover have "metadata_rows s' = metadata_rows s" by (simp add: metadata_rows_def md)
  moreover have "k \<in> dom (block_rows s) \<longrightarrow> metadata_rows s v \<noteq> None"
    using fk hit by (auto simp: metadata_rows_def rows_by_mem)
  ultimately show ?thesis using n hit by auto
qed

section \<open>Concrete rows\<close>

definition pg_ok :: pg_env where
  "pg_ok = \<lparr>pool_faults = no_faults, stmt_faults = no_faults\<rparr>"

lemma pg_ok_no_faults: "pool_faults pg_ok = no_faults" "stmt_faults pg_ok = no_faults"
  by (simp_all add: pg_ok_def)

definition demo_metadata :: MetadataModel where
  "demo_metadata = \<lparr>mm_spec_version = 265, mm_block_num = 1, mm_block_hash = [1], mm_meta = [9]\<rparr>"

definition demo_block :: "u32 \<Rightarrow> BlockModel" where
  "demo_block n = \<lparr>bm_spec_version = 265, bm_block_num = n, bm_block_hash = [1], bm_parent_hash = [0],
     bm_state_root = [2], bm_extrinsics_root = [3], bm_digest = [], bm_extrinsics = [[7]],
     bm_justifications = None, bm_main_changes = JsonNull, bm_child_changes = JsonNull\<rparr>"

lemma demo_block_simps [simp]: "bm_block_num (demo_block n) = n" "bm_spec_version (demo_block n) = 265"
  by (simp_all add: demo_block_def)

definition demo_pg :: pg where
  "demo_pg = \<lparr>tables = \<lparr>metadatas = [demo_metadata], blocks = [demo_block 4, demo_block 5],
     finalized_block = None\<rparr>, pg_clock = 0\<rparr>"

lemma demo_pg_schema: "schema_inv (tables demo_pg)"
  by (simp add: schema_inv_def demo_pg_def demo_metadata_def partition_of_def in_check_range_def)

theorem no_partition_never_stored_witness:
  "(10000000 :: u32) \<le> bm_block_num (demo_block 10000000) \<and>
   tables (snd (db_insert pg_ok (Block_row (demo_block 10000000)) demo_pg)) = tables demo_pg"
  using no_partition_never_stored [of "demo_block 10000000" pg_ok demo_pg] by simp

lemma demo_max_block_num: "max_block_num pg_ok demo_pg = (Ok (Some 5), demo_pg\<lparr>pg_clock := 2\<rparr>)"
  by (simp add: max_block_num_def call_no_faults [OF pg_ok_no_faults] max_block_num_stmt_def demo_pg_def)

theorem finalized_block_roundtrip_witness:
  "fst (query_finalized_block pg_ok
     (snd (db_insert pg_ok (Finalized_row \<lparr>fm_block_num = 9, fm_block_hash = [1, 2]\<rparr>) demo_pg))) =
   Ok (Some \<lparr>fm_block_num = 9, fm_block_hash = [1, 2]\<rparr>)"
proof -
  let ?f = "\<lparr>fm_block_num = 9, fm_block_hash = [1, 2]\<rparr>"
  let ?s = "demo_pg\<lparr>tables := (tables demo_pg)\<lparr>finalized_block := Some ?f\<rparr>, pg_clock := 2\<rparr>"
  have ins: "db_insert pg_ok (Finalized_row ?f) demo_pg = (Ok 1, ?s)"
    by (simp add: db_insert_def call_no_faults [OF pg_ok_no_faults] gen_query_finalized_def
        in_check_range_def demo_pg_def)
  obtain r s2 where q: "query_finalized_block pg_ok ?s = (Ok r, s2)"
    by (simp add: query_finalized_block_def call_no_faults [OF pg_ok_no_faults] finalized_block_stmt_def)
  from finalized_block_roundtrip [OF ins q] q ins show ?thesis by simp
qed

end
