(* ===== verification/Kafka_Producer.thy ===== *)
theory Kafka_Producer
  imports Archive_Prelude
begin

text \<open>
  The Kafka side of the archive (\<open>archive/kafka\<close>): the configuration and its check, the payloads and
  the producer that routes each kind of payload to its topic under its key. The broker keeps a log of
  delivered records and may fail a delivery at any call. \<open>payload_sink\<close> is the interface the
  notifier relies on.
\<close>

section \<open>Configuration and payloads\<close>

record KafkaTopicConfig =
  topic_metadata :: string
  topic_block :: string
  topic_finalized_block :: string

record KafkaConfig =
  queue_timeout :: u64
  topic :: KafkaTopicConfig
  rdkafka :: "string \<rightharpoonup> string"

record MetadataPayload =
  mp_spec_version :: u32
  mp_block_num :: BlockNumber
  mp_block_hash :: H256
  mp_meta :: bytes

record BlockPayload =
  bp_spec_version :: u32
  bp_block_num :: BlockNumber
  bp_block_hash :: H256
  bp_parent_hash :: H256
  bp_state_root :: H256
  bp_extrinsics_root :: H256
  bp_digest :: "DigestItem list"
  bp_extrinsics :: "Extrinsic list"
  bp_justifications :: "Justification list option"
  bp_main_changes :: "StorageKey \<rightharpoonup> StorageData option"
  bp_child_changes :: "StorageKey \<rightharpoonup> (StorageKey \<rightharpoonup> StorageData option)"

record FinalizedBlockPayload =
  fp_block_num :: BlockNumber
  fp_block_hash :: H256

record MetadataPayloadForDemo =
  md_spec_version :: u32
  md_block_num :: u32
  md_block_hash :: string
  md_meta :: bytes

record BlockPayloadForDemo =
  bd_spec_version :: u32
  bd_block_num :: u32
  bd_block_hash :: string
  bd_parent_hash :: string
  bd_state_root :: string
  bd_extrinsics_root :: string
  bd_digest :: string
  bd_extrinsics :: "string list"
  bd_justifications :: "Justification list option"
  bd_main_changes :: "StorageKey \<rightharpoonup> StorageData option"
  bd_child_changes :: "StorageKey \<rightharpoonup> (StorageKey \<rightharpoonup> StorageData option)"

record FinalizedBlockPayloadDemo =
  fd_block_num :: u32
  fd_block_hash :: string

text \<open>The implementations of the \<open>SendPayload\<close> trait.\<close>

datatype SendPayload =
    Metadata_payload MetadataPayload
  | Block_payload BlockPayload
  | Finalized_payload FinalizedBlockPayload
  | Metadata_demo MetadataPayloadForDemo
  | Block_demo BlockPayloadForDemo
  | Finalized_demo FinalizedBlockPayloadDemo

datatype KafkaError = ClientCreation string | MessageProduction string

record FutureRecord =
  fr_topic :: string
  fr_payload :: string
  fr_key :: "string option"

section \<open>The producer\<close>

text \<open>JSON serialisation, the creation of the client and the deliveries belong to other packages.\<close>

record kafka_env =
  serialize :: "SendPayload \<Rightarrow> string option"
  create_client :: "(string \<rightharpoonup> string) \<Rightarrow> (KafkaError, unit) result"
  delivery_faults :: "KafkaError faults"

record kafka =
  delivered :: "FutureRecord list"
  kafka_clock :: nat

definition check_kafka_config :: "KafkaConfig \<Rightarrow> bool" where
  "check_kafka_config c \<longleftrightarrow>
     (rdkafka c ''metadata.broker.list'' \<noteq> None \<or> rdkafka c ''bootstrap.servers'' \<noteq> None) \<and>
     topic_metadata (topic c) \<noteq> [] \<and> topic_block (topic c) \<noteq> []"

definition producer_new :: "kafka_env \<Rightarrow> KafkaConfig \<Rightarrow> (KafkaError, KafkaConfig) result" where
  "producer_new env c =
     (if \<not> check_kafka_config c then Panic ''Invalid kafka producer configuration''
      else and_then (create_client env (rdkafka c)) (\<lambda>_. Ok c))"

definition send_inner ::
  "kafka_env \<Rightarrow> string \<Rightarrow> string \<Rightarrow> string option \<Rightarrow> (kafka, KafkaError, unit) prog" where
  "send_inner env t p key s =
     (let record = (case key of
            Some k \<Rightarrow> \<lparr>fr_topic = t, fr_payload = p, fr_key = Some k\<rparr>
          | None \<Rightarrow> \<lparr>fr_topic = t, fr_payload = p, fr_key = None\<rparr>);
          s' = s\<lparr>kafka_clock := Suc (kafka_clock s)\<rparr>;
          done = s'\<lparr>delivered := delivered s @ [record]\<rparr>
      in case delivery_faults env (kafka_clock s) of
           None \<Rightarrow> (Ok (), done)
         | Some (applied, e) \<Rightarrow> (Err e, if applied then done else s'))"

fun send_payload :: "kafka_env \<Rightarrow> KafkaConfig \<Rightarrow> SendPayload \<Rightarrow> (kafka, KafkaError, unit) prog" where
  "send_payload env c (Metadata_payload p) =
     pbind (return_prog (expect_some ''Serialize metadata payload'' (serialize env (Metadata_payload p)))) (\<lambda>js.
       send_inner env (topic_metadata (topic c)) js (Some (to_string_u32 (mp_spec_version p))))"
| "send_payload env c (Block_payload p) =
     pbind (return_prog (expect_some ''Serialize best block payload'' (serialize env (Block_payload p)))) (\<lambda>js.
       send_inner env (topic_block (topic c)) js (Some (to_string_u32 (bp_block_num p))))"
| "send_payload env c (Finalized_payload p) =
     pbind (return_prog (expect_some ''Serialize finalized block payload'' (serialize env (Finalized_payload p)))) (\<lambda>js.
       send_inner env (topic_finalized_block (topic c)) js None)"
| "send_payload env c (Metadata_demo p) =
     pbind (return_prog (expect_some ''Serialize metadata payload'' (serialize env (Metadata_demo p)))) (\<lambda>js.
       send_inner env (topic_metadata (topic c)) js (Some (to_string_u32 (md_spec_version p))))"
| "send_payload env c (Block_demo p) =
     pbind (return_prog (expect_some ''Serialize best block payload'' (serialize env (Block_demo p)))) (\<lambda>js.
       send_inner env (topic_block (topic c)) js (Some (to_string_u32 (bd_block_num p))))"
| "send_payload env c (Finalized_demo p) =
     pbind (return_prog (expect_some ''Serialize finalized block payload'' (serialize env (Finalized_demo p)))) (\<lambda>js.
       send_inner env (topic_finalized_block (topic c)) js None)"

definition producer_send :: "kafka_env \<Rightarrow> KafkaConfig \<Rightarrow> SendPayload \<Rightarrow> (kafka, KafkaError, unit) prog" where
  "producer_send env c payload = send_payload env c payload"

section \<open>What a payload becomes on the wire\<close>

fun payload_topic :: "KafkaConfig \<Rightarrow> SendPayload \<Rightarrow> string" where
  "payload_topic c (Metadata_payload p) = topic_metadata (topic c)"
| "payload_topic c (Metadata_demo p) = topic_metadata (topic c)"
| "payload_topic c (Block_payload p) = topic_block (topic c)"
| "payload_topic c (Block_demo p) = topic_block (topic c)"
| "payload_topic c (Finalized_payload p) = topic_finalized_block (topic c)"
| "payload_topic c (Finalized_demo p) = topic_finalized_block (topic c)"

fun payload_id :: "SendPayload \<Rightarrow> u32 option" where
  "payload_id (Metadata_payload p) = Some (mp_spec_version p)"
| "payload_id (Metadata_demo p) = Some (md_spec_version p)"
| "payload_id (Block_payload p) = Some (bp_block_num p)"
| "payload_id (Block_demo p) = Some (bd_block_num p)"
| "payload_id (Finalized_payload p) = None"
| "payload_id (Finalized_demo p) = None"

definition payload_record :: "kafka_env \<Rightarrow> KafkaConfig \<Rightarrow> SendPayload \<Rightarrow> FutureRecord option" where
  "payload_record env c p =
     map_option (\<lambda>js. \<lparr>fr_topic = payload_topic c p, fr_payload = js,
       fr_key = map_option to_string_u32 (payload_id p)\<rparr>) (serialize env p)"

section \<open>The interface of the message sink\<close>

text \<open>
  A sink keeps an append-only log: an acknowledged send adds the rendering of its payload, a failed
  send adds it or nothing.
\<close>

locale payload_sink =
  fixes send :: "'p \<Rightarrow> ('s, 'e, unit) prog"
    and log :: "'s \<Rightarrow> 'r list"
    and render :: "'p \<Rightarrow> 'r option"
  assumes send_ok: "send p s = (Ok u, s') \<Longrightarrow> \<exists>r. render p = Some r \<and> log s' = log s @ [r]"
    and send_any: "log (snd (send p s)) = log s \<or>
      (\<exists>r. render p = Some r \<and> log (snd (send p s)) = log s @ [r])"
begin

lemma sends_append_only:
  "\<exists>rs. log (snd (for_each_prog (\<lambda>p. ignore_result (send p)) ps s)) = log s @ rs \<and>
     set rs \<subseteq> {r. \<exists>p\<in>set ps. render p = Some r}"
proof (rule for_each_relates [where R = "\<lambda>s t. \<exists>rs. log t = log s @ rs \<and>
    set rs \<subseteq> {r. \<exists>p\<in>set ps. render p = Some r}"])
  fix s t u
  assume "\<exists>rs. log t = log s @ rs \<and> set rs \<subseteq> {r. \<exists>p\<in>set ps. render p = Some r}"
    and "\<exists>rs. log u = log t @ rs \<and> set rs \<subseteq> {r. \<exists>p\<in>set ps. render p = Some r}"
  then obtain rs qs where "log u = log s @ (rs @ qs)"
    "set (rs @ qs) \<subseteq> {r. \<exists>p\<in>set ps. render p = Some r}" by auto
  then show "\<exists>rs. log u = log s @ rs \<and> set rs \<subseteq> {r. \<exists>p\<in>set ps. render p = Some r}" by blast
next
  fix p s assume "p \<in> set ps"
  then show "\<exists>rs. log (snd (ignore_result (send p) s)) = log s @ rs \<and>
      set rs \<subseteq> {r. \<exists>p\<in>set ps. render p = Some r}"
    using send_any [of p s] by auto
qed simp

end

lemma send_inner_delivered:
  "delivered (snd (send_inner env t p key s)) = delivered s \<or>
   delivered (snd (send_inner env t p key s)) = delivered s @ [\<lparr>fr_topic = t, fr_payload = p, fr_key = key\<rparr>]"
  by (auto simp: send_inner_def Let_def split: option.splits)

lemma send_inner_ok:
  "send_inner env t p key s = (Ok u, s') \<Longrightarrow>
   delivered s' = delivered s @ [\<lparr>fr_topic = t, fr_payload = p, fr_key = key\<rparr>]"
  by (auto simp: send_inner_def Let_def split: option.splits prod.splits if_splits)

text \<open>All implementations of the trait follow one scheme.\<close>

lemma send_payload_scheme:
  "send_payload env c p s =
    (case serialize env p of
       None \<Rightarrow> (Panic (case p of
           Metadata_payload _ \<Rightarrow> ''Serialize metadata payload'' | Metadata_demo _ \<Rightarrow> ''Serialize metadata payload''
         | Block_payload _ \<Rightarrow> ''Serialize best block payload'' | Block_demo _ \<Rightarrow> ''Serialize best block payload''
         | _ \<Rightarrow> ''Serialize finalized block payload''), s)
     | Some js \<Rightarrow> send_inner env (payload_topic c p) js (map_option to_string_u32 (payload_id p)) s)"
  by (cases p) (simp_all add: pbind_def split: option.splits)

interpretation kafka: payload_sink "send_payload env c" delivered "payload_record env c" for env c
proof unfold_locales
  show "\<exists>r. payload_record env c p = Some r \<and> delivered s' = delivered s @ [r]"
    if "send_payload env c p s = (Ok u, s')" for p s u s'
    using that send_inner_ok by (fastforce simp: send_payload_scheme payload_record_def split: option.splits)
  show "delivered (snd (send_payload env c p s)) = delivered s \<or>
      (\<exists>r. payload_record env c p = Some r \<and> delivered (snd (send_payload env c p s)) = delivered s @ [r])" for p s
    using send_inner_delivered by (auto simp: send_payload_scheme payload_record_def split: option.splits)
qed

section \<open>Properties\<close>

text \<open>An acknowledged send has delivered exactly one record, at the end of the log, on the topic
  of the payload's kind, keyed by the decimal number of its version (metadata) or of its block
  (blocks), and unkeyed for finalized blocks.\<close>

lemma send_routes_payload:
  assumes "send_payload env c p s = (Ok (), s')"
  shows "\<exists>js. serialize env p = Some js \<and>
    delivered s' = delivered s @ [\<lparr>fr_topic = payload_topic c p, fr_payload = js,
      fr_key = map_option (\<lambda>n. dec_string (unat n)) (payload_id p)\<rparr>]"
  using kafka.send_ok [OF assms]
  by (auto simp: payload_record_def comp_def to_string_u32_def [abs_def])

text \<open>Two block payloads get the same key exactly when they carry the same block number, and two
  metadata payloads exactly when they carry the same version, so keyed compaction on the topics keeps
  one record per block and per version.\<close>

lemma payload_keys_identify:
  assumes "payload_record env c x = Some r" and "payload_record env c y = Some r'"
    and "(\<exists>p q. x = Block_payload p \<and> y = Block_payload q) \<or>
      (\<exists>p q. x = Metadata_payload p \<and> y = Metadata_payload q)"
  shows "fr_topic r = fr_topic r' \<and> (fr_key r = fr_key r' \<longleftrightarrow> payload_id x = payload_id y)"
  using assms by (auto simp: payload_record_def)

text \<open>A producer is only created with a broker list and with non-empty topics for metadata and
  blocks, so no acknowledged metadata or block record goes to an unnamed topic.\<close>

lemma created_producer_names_topics:
  assumes "producer_new env c = Ok c'" and "send_payload kenv c' p s = (Ok (), s')"
    and "\<forall>f. p \<noteq> Finalized_payload f" and "\<forall>f. p \<noteq> Finalized_demo f"
  shows "c' = c \<and> (rdkafka c ''metadata.broker.list'' \<noteq> None \<or> rdkafka c ''bootstrap.servers'' \<noteq> None) \<and>
    fr_topic (last (delivered s')) \<noteq> []"
proof -
  from assms(1) have c: "check_kafka_config c" "c' = c"
    by (auto simp: producer_new_def elim!: and_then.elims split: if_splits)
  from kafka.send_ok [OF assms(2)] have "fr_topic (last (delivered s')) = payload_topic c' p"
    by (auto simp: payload_record_def)
  with c assms(3,4) show ?thesis by (cases p) (auto simp: check_kafka_config_def)
qed

section \<open>A concrete producer\<close>

definition demo_kafka_config :: KafkaConfig where
  "demo_kafka_config = \<lparr>queue_timeout = 0,
     topic = \<lparr>topic_metadata = ''dot-metadata'', topic_block = ''dot-block'',
       topic_finalized_block = ''dot-finalized-block''\<rparr>,
     rdkafka = [''metadata.broker.list'' \<mapsto> ''192.168.2.142:9092'']\<rparr>"

definition kafka_ok :: kafka_env where
  "kafka_ok = \<lparr>serialize = (\<lambda>_. Some ''{}''), create_client = (\<lambda>_. Ok ()), delivery_faults = no_faults\<rparr>"

definition kafka_empty :: kafka where
  "kafka_empty = \<lparr>delivered = [], kafka_clock = 0\<rparr>"

end
