(* ===== verification/Block_Executor.thy ===== *)
theory Block_Executor
  imports Version_Cache Postgres_Db Kafka_Producer
begin

text \<open>
  The block executor (\<open>archive/executor/src/lib.rs\<close>) and the local implementation of the
  \<open>ArchiveCore\<close> trait it reads blocks through (\<open>archive/traits\<close>). The executor fetches a block,
  re-executes it on the state of its parent, looks the runtime version up and sends one message to
  the archiver and the block's number to the comparer.
\<close>

section \<open>Reading blocks: \<open>LocalBackendCore\<close>\<close>

record 'st chain_backend =
  bc_header :: "BlockId \<Rightarrow> (string, Header option) result"
  bc_body :: "BlockId \<Rightarrow> (string, Extrinsic list option) result"
  bc_justifications :: "BlockId \<Rightarrow> (string, Justification list option) result"
  be_state_at :: "BlockId \<Rightarrow> (string, 'st) result"

definition core_get_block :: "'st chain_backend \<Rightarrow> u32 \<Rightarrow> (blockchain_error, SignedBlock option) result" where
  "core_get_block be n =
     and_then (unwrap_result ''unwrap header'' (bc_header be (Number n))) (\<lambda>h.
     and_then (unwrap_result ''unwrap body'' (bc_body be (Number n))) (\<lambda>b.
     and_then (unwrap_result ''unwrap justifications'' (bc_justifications be (Number n))) (\<lambda>j.
       Ok (case (h, b) of
             (Some hdr, Some body) \<Rightarrow>
               Some \<lparr>block = \<lparr>header = hdr, extrinsics = body\<rparr>, justifications = j\<rparr>
           | _ \<Rightarrow> None))))"

definition core_get_state :: "'st chain_backend \<Rightarrow> BlockId \<Rightarrow> (string, 'st) result" where
  "core_get_state be b = be_state_at be b"

text \<open>The trait's other methods are not implemented by the local core.\<close>

definition core_get_storages :: "'st chain_backend \<Rightarrow> ('e, 'a) result" where
  "core_get_storages be = Panic ''not implemented''"

definition core_get_code :: "'st chain_backend \<Rightarrow> ('e, unit) result" where
  "core_get_code be = Panic ''not implemented''"

definition core_execute_block :: "'st chain_backend \<Rightarrow> ('e, unit) result" where
  "core_execute_block be = Panic ''not implemented''"

section \<open>The executor\<close>

record StorageChanges =
  main_storage_changes :: "(bytes \<times> bytes option) list"
  transaction_storage_root :: H256

text \<open>
  What the executor calls: the core and the version cache's environment, the runtime API after it
  executed a block (its result is dropped by the code, so only the resulting API value matters), the
  extraction of the storage changes, the header hash, the SCALE encoders, the JSON encoder, and the
  genesis storage built at start-up.
\<close>

record ('st, 'api) exec_env =
  xe_backend :: "'st chain_backend"
  xe_version :: "'st version_env"
  xe_execute_block :: "BlockId \<Rightarrow> Block \<Rightarrow> 'api"
  xe_into_storage_changes :: "'api \<Rightarrow> 'st \<Rightarrow> H256 \<Rightarrow> (string, StorageChanges) result"
  xe_header_hash :: "Header \<Rightarrow> H256"
  xe_encode_extrinsic :: "Extrinsic \<Rightarrow> bytes"
  xe_encode_justification :: "Justification \<Rightarrow> bytes"
  xe_encode_digest :: "DigestItem list \<Rightarrow> bytes"
  xe_json :: "(StorageKey \<rightharpoonup> StorageData option) \<Rightarrow> JsonValue"
  xe_genesis_top :: "(bytes \<times> bytes) list"

type_synonym ArchiveSendMsg = "BlockModel \<times> BlockPayload"

record executor =
  version_cache :: RuntimeVersionCache
  archiver_send :: "ArchiveSendMsg list"
  comparer_send :: "u32 list"

text \<open>The client, the core and the genesis storage of \<open>BlockExecutor::new\<close> are fields of the environment.\<close>

definition executor_new :: "RuntimeVersionCache \<Rightarrow> executor" where
  "executor_new cache = \<lparr>version_cache = cache, archiver_send = [], comparer_send = []\<rparr>"

declare executor_new_def [simp]

text \<open>The block handed to the runtime lacks the last digest item (the seal).\<close>

definition unsealed :: "Block \<Rightarrow> Block" where
  "unsealed b = b\<lparr>header := (header b)\<lparr>digest := butlast (digest (header b))\<rparr>\<rparr>"

definition execute_block_and_into_storage_changes ::
  "('st, 'api) exec_env \<Rightarrow> u32 \<Rightarrow>
     (blockchain_error, (StorageChanges \<times> SignedBlock) option) result" where
  "execute_block_and_into_storage_changes env n =
     and_then (core_get_block (xe_backend env) n) (\<lambda>found.
       case found of
         None \<Rightarrow> Ok None
       | Some signed_block \<Rightarrow>
           (let parent = parent_hash (header (block signed_block)) in
            case core_get_state (xe_backend env) (Hash parent) of
              Err _ \<Rightarrow> Ok None
            | Panic w \<Rightarrow> Panic w
            | Ok st \<Rightarrow>
                (let api = xe_execute_block env (Hash parent) (unsealed (block signed_block)) in
                 case xe_into_storage_changes env api st parent of
                   Err _ \<Rightarrow> Ok None
                 | Panic w \<Rightarrow> Panic w
                 | Ok sc \<Rightarrow> Ok (Some (sc, signed_block)))))"

text \<open>The storage map that is archived: the genesis storage for block 0, the changes otherwise.\<close>

definition storages_map ::
  "('st, 'api) exec_env \<Rightarrow> u32 \<Rightarrow> StorageChanges \<Rightarrow> (StorageKey \<rightharpoonup> StorageData option)" where
  "storages_map env n sc =
     (if n = 0 then map_of (rev (map (\<lambda>(k, v). (k, Some v)) (xe_genesis_top env)))
      else map_of (rev (main_storage_changes sc)))"

definition block_model ::
  "('st, 'api) exec_env \<Rightarrow> u32 \<Rightarrow> u32 \<Rightarrow> StorageChanges \<Rightarrow> SignedBlock \<Rightarrow> BlockModel" where
  "block_model env spec n sc signed_block =
     (let h = header (block signed_block) in
      \<lparr>bm_spec_version = spec, bm_block_num = n,
       bm_block_hash = hash_bytes (xe_header_hash env h),
       bm_parent_hash = hash_bytes (parent_hash h),
       bm_state_root = hash_bytes (state_root h),
       bm_extrinsics_root = hash_bytes (extrinsics_root h),
       bm_digest = xe_encode_digest env (digest h),
       bm_extrinsics = map (xe_encode_extrinsic env) (extrinsics (block signed_block)),
       bm_justifications = map_option (map (xe_encode_justification env)) (justifications signed_block),
       bm_main_changes = xe_json env (storages_map env n sc),
       bm_child_changes = JsonNull\<rparr>)"

definition block_payload ::
  "('st, 'api) exec_env \<Rightarrow> u32 \<Rightarrow> u32 \<Rightarrow> StorageChanges \<Rightarrow> SignedBlock \<Rightarrow> BlockPayload" where
  "block_payload env spec n sc signed_block =
     (let h = header (block signed_block) in
      \<lparr>bp_spec_version = spec, bp_block_num = number h,
       bp_block_hash = xe_header_hash env h,
       bp_parent_hash = parent_hash h,
       bp_state_root = state_root h,
       bp_extrinsics_root = extrinsics_root h,
       bp_digest = digest h,
       bp_extrinsics = extrinsics (block signed_block),
       bp_justifications = justifications signed_block,
       bp_main_changes = storages_map env n sc,
       bp_child_changes = Map.empty\<rparr>)"

text \<open>The version of the block, or a panic: an error and an absent version both end the task.\<close>

definition spec_version_of :: "('st, 'api) exec_env \<Rightarrow> u32 \<Rightarrow> (executor, blockchain_error, u32) prog" where
  "spec_version_of env n s =
     (case get_by_id (xe_version env) (Number n) (version_cache s) of
        (r, c) \<Rightarrow>
          (case r of
             Ok (Some v) \<Rightarrow> Ok (spec_version v)
           | Ok None \<Rightarrow> Panic ''get runtime version none''
           | Err _ \<Rightarrow> Panic ''get runtime version error''
           | Panic w \<Rightarrow> Panic w, s\<lparr>version_cache := c\<rparr>))"

definition send_archiver :: "ArchiveSendMsg \<Rightarrow> (executor, 'e, unit) prog" where
  "send_archiver m = modify_prog (\<lambda>s. s\<lparr>archiver_send := archiver_send s @ [m]\<rparr>)"

definition send_comparer :: "u32 \<Rightarrow> (executor, 'e, unit) prog" where
  "send_comparer n = modify_prog (\<lambda>s. s\<lparr>comparer_send := comparer_send s @ [n]\<rparr>)"

definition executor_archive :: "('st, 'api) exec_env \<Rightarrow> u32 \<Rightarrow> (executor, blockchain_error, unit) prog" where
  "executor_archive env n =
     pbind (return_prog (execute_block_and_into_storage_changes env n)) (\<lambda>storages.
       case storages of
         None \<Rightarrow> if n \<noteq> 0 then return_prog (Panic ''get storages is none'') else send_comparer n
       | Some (sc, signed_block) \<Rightarrow>
           pbind (spec_version_of env n) (\<lambda>spec.
           pbind (send_archiver (block_model env spec n sc signed_block, block_payload env spec n sc signed_block)) (\<lambda>_.
             send_comparer n)))"

section \<open>The interface to the core\<close>

text \<open>
  A core answers for a number with the header and body the chain has for it, and fails to answer only
  by a panic.
\<close>

locale archive_core =
  fixes get_block :: "u32 \<Rightarrow> ('e, SignedBlock option) result"
    and chain_block :: "u32 \<Rightarrow> Block option"
  assumes get_block_chain: "get_block n = Ok (Some sb) \<Longrightarrow> chain_block n = Some (block sb)"
    and get_block_none: "get_block n = Ok None \<Longrightarrow> chain_block n = None"
    and get_block_no_err: "get_block n \<noteq> Err e"
begin

lemma get_block_cases:
  obtains (found) sb where "get_block n = Ok (Some sb)" "chain_block n = Some (block sb)"
  | (missing) "get_block n = Ok None" "chain_block n = None"
  | (died) w where "get_block n = Panic w"
proof (cases "get_block n")
  case (Ok x)
  then show ?thesis
    by (cases x) (use get_block_chain get_block_none found missing in auto)
next
  case (Err e)
  then show ?thesis using get_block_no_err by simp
qed (rule died)

end

text \<open>The block of a number in a backend whose queries answer.\<close>

definition backend_block :: "'st chain_backend \<Rightarrow> u32 \<Rightarrow> Block option" where
  "backend_block be n =
     (case (bc_header be (Number n), bc_body be (Number n)) of
        (Ok (Some h), Ok (Some b)) \<Rightarrow> Some \<lparr>header = h, extrinsics = b\<rparr>
      | _ \<Rightarrow> None)"

lemma core_get_block_result:
  "case core_get_block be n of
     Ok (Some sb) \<Rightarrow> backend_block be n = Some (block sb)
   | Ok None \<Rightarrow> backend_block be n = None
   | Err _ \<Rightarrow> False
   | Panic _ \<Rightarrow> True"
  by (auto simp: core_get_block_def backend_block_def result_cases split: result.splits option.splits)

interpretation core: archive_core "core_get_block be" "backend_block be" for be
proof unfold_locales
  show "backend_block be n = Some (block sb)" if "core_get_block be n = Ok (Some sb)" for n sb
    using core_get_block_result [of be n] that by simp
  show "backend_block be n = None" if "core_get_block be n = Ok None" for n
    using core_get_block_result [of be n] that by simp
  show "core_get_block be n \<noteq> Err e" for n e
    using core_get_block_result [of be n] by auto
qed

section \<open>Lemmas on the executor\<close>

lemma spec_version_of_ok:
  assumes "spec_version_of env n s = (Ok spec, s')"
  shows "\<exists>v c. get_by_id (xe_version env) (Number n) (version_cache s) = (Ok (Some v), c) \<and>
    spec = spec_version v \<and> s' = s\<lparr>version_cache := c\<rparr>"
  using assms by (auto simp: spec_version_of_def split: prod.splits result.splits option.splits)

lemma spec_version_of_queues:
  "archiver_send (snd (spec_version_of env n s)) = archiver_send s"
  "comparer_send (snd (spec_version_of env n s)) = comparer_send s"
  by (simp_all add: spec_version_of_def split: prod.splits)

lemma spec_version_of_no_err: "fst (spec_version_of env n s) \<noteq> Err e"
  by (auto simp: spec_version_of_def split: prod.splits result.splits option.splits)

lemma execute_no_err: "execute_block_and_into_storage_changes env n \<noteq> Err e"
  by (cases rule: core.get_block_cases [of "xe_backend env" n])
     (auto simp: execute_block_and_into_storage_changes_def Let_def split: result.splits)

text \<open>How an archive request can end: it sends a message and the number, or (for block 0 without
  storage) the number only, or it panics and sends nothing.\<close>

lemma executor_archive_cases:
  obtains (message) sc signed_block spec v c where
      "execute_block_and_into_storage_changes env n = Ok (Some (sc, signed_block))"
      "get_by_id (xe_version env) (Number n) (version_cache s) = (Ok (Some v), c)" "spec = spec_version v"
      "executor_archive env n s = (Ok (), s\<lparr>version_cache := c,
         archiver_send := archiver_send s @ [(block_model env spec n sc signed_block, block_payload env spec n sc signed_block)],
         comparer_send := comparer_send s @ [n]\<rparr>)"
  | (genesis) "n = 0" "executor_archive env n s = (Ok (), s\<lparr>comparer_send := comparer_send s @ [n]\<rparr>)"
  | (died) w s' where "executor_archive env n s = (Panic w, s')"
      "archiver_send s' = archiver_send s" "comparer_send s' = comparer_send s"
proof (cases "execute_block_and_into_storage_changes env n")
  case (Ok found)
  show ?thesis
  proof (cases found)
    case None
    with Ok show ?thesis
      by (cases "n = 0") (auto simp: executor_archive_def send_comparer_def intro: genesis died)
  next
    case (Some p)
    obtain sc signed_block where p: "p = (sc, signed_block)" by (cases p)
    obtain r s1 where sv: "spec_version_of env n s = (r, s1)" by (cases "spec_version_of env n s")
    show ?thesis
    proof (cases r)
      case (Ok spec)
      with sv obtain v c where "get_by_id (xe_version env) (Number n) (version_cache s) = (Ok (Some v), c)"
        "spec = spec_version v" "s1 = s\<lparr>version_cache := c\<rparr>"
        using spec_version_of_ok by blast
      with sv Ok p Some \<open>execute_block_and_into_storage_changes env n = Ok found\<close> show ?thesis
        by (intro message [of sc signed_block v c spec])
           (simp_all add: executor_archive_def pbind_def send_archiver_def send_comparer_def)
    next
      case (Err e)
      then show ?thesis using spec_version_of_no_err [of env n s e] sv by simp
    next
      case (Panic w)
      with sv p Some Ok spec_version_of_queues [of env n s] show ?thesis
        by (intro died [of w s1]) (simp_all add: executor_archive_def pbind_def)
    qed
  qed
next
  case (Err e)
  then show ?thesis using execute_no_err by blast
next
  case (Panic w)
  then show ?thesis by (intro died [of w s]) (simp_all add: executor_archive_def pbind_def)
qed

lemma execute_SomeD:
  assumes "execute_block_and_into_storage_changes env n = Ok (Some (sc, signed_block))"
  shows "backend_block (xe_backend env) n = Some (block signed_block)"
    "\<exists>st. be_state_at (xe_backend env) (Hash (parent_hash (header (block signed_block)))) = Ok st \<and>
       xe_into_storage_changes env
         (xe_execute_block env (Hash (parent_hash (header (block signed_block)))) (unsealed (block signed_block)))
         st (parent_hash (header (block signed_block))) = Ok sc"
  using assms
  by (cases rule: core.get_block_cases [of "xe_backend env" n],
      auto simp: execute_block_and_into_storage_changes_def core_get_state_def Let_def
        split: result.splits)+

section \<open>Properties\<close>

text \<open>An archive request that returns has sent the block's number to the comparer exactly once,
  and before that at most one message to the archiver, which carries that number; only block 0 may be
  passed on without a message. A request that does not return (it panicked) has sent nothing. It never
  returns an error.\<close>

lemma executor_sends_once:
  "case executor_archive env n s of
     (Ok _, s') \<Rightarrow> comparer_send s' = comparer_send s @ [n] \<and>
       (archiver_send s' = archiver_send s \<and> n = 0 \<or>
        (\<exists>m p. archiver_send s' = archiver_send s @ [(m, p)] \<and> bm_block_num m = n))
   | (Err _, s') \<Rightarrow> False
   | (Panic _, s') \<Rightarrow> comparer_send s' = comparer_send s \<and> archiver_send s' = archiver_send s"
  by (cases rule: executor_archive_cases [of env n s]) (auto simp: block_model_def Let_def)

text \<open>C10: what a message for a block other than genesis contains was computed from the chain: the
  block is the one the backend has under the number, the storage changes are those of executing it
  without its last digest item on the state of its parent (a later change of a key overrides an
  earlier one), the archived digest is the unmodified one, and the version is the one a direct read of
  the block's code gives.\<close>

theorem archived_block_is_executed:
  assumes "executor_archive env n s = (Ok (), s')" and "n \<noteq> 0"
    and "cache_inv (xe_version env) (version_cache s)" and "collision_free (xe_version env)"
  shows "\<exists>m p b st sc v. archiver_send s' = archiver_send s @ [(m, p)] \<and>
    backend_block (xe_backend env) n = Some b \<and>
    be_state_at (xe_backend env) (Hash (parent_hash (header b))) = Ok st \<and>
    xe_into_storage_changes env
      (xe_execute_block env (Hash (parent_hash (header b))) (unsealed b)) st (parent_hash (header b)) = Ok sc \<and>
    direct_version (xe_version env) (Number n) = Ok (Some v) \<and>
    bp_spec_version p = spec_version v \<and>
    bp_main_changes p = map_of (rev (main_storage_changes sc)) \<and>
    bp_digest p = digest (header b) \<and> bp_extrinsics p = extrinsics b \<and>
    bp_block_hash p = xe_header_hash env (header b)"
proof (cases rule: executor_archive_cases [of env n s])
  case (message sc signed_block spec v c)
  have "direct_version (xe_version env) (Number n) = Ok (Some v)"
    using cache.get_direct [of "xe_version env" "version_cache s" "Number n"] assms(3,4) message(2) by simp
  with message assms(1,2) execute_SomeD [OF message(1)] show ?thesis
    by (auto simp: block_payload_def Let_def storages_map_def)
next
  case (died w s')
  then show ?thesis using assms(1) by simp
qed (use assms in simp)

text \<open>The row for Postgres and the payload for Kafka in one message describe the same block: same
  version, same hashes (as bytes), same encoded extrinsics and digest, the JSON of the same changes,
  and, when the backend's header under a number carries that number, the same block number.\<close>

lemma message_agrees:
  assumes "executor_archive env n s = (Ok (), s')"
    and "archiver_send s' = archiver_send s @ [(m, p)]"
    and "\<And>b. backend_block (xe_backend env) n = Some b \<Longrightarrow> number (header b) = n"
  shows "bm_spec_version m = bp_spec_version p \<and> bm_block_num m = bp_block_num p \<and>
    bm_block_hash m = hash_bytes (bp_block_hash p) \<and> bm_parent_hash m = hash_bytes (bp_parent_hash p) \<and>
    bm_state_root m = hash_bytes (bp_state_root p) \<and>
    bm_extrinsics_root m = hash_bytes (bp_extrinsics_root p) \<and>
    bm_digest m = xe_encode_digest env (bp_digest p) \<and>
    bm_extrinsics m = map (xe_encode_extrinsic env) (bp_extrinsics p) \<and>
    bm_main_changes m = xe_json env (bp_main_changes p)"
proof (cases rule: executor_archive_cases [of env n s])
  case (message sc signed_block spec v c)
  with assms execute_SomeD(1) [OF message(1)] show ?thesis
    by (auto simp: block_model_def block_payload_def Let_def)
qed (use assms in auto)

section \<open>A concrete chain\<close>

definition demo_header :: "u32 \<Rightarrow> Header" where
  "demo_header n = \<lparr>parent_hash = 1, number = n, state_root = 2, extrinsics_root = 3, digest = [[1], [2]]\<rparr>"

definition demo_backend :: "unit chain_backend" where
  "demo_backend = \<lparr>bc_header = (\<lambda>b. case b of Number n \<Rightarrow> Ok (Some (demo_header n)) | Hash _ \<Rightarrow> Ok None),
     bc_body = (\<lambda>_. Ok (Some [[7]])), bc_justifications = (\<lambda>_. Ok None), be_state_at = (\<lambda>_. Ok ())\<rparr>"

definition demo_changes :: StorageChanges where
  "demo_changes = \<lparr>main_storage_changes = [([1], Some [2]), ([1], None)], transaction_storage_root = 0\<rparr>"

definition demo_exec_env :: "(unit, Block) exec_env" where
  "demo_exec_env = \<lparr>xe_backend = demo_backend, xe_version = demo_version_env,
     xe_execute_block = (\<lambda>_ b. b), xe_into_storage_changes = (\<lambda>_ _ _. Ok demo_changes),
     xe_header_hash = (\<lambda>h. ucast (number h)), xe_encode_extrinsic = (\<lambda>e. e),
     xe_encode_justification = snd, xe_encode_digest = concat,
     xe_json = (\<lambda>_. JsonText ''changes''), xe_genesis_top = []\<rparr>"

definition demo_executor :: executor where
  "demo_executor = executor_new version_cache_new"

lemma demo_backend_block:
  "backend_block demo_backend n = Some \<lparr>header = demo_header n, extrinsics = [[7]]\<rparr>"
  by (simp add: backend_block_def demo_backend_def)

lemma demo_execute:
  "execute_block_and_into_storage_changes demo_exec_env n =
   Ok (Some (demo_changes, \<lparr>block = \<lparr>header = demo_header n, extrinsics = [[7]]\<rparr>, justifications = None\<rparr>))"
  by (simp add: execute_block_and_into_storage_changes_def core_get_block_def core_get_state_def
      demo_exec_env_def demo_backend_def)

lemma demo_direct_version: "direct_version demo_version_env bid = Ok (Some (demo_version 265))"
  by (simp add: direct_version_def demo_version_code blob_version_def)
     (simp add: demo_version_env_def decode_version_def)

lemma demo_get_by_id:
  assumes "cache_inv demo_version_env c"
  shows "\<exists>c'. get_by_id demo_version_env bid c = (Ok (Some (demo_version 265)), c') \<and> cache_inv demo_version_env c'"
  using get_by_id_direct [OF assms demo_version_collision_free, of bid] cache_inv_get [OF assms, of bid]
  by (cases "get_by_id demo_version_env bid c") (simp add: demo_direct_version)

definition demo_message :: "u32 \<Rightarrow> ArchiveSendMsg" where
  "demo_message n =
     (let sb = \<lparr>block = \<lparr>header = demo_header n, extrinsics = [[7]]\<rparr>, justifications = None\<rparr>
      in (block_model demo_exec_env 265 n demo_changes sb, block_payload demo_exec_env 265 n demo_changes sb))"

text \<open>On this chain every request succeeds.\<close>

lemma demo_archive:
  assumes "cache_inv demo_version_env (version_cache s)"
  shows "\<exists>c. cache_inv demo_version_env c \<and>
    executor_archive demo_exec_env n s = (Ok (), s\<lparr>version_cache := c,
      archiver_send := archiver_send s @ [demo_message n], comparer_send := comparer_send s @ [n]\<rparr>)"
proof -
  obtain c where c: "get_by_id demo_version_env (Number n) (version_cache s) = (Ok (Some (demo_version 265)), c)"
    "cache_inv demo_version_env c" using demo_get_by_id [OF assms] by blast
  have "xe_version demo_exec_env = demo_version_env" by (simp add: demo_exec_env_def)
  with c show ?thesis
    by (intro exI [of _ c])
       (simp add: executor_archive_def pbind_def demo_execute spec_version_of_def send_archiver_def
         send_comparer_def demo_message_def demo_version_def Let_def)
qed

theorem archived_block_is_executed_witness:
  "\<exists>s' m p. executor_archive demo_exec_env 3 demo_executor = (Ok (), s') \<and>
     archiver_send s' = [(m, p)] \<and> bp_main_changes p = [[1] \<mapsto> None] \<and> bp_digest p = [[1], [2]]"
proof -
  have inv: "cache_inv (xe_version demo_exec_env) (version_cache demo_executor)"
    and free: "collision_free (xe_version demo_exec_env)"
    by (simp_all add: demo_exec_env_def demo_executor_def cache_inv_new demo_version_collision_free)
  obtain s' where run: "executor_archive demo_exec_env 3 demo_executor = (Ok (), s')"
    using demo_archive [of demo_executor 3] by (auto simp: demo_executor_def cache_inv_new)
  have "(3::u32) \<noteq> 0" by simp
  from archived_block_is_executed [OF run this inv free] obtain m p b sc where
    "archiver_send s' = archiver_send demo_executor @ [(m, p)]"
    "backend_block (xe_backend demo_exec_env) 3 = Some b" "bp_digest p = digest (header b)"
    "bp_main_changes p = map_of (rev (main_storage_changes sc))" "demo_changes = sc"
    by (auto simp: demo_exec_env_def)
  with run show ?thesis
    by (auto simp: demo_exec_env_def demo_backend_block demo_header_def demo_executor_def demo_changes_def)
qed

end
