(* ===== verification/Archive_Notifier.thy ===== *)
theory Archive_Notifier
  imports Block_Executor
begin

text \<open>
  The three tasks of \<open>archive/notifier\<close>: the notifier, which writes a message to Postgres and Kafka;
  the initializer, which sends the first block number; and the comparer, which decides the next one.
\<close>

section \<open>The notifier\<close>

text \<open>The metadata of the runtime at a block comes from the runtime API of the client.\<close>

record notify_env =
  ne_pg :: pg_env
  ne_kafka :: kafka_env
  ne_config :: KafkaConfig
  ne_metadata :: "BlockId \<Rightarrow> (string, bytes) result"

record archive_world =
  db :: pg
  producer :: kafka

abbreviation on_db :: "(pg, 'e, 'a) prog \<Rightarrow> (archive_world, 'e, 'a) prog" where
  "on_db \<equiv> zoom db (\<lambda>d w. w\<lparr>db := d\<rparr>)"

abbreviation on_producer :: "(kafka, 'e, 'a) prog \<Rightarrow> (archive_world, 'e, 'a) prog" where
  "on_producer \<equiv> zoom producer (\<lambda>k w. w\<lparr>producer := k\<rparr>)"

definition metadata_model :: "u32 \<Rightarrow> u32 \<Rightarrow> H256 \<Rightarrow> bytes \<Rightarrow> MetadataModel" where
  "metadata_model spec n h meta =
     \<lparr>mm_spec_version = spec, mm_block_num = n, mm_block_hash = hash_bytes h, mm_meta = meta\<rparr>"

definition metadata_payload :: "u32 \<Rightarrow> BlockNumber \<Rightarrow> H256 \<Rightarrow> bytes \<Rightarrow> MetadataPayload" where
  "metadata_payload spec n h meta =
     \<lparr>mp_spec_version = spec, mp_block_num = n, mp_block_hash = h, mp_meta = meta\<rparr>"

text \<open>The first half of \<open>Notifier::archive\<close>: metadata of a version not seen before.\<close>

definition save_metadata ::
  "notify_env \<Rightarrow> BlockModel \<Rightarrow> BlockPayload \<Rightarrow> (archive_world, blockchain_error, unit) prog" where
  "save_metadata env m p =
     pbind (return_prog (unwrap_result ''get metadata error''
              (ne_metadata env (Number (bm_block_num m))))) (\<lambda>meta.
     pbind (map_err_prog (\<lambda>_. Storage ''db'') (on_db (db_insert (ne_pg env)
              (Metadata_row (metadata_model (bm_spec_version m) (bm_block_num m) (bp_block_hash p) meta))))) (\<lambda>_.
     map_err_prog (\<lambda>_. Storage ''kafka'') (on_producer (send_payload (ne_kafka env) (ne_config env)
              (Metadata_payload (metadata_payload (bm_spec_version m) (bp_block_num p) (bp_block_hash p) meta))))))"

definition notifier_archive ::
  "notify_env \<Rightarrow> BlockModel \<Rightarrow> BlockPayload \<Rightarrow> (archive_world, blockchain_error, unit) prog" where
  "notifier_archive env m p =
     pbind (map_err_prog (\<lambda>_. Backend ''db'')
              (on_db (check_if_metadata_exists (ne_pg env) (bm_spec_version m)))) (\<lambda>exist.
     pbind (if \<not> exist then save_metadata env m p else ret ()) (\<lambda>_.
     pbind (map_err_prog (\<lambda>_. Storage ''db'') (on_db (db_insert (ne_pg env) (Block_row m)))) (\<lambda>_.
     map_err_prog (\<lambda>_. Storage ''kafka'')
       (on_producer (send_payload (ne_kafka env) (ne_config env) (Block_payload p))))))"

definition notifier_new ::
  "kafka_env \<Rightarrow> (SqlxError, unit) result \<Rightarrow> KafkaConfig \<Rightarrow> (blockchain_error, KafkaConfig) result" where
  "notifier_new kenv connect c =
     and_then (map_err (\<lambda>_. Storage ''kafka'') (producer_new kenv c)) (\<lambda>c'.
     and_then (map_err (\<lambda>_. Storage ''db'') connect) (\<lambda>_. Ok c'))"

section \<open>The initializer\<close>

text \<open>The number sent to the executor when the task starts.\<close>

definition initializer_run :: "pg_env \<Rightarrow> (pg, blockchain_error, u32) prog" where
  "initializer_run env s =
     (case max_block_num env s of
        (Ok m, s') \<Rightarrow> (Ok (case m of Some k \<Rightarrow> k | None \<Rightarrow> 0), s')
      | (Err _, s') \<Rightarrow> (Panic ''get block number from db error'', s')
      | (Panic w, s') \<Rightarrow> (Panic w, s'))"

section \<open>The comparer\<close>

text \<open>
  The next number for the executor: the successor while the backend is ahead, otherwise, after a
  delay of three seconds, the same number again.
\<close>

definition compare :: "u32 \<Rightarrow> u32 \<Rightarrow> u32" where
  "compare best_num block_number = (if block_number < best_num then block_number + 1 else block_number)"

section \<open>What an archived message looks like\<close>

definition message_stored :: "notify_env \<Rightarrow> BlockModel \<Rightarrow> BlockPayload \<Rightarrow> archive_world \<Rightarrow> bool" where
  "message_stored env m p w \<longleftrightarrow>
     block_rows (db w) (bm_block_num m) = Some m \<and>
     metadata_rows (db w) (bm_spec_version m) \<noteq> None \<and>
     (\<exists>r. payload_record (ne_kafka env) (ne_config env) (Block_payload p) = Some r \<and>
        r \<in> set (delivered (producer w)))"

section \<open>Lemmas\<close>

lemma map_err_prog_Ok: "map_err_prog f m s = (Ok x, s') \<longleftrightarrow> m s = (Ok x, s')"
  by (auto simp: map_err_prog_def split: prod.splits)

lemma on_db_Ok: "on_db m w = (Ok x, w') \<longleftrightarrow> (\<exists>d. m (db w) = (Ok x, d) \<and> w' = w\<lparr>db := d\<rparr>)"
  by (auto simp: zoom_def split: prod.splits)

lemma on_producer_Ok: "on_producer m w = (Ok x, w') \<longleftrightarrow> (\<exists>k. m (producer w) = (Ok x, k) \<and> w' = w\<lparr>producer := k\<rparr>)"
  by (auto simp: zoom_def split: prod.splits)

lemmas world_Ok = pbind_eq_Ok map_err_prog_Ok on_db_Ok on_producer_Ok

lemma compare_unat: "n < best \<Longrightarrow> unat (compare best n) = unat n + 1"
proof -
  assume lt: "n < best"
  then have "unat n < unat best" by (simp add: word_less_nat_alt)
  moreover have "unat best < 4294967296" using unsigned_less [of best] by simp
  ultimately show ?thesis using lt by (simp add: compare_def unat_word_ariths)
qed

text \<open>An acknowledged first half has written the metadata row and sent the metadata record.\<close>

lemma save_metadata_ok:
  assumes "save_metadata env m p w = (Ok (), w')"
  shows "metadata_rows (db w') (bm_spec_version m) \<noteq> None \<and> block_rows (db w') = block_rows (db w) \<and>
    (\<exists>r. delivered (producer w') = delivered (producer w) @ [r] \<and>
       fr_topic r = topic_metadata (topic (ne_config env)))"
proof -
  from assms obtain meta d n k where
    d: "db_insert (ne_pg env) (Metadata_row (metadata_model (bm_spec_version m) (bm_block_num m) (bp_block_hash p) meta))
          (db w) = (Ok n, d)"
    and k: "send_payload (ne_kafka env) (ne_config env)
          (Metadata_payload (metadata_payload (bm_spec_version m) (bp_block_num p) (bp_block_hash p) meta))
          (producer w) = (Ok (), k)"
    and w': "w' = w\<lparr>db := d, producer := k\<rparr>"
    unfolding save_metadata_def world_Ok by auto
  from db.insert_meta_ok [OF d] kafka.send_ok [OF k] w' show ?thesis
    by (auto simp: metadata_model_def payload_record_def)
qed

text \<open>The stages of an acknowledged run.\<close>

lemma notifier_archive_okD:
  assumes "notifier_archive env m p w = (Ok (), w')"
  obtains x d w1 n d2 k where
    "check_if_metadata_exists (ne_pg env) (bm_spec_version m) (db w) = (Ok x, d)"
    "if x then w1 = w\<lparr>db := d\<rparr> else save_metadata env m p (w\<lparr>db := d\<rparr>) = (Ok (), w1)"
    "db_insert (ne_pg env) (Block_row m) (db w1) = (Ok n, d2)"
    "send_payload (ne_kafka env) (ne_config env) (Block_payload p) (producer w1) = (Ok (), k)"
    "w' = w1\<lparr>db := d2, producer := k\<rparr>"
  using assms unfolding notifier_archive_def world_Ok by (auto split: if_splits)

lemma notifier_archive_ok:
  assumes run: "notifier_archive env m p w = (Ok (), w')"
  shows "block_rows (db w') = (block_rows (db w))(bm_block_num m \<mapsto> m)"
    and "\<exists>rs r. delivered (producer w') = delivered (producer w) @ rs @ [r] \<and>
      payload_record (ne_kafka env) (ne_config env) (Block_payload p) = Some r \<and>
      (if metadata_rows (db w) (bm_spec_version m) \<noteq> None then rs = []
       else \<exists>q. rs = [q] \<and> fr_topic q = topic_metadata (topic (ne_config env)))"
    and "metadata_rows (db w') (bm_spec_version m) \<noteq> None"
    and "metadata_rows (db w) (bm_spec_version m) \<noteq> None \<Longrightarrow> metadata_rows (db w') = metadata_rows (db w)"
proof -
  from run obtain x d w1 n d2 k where
    x: "check_if_metadata_exists (ne_pg env) (bm_spec_version m) (db w) = (Ok x, d)"
    and w1: "if x then w1 = w\<lparr>db := d\<rparr> else save_metadata env m p (w\<lparr>db := d\<rparr>) = (Ok (), w1)"
    and ins: "db_insert (ne_pg env) (Block_row m) (db w1) = (Ok n, d2)"
    and snt: "send_payload (ne_kafka env) (ne_config env) (Block_payload p) (producer w1) = (Ok (), k)"
    and w': "w' = w1\<lparr>db := d2, producer := k\<rparr>"
    by (rule notifier_archive_okD)
  note ex = db.meta_exists_ok [OF x]
  have stage: "block_rows (db w1) = block_rows (db w) \<and> metadata_rows (db w1) (bm_spec_version m) \<noteq> None \<and>
      (x \<longrightarrow> metadata_rows (db w1) = metadata_rows (db w) \<and> producer w1 = producer w) \<and>
      (\<not> x \<longrightarrow> (\<exists>q. delivered (producer w1) = delivered (producer w) @ [q] \<and>
         fr_topic q = topic_metadata (topic (ne_config env))))"
    using w1 ex save_metadata_ok [of env m p "w\<lparr>db := d\<rparr>" w1] by (cases x) auto
  note bl = db.insert_block_ok [OF ins]
  show "block_rows (db w') = (block_rows (db w))(bm_block_num m \<mapsto> m)"
    and "metadata_rows (db w') (bm_spec_version m) \<noteq> None"
    and "metadata_rows (db w) (bm_spec_version m) \<noteq> None \<Longrightarrow> metadata_rows (db w') = metadata_rows (db w)"
    using bl stage w' ex by auto
  show "\<exists>rs r. delivered (producer w') = delivered (producer w) @ rs @ [r] \<and>
      payload_record (ne_kafka env) (ne_config env) (Block_payload p) = Some r \<and>
      (if metadata_rows (db w) (bm_spec_version m) \<noteq> None then rs = []
       else \<exists>q. rs = [q] \<and> fr_topic q = topic_metadata (topic (ne_config env)))"
    using kafka.send_ok [OF snt] stage w' ex by (cases x) auto
qed

text \<open>Rows that a call leaves alone in every outcome.\<close>

lemma exists_keeps_rows:
  "metadata_rows (snd (check_if_metadata_exists e v d)) = metadata_rows d"
  "block_rows (snd (check_if_metadata_exists e v d)) = block_rows d"
proof -
  have "tables (snd (check_if_metadata_exists e v d)) = tables d"
    unfolding check_if_metadata_exists_def
    by (rule call_frame [where f = "\<lambda>t. t"]) (simp add: metadata_exists_stmt_def)
  then show "metadata_rows (snd (check_if_metadata_exists e v d)) = metadata_rows d"
    "block_rows (snd (check_if_metadata_exists e v d)) = block_rows d"
    by (simp_all add: metadata_rows_def block_rows_def)
qed

lemma insert_block_keeps_metadata:
  "metadata_rows (snd (db_insert e (Block_row m) d)) = metadata_rows d"
proof -
  have "metadatas (tables (snd (db_insert e (Block_row m) d))) = metadatas (tables d)"
    unfolding db_insert_def
    by (rule call_frame) (auto simp: gen_query_block_def split: if_splits)
  then show ?thesis by (simp add: metadata_rows_def)
qed

lemma pbind_cases:
  obtains (goes) x s1 where "m s = (Ok x, s1)" "pbind m f s = f x s1"
  | (stops) "snd (pbind m f s) = snd (m s)" "\<not> is_ok (fst (m s))"
  by (cases "m s"; cases "fst (m s)") (auto simp: pbind_def)

text \<open>Records that their rows back.\<close>

definition metadata_backed :: "notify_env \<Rightarrow> BlockModel \<Rightarrow> archive_world \<Rightarrow> FutureRecord \<Rightarrow> bool" where
  "metadata_backed env m w r \<longleftrightarrow>
     (\<exists>q. payload_record (ne_kafka env) (ne_config env) (Metadata_payload q) = Some r \<and>
        mp_spec_version q = bm_spec_version m) \<and> metadata_rows (db w) (bm_spec_version m) \<noteq> None"

definition block_backed :: "notify_env \<Rightarrow> BlockModel \<Rightarrow> BlockPayload \<Rightarrow> archive_world \<Rightarrow> FutureRecord \<Rightarrow> bool" where
  "block_backed env m p w r \<longleftrightarrow> payload_record (ne_kafka env) (ne_config env) (Block_payload p) = Some r \<and>
     block_rows (db w) (bm_block_num m) = Some m"

lemma metadata_backed_mono:
  "metadata_backed env m w r \<Longrightarrow> metadata_rows (db w') = metadata_rows (db w) \<Longrightarrow> metadata_backed env m w' r"
  by (simp add: metadata_backed_def)

lemma save_metadata_records:
  "\<exists>rs. delivered (producer (snd (save_metadata env m p w))) = delivered (producer w) @ rs \<and>
    (\<forall>r\<in>set rs. metadata_backed env m (snd (save_metadata env m p w)) r)"
proof -
  let ?meta = "ne_metadata env (Number (bm_block_num m))"
  let ?ins = "\<lambda>b. map_err_prog (\<lambda>_. Storage ''db'') (on_db (db_insert (ne_pg env)
    (Metadata_row (metadata_model (bm_spec_version m) (bm_block_num m) (bp_block_hash p) b))))"
  let ?pay = "\<lambda>b. Metadata_payload (metadata_payload (bm_spec_version m) (bp_block_num p) (bp_block_hash p) b)"
  let ?snd = "\<lambda>b. map_err_prog (\<lambda>_. Storage ''kafka'')
    (on_producer (send_payload (ne_kafka env) (ne_config env) (?pay b)))"
  show ?thesis
  proof (cases ?meta)
    case (Ok b)
    then have eq: "save_metadata env m p w = pbind (?ins b) (\<lambda>_. ?snd b) w"
      by (simp add: save_metadata_def)
    show ?thesis
    proof (cases rule: pbind_cases [of "?ins b" w "\<lambda>_. ?snd b"])
      case (goes n w1)
      then obtain d where d: "db_insert (ne_pg env) (Metadata_row (metadata_model (bm_spec_version m)
          (bm_block_num m) (bp_block_hash p) b)) (db w) = (Ok n, d)" and w1: "w1 = w\<lparr>db := d\<rparr>"
        unfolding world_Ok by auto
      from kafka.send_any [of "ne_kafka env" "ne_config env" "?pay b" "producer w"]
        db.insert_meta_ok [OF d] eq goes(2) w1 show ?thesis
        by (auto simp: metadata_model_def metadata_backed_def)
           (metis MetadataPayload.select_convs(1) metadata_payload_def)
    next
      case stops
      then show ?thesis using eq by simp
    qed
  qed (simp_all add: save_metadata_def pbind_def)
qed

text \<open>Writing to the database keeps the schema whatever happens.\<close>

lemma preserves_on_db:
  "preserves (\<lambda>d. schema_inv (tables d)) m \<Longrightarrow> preserves (\<lambda>w. schema_inv (tables (db w))) (on_db m)"
  by (rule preserves_zoom [where J = "\<lambda>d. schema_inv (tables d)"]) simp_all

lemma preserves_on_producer: "preserves (\<lambda>w. schema_inv (tables (db w))) (on_producer m)"
  by (rule preserves_zoom [where J = "\<lambda>_. True"]) (simp_all add: preserves_def)

lemma notifier_archive_schema: "preserves (\<lambda>w. schema_inv (tables (db w))) (notifier_archive env m p)"
  unfolding notifier_archive_def save_metadata_def
  by (intro prog_pres preserves_on_db preserves_on_producer schema_calls)
     (auto intro!: prog_pres preserves_on_db preserves_on_producer schema_calls)

text \<open>What a run of the notifier adds to the Kafka log: metadata records whose row is written, then
  the record of the block if its row is written, or nothing.\<close>

lemma notifier_records:
  "\<exists>ms bs. delivered (producer (snd (notifier_archive env m p w))) = delivered (producer w) @ ms @ bs \<and>
    (\<forall>r\<in>set ms. metadata_backed env m (snd (notifier_archive env m p w)) r) \<and>
    (bs = [] \<or> (\<exists>r. bs = [r] \<and> block_backed env m p (snd (notifier_archive env m p w)) r))"
proof -
  let ?ex = "map_err_prog (\<lambda>_. Backend ''db'') (on_db (check_if_metadata_exists (ne_pg env) (bm_spec_version m)))"
  let ?md = "\<lambda>x. if \<not> x then save_metadata env m p else ret ()"
  let ?ins = "map_err_prog (\<lambda>_. Storage ''db'') (on_db (db_insert (ne_pg env) (Block_row m)))"
  let ?out = "map_err_prog (\<lambda>_. Storage ''kafka'')
    (on_producer (send_payload (ne_kafka env) (ne_config env) (Block_payload p)))"
  have eq: "notifier_archive env m p = pbind ?ex (\<lambda>x. pbind (?md x) (\<lambda>_. pbind ?ins (\<lambda>_. ?out)))"
    by (simp add: notifier_archive_def)
  show ?thesis
  proof (cases rule: pbind_cases [of ?ex w "\<lambda>x. pbind (?md x) (\<lambda>_. pbind ?ins (\<lambda>_. ?out))"])
    case (goes x w1)
    have w1: "producer w1 = producer w" using goes(1) unfolding world_Ok by auto
    obtain rs where rs: "delivered (producer (snd (?md x w1))) = delivered (producer w) @ rs"
      "\<forall>r\<in>set rs. metadata_backed env m (snd (?md x w1)) r"
      using save_metadata_records [of env m p w1] w1 by (cases x) auto
    show ?thesis
    proof (cases rule: pbind_cases [of "?md x" w1 "\<lambda>_. pbind ?ins (\<lambda>_. ?out)"])
      case md: (goes u w2)
      have keep: "metadata_rows (db (snd (?ins w2))) = metadata_rows (db w2)"
        by (simp add: insert_block_keeps_metadata)
      show ?thesis
      proof (cases rule: pbind_cases [of ?ins w2 "\<lambda>_. ?out"])
        case ins: (goes n w3)
        then obtain d where d: "db_insert (ne_pg env) (Block_row m) (db w2) = (Ok n, d)" "w3 = w2\<lparr>db := d\<rparr>"
          unfolding world_Ok by auto
        have w3: "db (snd (?out w3)) = d" "producer w3 = producer w2"
          using d(2) by (simp_all add: map_err_prog_def zoom_def split: prod.splits)
        then have rows: "metadata_rows (db (snd (?out w3))) = metadata_rows (db w2)"
          "block_rows (db (snd (?out w3))) (bm_block_num m) = Some m"
          using db.insert_block_ok [OF d(1)] by simp_all
        have run: "notifier_archive env m p w = ?out w3" using eq goes(2) md(2) ins(2) by simp
        have "\<forall>r\<in>set rs. metadata_backed env m (snd (?out w3)) r"
          using rs(2) md(1) rows(1) by (auto intro: metadata_backed_mono)
        moreover have "\<exists>bs. delivered (producer (snd (?out w3))) = delivered (producer w) @ rs @ bs \<and>
            (bs = [] \<or> (\<exists>r. bs = [r] \<and> block_backed env m p (snd (?out w3)) r))"
          using kafka.send_any [of "ne_kafka env" "ne_config env" "Block_payload p" "producer w3"] rs(1) md(1) w3(2) rows(2)
          by (auto simp: block_backed_def)
        ultimately show ?thesis unfolding run by blast
      next
        case stops
        have run: "notifier_archive env m p w = pbind ?ins (\<lambda>_. ?out) w2" using eq goes(2) md(2) by simp
        have "\<forall>r\<in>set rs. metadata_backed env m (snd (notifier_archive env m p w)) r"
          using rs(2) md(1) stops(1) keep run by (auto intro: metadata_backed_mono)
        moreover have "delivered (producer (snd (notifier_archive env m p w))) = delivered (producer w) @ rs"
          using rs(1) md(1) stops(1) run by (simp add: map_err_prog_def zoom_def split: prod.splits)
        ultimately show ?thesis by (intro exI [of _ rs] exI [of _ "[]"]) simp
      qed
    next
      case stops
      with rs goes eq show ?thesis by (intro exI [of _ rs] exI [of _ "[]"]) simp
    qed
  next
    case stops
    then show ?thesis using eq by simp
  qed
qed

section \<open>Runs without faults\<close>

lemma check_exists_total:
  assumes "pool_faults e = no_faults" "stmt_faults e = no_faults"
  shows "\<exists>d'. check_if_metadata_exists e v d = (Ok (metadata_rows d v \<noteq> None), d')"
  by (simp add: check_if_metadata_exists_def call_no_faults [OF assms] metadata_exists_stmt_def
      metadata_rows_def rows_by_mem)

lemma insert_metadata_total:
  assumes "pool_faults e = no_faults" "stmt_faults e = no_faults" and "0 \<le> sint (mm_spec_version m)"
  shows "\<exists>d'. db_insert e (Metadata_row m) d = (Ok 1, d')"
  using assms(3) by (simp add: db_insert_def call_no_faults [OF assms(1,2)] gen_query_metadata_def)

lemma insert_block_total:
  assumes "pool_faults e = no_faults" "stmt_faults e = no_faults"
    and "bm_block_num m < 10000000" and "metadata_rows d (bm_spec_version m) \<noteq> None"
  shows "\<exists>d'. db_insert e (Block_row m) d = (Ok 1, d')"
proof -
  have "partition_of (bm_block_num m) \<noteq> None" "in_check_range (bm_block_num m)"
    using assms(3) partition_of_None [of "bm_block_num m"] partition_in_check_range by auto
  then show ?thesis
    using assms(4)
    by (auto simp: db_insert_def call_no_faults [OF assms(1,2)] gen_query_block_def metadata_rows_def rows_by_mem)
qed

lemma send_total:
  assumes "delivery_faults e = no_faults" and "serialize e p \<noteq> None"
  shows "\<exists>k'. send_payload e c p k = (Ok (), k')"
  using assms by (auto simp: send_payload_scheme send_inner_def split: option.splits)

text \<open>Services that answer every call.\<close>

definition reliable :: "notify_env \<Rightarrow> bool" where
  "reliable env \<longleftrightarrow> pool_faults (ne_pg env) = no_faults \<and> stmt_faults (ne_pg env) = no_faults \<and>
     delivery_faults (ne_kafka env) = no_faults \<and> (\<forall>p. serialize (ne_kafka env) p \<noteq> None) \<and>
     (\<forall>b. is_ok (ne_metadata env b))"

lemma is_okE: assumes "is_ok r" obtains x where "r = Ok x"
  using assms by (cases r) auto

lemma save_metadata_total:
  assumes rel: "reliable env" and ver: "0 \<le> sint (bm_spec_version m)"
  shows "\<exists>w'. save_metadata env m p w = (Ok (), w')"
proof -
  from rel have pg: "pool_faults (ne_pg env) = no_faults" "stmt_faults (ne_pg env) = no_faults"
    and kf: "delivery_faults (ne_kafka env) = no_faults" "\<And>p. serialize (ne_kafka env) p \<noteq> None"
    by (simp_all add: reliable_def)
  from rel obtain meta where meta: "ne_metadata env (Number (bm_block_num m)) = Ok meta"
    unfolding reliable_def by (meson is_okE)
  let ?row = "metadata_model (bm_spec_version m) (bm_block_num m) (bp_block_hash p) meta"
  obtain d where d: "db_insert (ne_pg env) (Metadata_row ?row) (db w) = (Ok 1, d)"
    using insert_metadata_total [OF pg, of ?row "db w"] ver by (auto simp: metadata_model_def)
  let ?pay = "Metadata_payload (metadata_payload (bm_spec_version m) (bp_block_num p) (bp_block_hash p) meta)"
  obtain k where k: "send_payload (ne_kafka env) (ne_config env) ?pay (producer w) = (Ok (), k)"
    using send_total [OF kf] by blast
  have "save_metadata env m p w = (Ok (), w\<lparr>db := d, producer := k\<rparr>)"
    unfolding save_metadata_def world_Ok using meta d k by auto
  then show ?thesis ..
qed

lemma notifier_archive_total:
  assumes rel: "reliable env" and num: "bm_block_num m < 10000000" and ver: "0 \<le> sint (bm_spec_version m)"
  shows "\<exists>w'. notifier_archive env m p w = (Ok (), w')"
proof -
  from rel have pg: "pool_faults (ne_pg env) = no_faults" "stmt_faults (ne_pg env) = no_faults"
    and kf: "delivery_faults (ne_kafka env) = no_faults" "\<And>p. serialize (ne_kafka env) p \<noteq> None"
    by (simp_all add: reliable_def)
  let ?x = "metadata_rows (db w) (bm_spec_version m) \<noteq> None"
  obtain d where d: "check_if_metadata_exists (ne_pg env) (bm_spec_version m) (db w) = (Ok ?x, d)"
    using check_exists_total [OF pg] by blast
  obtain w1 where w1: "(if \<not> ?x then save_metadata env m p else ret ()) (w\<lparr>db := d\<rparr>) = (Ok (), w1)"
    using save_metadata_total [OF rel ver, of p "w\<lparr>db := d\<rparr>"] by (cases ?x) auto
  have row: "metadata_rows (db w1) (bm_spec_version m) \<noteq> None"
    using w1 db.meta_exists_ok [OF d] save_metadata_ok [of env m p "w\<lparr>db := d\<rparr>" w1] by (cases ?x) auto
  obtain d2 where d2: "db_insert (ne_pg env) (Block_row m) (db w1) = (Ok 1, d2)"
    using insert_block_total [OF pg num row] by blast
  obtain k where k: "send_payload (ne_kafka env) (ne_config env) (Block_payload p) (producer w1) = (Ok (), k)"
    using send_total [OF kf] by blast
  have "notifier_archive env m p w = (Ok (), w1\<lparr>db := d2, producer := k\<rparr>)"
    unfolding notifier_archive_def world_Ok
    by (intro exI [of _ ?x] exI [of _ "w\<lparr>db := d\<rparr>"] exI [of _ "()"] exI [of _ w1] exI [of _ "1::u64"]
        exI [of _ "w1\<lparr>db := d2\<rparr>"] conjI) (use d w1 d2 k in auto)
  then show ?thesis ..
qed

section \<open>Properties\<close>

text \<open>When the services answer, every message with a block number below ten million and a version
  that the signed column can hold is archived: the run ends without an error.\<close>

lemma archive_total:
  assumes "reliable env" and "bm_block_num m < 10000000" and "0 \<le> sint (bm_spec_version m)"
  shows "is_ok (fst (notifier_archive env m p w))"
  using notifier_archive_total [OF assms, of p w] by auto

text \<open>A message that the notifier archived without an error is stored in Postgres under its block
  number, with a metadata row for its version, and is the last record of the Kafka log; exactly when
  the version was new, one metadata record precedes it. No other block row changed.\<close>

lemma archive_ok_stores_message:
  assumes "notifier_archive env m p w = (Ok (), w')"
  shows "message_stored env m p w' \<and>
    block_rows (db w') = (block_rows (db w))(bm_block_num m \<mapsto> m) \<and>
    (\<exists>rs r. delivered (producer w') = delivered (producer w) @ rs @ [r] \<and>
      payload_record (ne_kafka env) (ne_config env) (Block_payload p) = Some r \<and>
      (if metadata_rows (db w) (bm_spec_version m) \<noteq> None then rs = []
       else \<exists>q. rs = [q] \<and> fr_topic q = topic_metadata (topic (ne_config env))))"
  using notifier_archive_ok [OF assms] by (auto simp: message_stored_def)

text \<open>Kafka never runs ahead of Postgres. Whatever fails and however the run ends, every record it
  added to the Kafka log is either the metadata record of the block's version, whose metadata row is
  in the database, or the record of the block itself, whose row is in the database.\<close>

lemma records_follow_rows:
  "\<exists>rs. delivered (producer (snd (notifier_archive env m p w))) = delivered (producer w) @ rs \<and>
    (\<forall>r\<in>set rs.
      (\<exists>q. payload_record (ne_kafka env) (ne_config env) (Metadata_payload q) = Some r \<and>
         mp_spec_version q = bm_spec_version m \<and>
         metadata_rows (db (snd (notifier_archive env m p w))) (bm_spec_version m) \<noteq> None) \<or>
      (payload_record (ne_kafka env) (ne_config env) (Block_payload p) = Some r \<and>
         block_rows (db (snd (notifier_archive env m p w))) (bm_block_num m) = Some m))"
proof -
  obtain ms bs where "delivered (producer (snd (notifier_archive env m p w))) = delivered (producer w) @ ms @ bs"
    "\<forall>r\<in>set ms. metadata_backed env m (snd (notifier_archive env m p w)) r"
    "bs = [] \<or> (\<exists>r. bs = [r] \<and> block_backed env m p (snd (notifier_archive env m p w)) r)"
    using notifier_records [of env m p w] by blast
  then show ?thesis
    by (intro exI [of _ "ms @ bs"]) (auto simp: metadata_backed_def block_backed_def)
qed

text \<open>Archiving a message again (as the executor does while it waits at the tip of the chain) changes
  no row of Postgres, but publishes the block once more: the Kafka log ends with two records of it.\<close>

lemma rearchive_is_idempotent_in_db:
  assumes "notifier_archive env m p w = (Ok (), w1)" and "notifier_archive env m p w1 = (Ok (), w2)"
  shows "block_rows (db w2) = block_rows (db w1) \<and> metadata_rows (db w2) = metadata_rows (db w1) \<and>
    (\<exists>r. payload_record (ne_kafka env) (ne_config env) (Block_payload p) = Some r \<and>
      delivered (producer w2) = delivered (producer w1) @ [r] \<and> last (delivered (producer w1)) = r)"
  using notifier_archive_ok [OF assms(1)] notifier_archive_ok [OF assms(2)] by auto

text \<open>The metadata row of a version is never removed, whatever happens.\<close>

lemma notifier_keeps_metadata: "preserves (\<lambda>w. metadata_rows (db w) v \<noteq> None) (notifier_archive env m p)"
proof -
  define kept where "kept d \<longleftrightarrow> metadata_rows d v \<noteq> None" for d
  have ex: "preserves kept (check_if_metadata_exists e k)" for e k
    by (simp add: preserves_def kept_def exists_keeps_rows)
  have row: "preserves kept (db_insert e (Block_row k))" for e k
    by (simp add: preserves_def kept_def insert_block_keeps_metadata)
  have meta: "preserves kept (db_insert e (Metadata_row k))" for e k
  proof (rule preservesI)
    fix d assume "kept d"
    then have P: "rows_by mm_spec_version (metadatas (tables d)) v \<noteq> None" by (simp add: kept_def metadata_rows_def)
    have "rows_by mm_spec_version (metadatas (tables (snd (db_insert e (Metadata_row k) d)))) v \<noteq> None"
      unfolding db_insert_def
      by (rule call_rule [where P = "\<lambda>t. rows_by mm_spec_version (metadatas t) v \<noteq> None"])
        (use P in \<open>auto simp: gen_query_metadata_def split: if_splits\<close>)
    then show "kept (snd (db_insert e (Metadata_row k) d))" by (simp add: kept_def metadata_rows_def)
  qed
  have db: "preserves kept q \<Longrightarrow> preserves (\<lambda>w. kept (db w)) (on_db q)" for q :: "(pg, 'e, 'a) prog"
    by (rule preserves_zoom [where J = kept]) simp_all
  have pr: "preserves (\<lambda>w. kept (db w)) (on_producer q)" for q :: "(kafka, 'e, 'a) prog"
    by (rule preserves_zoom [where J = "\<lambda>_. True"]) (simp_all add: preserves_def)
  have "preserves (\<lambda>w. kept (db w)) (notifier_archive env m p)"
    unfolding notifier_archive_def save_metadata_def
    by (auto intro!: prog_pres db pr ex meta row)
  then show ?thesis by (simp add: kept_def)
qed

text \<open>A message of a version whose metadata row is there adds at most its block record.\<close>

lemma known_version_records:
  assumes "metadata_rows (db w) (bm_spec_version m) \<noteq> None"
  shows "delivered (producer (snd (notifier_archive env m p w))) = delivered (producer w) \<or>
    (\<exists>x. payload_record (ne_kafka env) (ne_config env) (Block_payload p) = Some x \<and>
       delivered (producer (snd (notifier_archive env m p w))) = delivered (producer w) @ [x])"
proof -
  let ?ex = "map_err_prog (\<lambda>_. Backend ''db'') (on_db (check_if_metadata_exists (ne_pg env) (bm_spec_version m)))"
  let ?ins = "map_err_prog (\<lambda>_. Storage ''db'') (on_db (db_insert (ne_pg env) (Block_row m)))"
  let ?out = "map_err_prog (\<lambda>_. Storage ''kafka'')
    (on_producer (send_payload (ne_kafka env) (ne_config env) (Block_payload p)))"
  have eq: "notifier_archive env m p = pbind ?ex (\<lambda>x. pbind (if \<not> x then save_metadata env m p else ret ())
      (\<lambda>_. pbind ?ins (\<lambda>_. ?out)))"
    by (simp add: notifier_archive_def)
  have quiet: "producer (snd (map_err_prog f (on_db q) w)) = producer w" for f q w
    by (simp add: map_err_prog_def zoom_def split: prod.splits)
  show ?thesis
  proof (cases rule: pbind_cases [of ?ex w "\<lambda>x. pbind (if \<not> x then save_metadata env m p else ret ()) (\<lambda>_. pbind ?ins (\<lambda>_. ?out))"])
    case (goes x w1)
    then obtain d where d: "check_if_metadata_exists (ne_pg env) (bm_spec_version m) (db w) = (Ok x, d)" "w1 = w\<lparr>db := d\<rparr>"
      unfolding world_Ok by auto
    from db.meta_exists_ok [OF d(1)] assms have x by auto
    with goes(2) eq have run: "notifier_archive env m p w = pbind ?ins (\<lambda>_. ?out) w1" by simp
    show ?thesis
    proof (cases rule: pbind_cases [of ?ins w1 "\<lambda>_. ?out"])
      case ins: (goes n w2)
      have "producer w2 = producer w" using quiet [of "\<lambda>_. Storage ''db''" _ w1] ins(1) d(2) by (metis archive_world.select_convs(2) archive_world.surjective archive_world.update_convs(1) snd_conv)
      then show ?thesis
        using kafka.send_any [of "ne_kafka env" "ne_config env" "Block_payload p" "producer w2"] run ins(2) by auto
    qed (use run quiet d(2) in simp)
  qed (use eq quiet in simp)
qed

text \<open>Messages handled one after the other, whatever becomes of each, also in other environments (as
  after a restart), and the metadata record of a version on Kafka.\<close>

definition archive_all :: "(notify_env \<times> BlockModel \<times> BlockPayload) list \<Rightarrow> archive_world \<Rightarrow> archive_world" where
  "archive_all ms w = fold (\<lambda>(env, m, p) w. snd (notifier_archive env m p w)) ms w"

definition is_metadata_record :: "KafkaConfig \<Rightarrow> u32 \<Rightarrow> FutureRecord \<Rightarrow> bool" where
  "is_metadata_record c v x \<longleftrightarrow> fr_topic x = topic_metadata (topic c) \<and> fr_key x = Some (to_string_u32 v)"

lemma block_not_metadata:
  "payload_record e c (Block_payload p) = Some x \<Longrightarrow> topic_metadata (topic c) \<noteq> topic_block (topic c) \<Longrightarrow>
    \<not> is_metadata_record c v x"
  by (auto simp: payload_record_def is_metadata_record_def)

lemma step_suppresses_metadata:
  assumes row: "metadata_rows (db w) v \<noteq> None" and top: "topic_metadata (topic (ne_config env)) \<noteq> topic_block (topic (ne_config env))"
    and none: "\<forall>x\<in>set (delivered (producer w)). \<not> is_metadata_record (ne_config env) v x"
  shows "\<forall>x\<in>set (delivered (producer (snd (notifier_archive env m p w)))). \<not> is_metadata_record (ne_config env) v x"
proof (cases "bm_spec_version m = v")
  case True
  with known_version_records [of w m env p] row none block_not_metadata [OF _ top] show ?thesis by auto
next
  case False
  have "\<not> is_metadata_record (ne_config env) v x" if "metadata_backed env m w' x" for x w'
    using that False by (auto simp: metadata_backed_def is_metadata_record_def payload_record_def)
  moreover have "\<not> is_metadata_record (ne_config env) v x" if "block_backed env m p w' x" for x w'
    using that block_not_metadata [OF _ top] by (auto simp: block_backed_def)
  ultimately show ?thesis using notifier_records [of env m p w] none by fastforce
qed

lemma lost_metadata_stays_lost:
  assumes "metadata_rows (db w) v \<noteq> None" and "\<forall>x\<in>set (delivered (producer w)). \<not> is_metadata_record c v x"
    and "topic_metadata (topic c) \<noteq> topic_block (topic c)" and "\<forall>(env, m, p) \<in> set later. ne_config env = c"
  shows "metadata_rows (db (archive_all later w)) v \<noteq> None \<and>
    (\<forall>x\<in>set (delivered (producer (archive_all later w))). \<not> is_metadata_record c v x)"
  using assms
proof (induction later arbitrary: w)
  case (Cons l later)
  obtain env m p where l: "l = (env, m, p)" by (cases l) auto
  let ?w = "snd (notifier_archive env m p w)"
  have "metadata_rows (db ?w) v \<noteq> None" using preservesD [OF notifier_keeps_metadata] Cons.prems(1) .
  moreover have "\<forall>x\<in>set (delivered (producer ?w)). \<not> is_metadata_record c v x"
    using step_suppresses_metadata [of w v env m p] Cons.prems l by auto
  ultimately have "metadata_rows (db (archive_all later ?w)) v \<noteq> None \<and>
    (\<forall>x\<in>set (delivered (producer (archive_all later ?w))). \<not> is_metadata_record c v x)"
    using Cons.prems(3,4) by (intro Cons.IH) auto
  then show ?case by (simp add: archive_all_def l)
qed (simp add: archive_all_def)

text \<open>C36: a metadata record can be lost for good. When the run that meets a new version has written its
  metadata row but delivered nothing, the run has failed, and no record with the version's metadata is on
  Kafka after any messages that are handled later, of this version or another, whatever becomes of each
  and also after restarts: the row stays, and it makes the notifier skip the metadata.\<close>

theorem metadata_record_lost:
  assumes "notifier_archive env m p w = (r, w1)" and "metadata_rows (db w1) (bm_spec_version m) \<noteq> None"
    and "delivered (producer w1) = delivered (producer w)"
    and "\<forall>x\<in>set (delivered (producer w)). \<not> is_metadata_record c (bm_spec_version m) x"
    and "topic_metadata (topic c) \<noteq> topic_block (topic c)" and "\<forall>(env, m, p) \<in> set later. ne_config env = c"
  shows "\<not> is_ok r \<and> metadata_rows (db (archive_all later w1)) (bm_spec_version m) \<noteq> None \<and>
    (\<forall>x\<in>set (delivered (producer (archive_all later w1))). \<not> is_metadata_record c (bm_spec_version m) x)"
proof -
  have "\<not> is_ok r"
  proof
    assume "is_ok r"
    with assms(1) have "notifier_archive env m p w = (Ok (), w1)" by (cases r) simp_all
    from notifier_archive_ok(2) [OF this] assms(3) show False by auto
  qed
  with lost_metadata_stays_lost [of w1 "bm_spec_version m" c later] assms(2-) show ?thesis by simp
qed

text \<open>The next number never overflows and never passes the backend's best block: it is the
  successor while the backend is ahead, and stays put at the tip.\<close>

lemma compare_advances:
  assumes "n \<le> best"
  shows "unat (compare best n) = min (unat n + 1) (unat best) \<and> compare best n \<le> best"
proof (cases "n < best")
  case True
  then have "unat n < unat best" by (simp add: word_less_nat_alt)
  with compare_unat [OF True] show ?thesis by (simp add: word_le_nat_alt)
next
  case False
  with assms have "n = best" by simp
  then show ?thesis by (simp add: compare_def)
qed

text \<open>The archive resumes at the greatest stored block, or at genesis when nothing is stored; the
  task panics exactly when the database does not answer.\<close>

lemma initializer_resumes:
  assumes "schema_inv (tables s)"
  shows "case fst (initializer_run env s) of
      Ok n \<Rightarrow> (if dom (block_rows s) = {} then n = 0
               else n \<in> dom (block_rows s) \<and> (\<forall>k\<in>dom (block_rows s). k \<le> n))
    | Err _ \<Rightarrow> False
    | Panic _ \<Rightarrow> \<not> is_ok (fst (max_block_num env s))"
proof (cases "max_block_num env s")
  case (Pair r s')
  show ?thesis
  proof (cases r)
    case (Ok m)
    with Pair have "max_block_num env s = (Ok m, s')" by simp
    from max_block_num_greatest [OF assms this] Pair Ok show ?thesis
      by (cases m) (auto simp: initializer_run_def)
  qed (simp_all add: initializer_run_def Pair)
qed

section \<open>Concrete runs\<close>

definition demo_notify_env :: "KafkaError faults \<Rightarrow> notify_env" where
  "demo_notify_env f = \<lparr>ne_pg = pg_ok, ne_kafka = kafka_ok\<lparr>delivery_faults := f\<rparr>,
     ne_config = demo_kafka_config, ne_metadata = (\<lambda>_. Ok [9])\<rparr>"

definition empty_world :: archive_world where
  "empty_world = \<lparr>db = \<lparr>tables = create_tables, pg_clock = 0\<rparr>, producer = kafka_empty\<rparr>"

lemma demo_message_nums [simp]:
  "bm_block_num (fst (demo_message n)) = n" "bm_spec_version (fst (demo_message n)) = 265"
  "bp_block_num (snd (demo_message n)) = n"
  by (simp_all add: demo_message_def block_model_def block_payload_def Let_def demo_header_def)

text \<open>The concrete environments satisfy what a successful run needs.\<close>

lemma demo_notify_reliable: "reliable (demo_notify_env no_faults)"
  by (simp add: reliable_def demo_notify_env_def pg_ok_def kafka_ok_def)

lemma demo_notifier_archive:
  assumes "n < 10000000"
  obtains w' where
    "notifier_archive (demo_notify_env no_faults) (fst (demo_message n)) (snd (demo_message n)) w = (Ok (), w')"
  using notifier_archive_total [OF demo_notify_reliable, of "fst (demo_message n)"] assms by auto

text \<open>The first delivery fails before it takes effect.\<close>

definition lost_first :: "KafkaError faults" where
  "lost_first k = (if k = 0 then Some (False, MessageProduction ''timed out'') else None)"

lemma lost_first_run:
  obtains w1 where
    "notifier_archive (demo_notify_env lost_first) (fst (demo_message 3)) (snd (demo_message 3)) empty_world =
       (Err (Storage ''kafka''), w1)"
    "metadata_rows (db w1) 265 \<noteq> None" "delivered (producer w1) = []" "kafka_clock (producer w1) = 1"
    "block_rows (db w1) = block_rows (db empty_world)"
proof -
  let ?env = "demo_notify_env lost_first" and ?m = "fst (demo_message 3)" and ?p = "snd (demo_message 3)"
  have pg: "pool_faults (ne_pg ?env) = no_faults" "stmt_faults (ne_pg ?env) = no_faults"
    by (simp_all add: demo_notify_env_def pg_ok_def)
  obtain d where d: "check_if_metadata_exists (ne_pg ?env) 265 (db empty_world) = (Ok False, d)"
    using check_exists_total [OF pg, of 265 "db empty_world"]
    by (auto simp: empty_world_def metadata_rows_def create_tables_def rows_by_def)
  let ?row = "metadata_model 265 3 (bp_block_hash ?p) [9]"
  obtain e where e: "db_insert (ne_pg ?env) (Metadata_row ?row) d = (Ok 1, e)"
    using insert_metadata_total [OF pg, of ?row d] by (auto simp: metadata_model_def)
  have "metadata_rows e 265 \<noteq> None" "block_rows e = block_rows (db empty_world)"
    using db.insert_meta_ok [OF e] db.meta_exists_ok [OF d] by (simp_all add: metadata_model_def)
  then show ?thesis
    using d e
    by (intro that [of "empty_world\<lparr>db := e, producer := kafka_empty\<lparr>kafka_clock := 1\<rparr>\<rparr>"])
       (simp_all add: notifier_archive_def save_metadata_def pbind_def map_err_prog_def zoom_def
         demo_notify_env_def kafka_ok_def send_inner_def lost_first_def empty_world_def kafka_empty_def)
qed

text \<open>The record of version 265 is lost with block 3; blocks 4 and 3 of that version follow, and block 4 is
  stored and published, yet the metadata is never announced.\<close>

theorem metadata_record_lost_witness:
  "\<exists>w1. notifier_archive (demo_notify_env lost_first) (fst (demo_message 3)) (snd (demo_message 3)) empty_world
       = (Err (Storage ''kafka''), w1) \<and>
     (let w2 = archive_all [(demo_notify_env no_faults, demo_message 4), (demo_notify_env lost_first, demo_message 3)] w1 in
      metadata_rows (db w2) 265 \<noteq> None \<and>
      (\<forall>x\<in>set (delivered (producer w2)). \<not> is_metadata_record demo_kafka_config 265 x))"
proof -
  from lost_first_run obtain w1 where w1:
    "notifier_archive (demo_notify_env lost_first) (fst (demo_message 3)) (snd (demo_message 3)) empty_world =
       (Err (Storage ''kafka''), w1)" "metadata_rows (db w1) 265 \<noteq> None" "delivered (producer w1) = []" .
  have "topic_metadata (topic demo_kafka_config) \<noteq> topic_block (topic demo_kafka_config)"
    by (simp add: demo_kafka_config_def)
  moreover have "\<forall>(env, m, p) \<in> set [(demo_notify_env no_faults, demo_message 4), (demo_notify_env lost_first, demo_message 3)].
      ne_config env = demo_kafka_config"
    by (auto simp: demo_notify_env_def)
  moreover have "delivered (producer empty_world) = []" by (simp add: empty_world_def kafka_empty_def)
  ultimately show ?thesis
    using metadata_record_lost [OF w1(1), of demo_kafka_config
      "[(demo_notify_env no_faults, demo_message 4), (demo_notify_env lost_first, demo_message 3)]"] w1
    by (simp add: Let_def)
qed

end
