(* ===== verification/Pipeline.thy ===== *)
theory Pipeline
  imports Archive_Notifier
begin

text \<open>
  The archive as a system of tasks (\<open>cli/src/service.rs\<close> wires them): the initializer or the
  configuration sends a first number to the executor, the executor sends a message to the notifier
  and the number to the comparer, the comparer sends the next number to the executor, and the chain
  imports blocks meanwhile. The tasks interleave freely; each rule takes one item from one channel.
\<close>

section \<open>Runs of a labelled step relation\<close>

inductive runs :: "('s \<Rightarrow> 'l \<Rightarrow> 's \<Rightarrow> bool) \<Rightarrow> 's \<Rightarrow> 'l list \<Rightarrow> 's \<Rightarrow> bool" for step where
  runs_Nil: "runs step s [] s"
| runs_snoc: "runs step s as t \<Longrightarrow> step t a u \<Longrightarrow> runs step s (as @ [a]) u"

text \<open>The contract of an invariant: it holds at the start and every step keeps it, where it may
  speak of the events so far.\<close>

locale trace_invariant =
  fixes step :: "'s \<Rightarrow> 'l \<Rightarrow> 's \<Rightarrow> bool"
    and start :: "'s \<Rightarrow> bool"
    and inv :: "'l list \<Rightarrow> 's \<Rightarrow> bool"
  assumes inv_start: "start s \<Longrightarrow> inv [] s"
    and inv_step: "inv as s \<Longrightarrow> step s a t \<Longrightarrow> inv (as @ [a]) t"
begin

lemma inv_runs: "runs step s as t \<Longrightarrow> start s \<Longrightarrow> inv as t"
  by (induction rule: runs.induct) (auto intro: inv_start inv_step)

end

section \<open>The tasks and their channels\<close>

text \<open>
  The channels to the notifier and to the comparer are the executor's two senders; a rule of the
  receiving task takes the head. The loop of a task ends when a call panics. A channel whose receiver
  is gone is never read again.
\<close>

record pipeline =
  executor_recv :: "u32 list"
  exec_task :: executor
  world :: archive_world
  best :: u32
  initializer_pending :: bool
  executor_alive :: bool
  notifier_alive :: bool

datatype event =
    Initialized u32
  | Initializer_died
  | Executed u32
  | Executor_died u32
  | Archived u32 bool
  | Notifier_died u32
  | Compared u32
  | Imported u32

text \<open>\<open>new_full_base\<close>: with the reset flag the configured number is sent at once, otherwise the
  initializer task is spawned.\<close>

definition pipeline_start :: "bool \<Rightarrow> u32 \<Rightarrow> archive_world \<Rightarrow> u32 \<Rightarrow> pipeline" where
  "pipeline_start reset_force block_number w b =
     \<lparr>executor_recv = (if reset_force then [block_number] else []),
      exec_task = executor_new version_cache_new,
      world = w, best = b, initializer_pending = (\<not> reset_force),
      executor_alive = True, notifier_alive = True\<rparr>"

inductive pipeline_step ::
  "('st, 'api) exec_env \<Rightarrow> notify_env \<Rightarrow> pipeline \<Rightarrow> event \<Rightarrow> pipeline \<Rightarrow> bool" for xe ne where
  initialize: "initializer_pending s \<Longrightarrow> initializer_run (ne_pg ne) (db (world s)) = (Ok n, d) \<Longrightarrow>
    pipeline_step xe ne s (Initialized n)
      (s\<lparr>initializer_pending := False, world := (world s)\<lparr>db := d\<rparr>, executor_recv := executor_recv s @ [n]\<rparr>)"
| initialize_dies: "initializer_pending s \<Longrightarrow> initializer_run (ne_pg ne) (db (world s)) = (Panic w, d) \<Longrightarrow>
    pipeline_step xe ne s Initializer_died (s\<lparr>initializer_pending := False, world := (world s)\<lparr>db := d\<rparr>\<rparr>)"
| execute: "executor_alive s \<Longrightarrow> executor_recv s = n # q \<Longrightarrow>
    executor_archive xe n (exec_task s) = (r, x) \<Longrightarrow> \<not> is_panic r \<Longrightarrow>
    pipeline_step xe ne s (Executed n) (s\<lparr>executor_recv := q, exec_task := x\<rparr>)"
| execute_dies: "executor_alive s \<Longrightarrow> executor_recv s = n # q \<Longrightarrow>
    executor_archive xe n (exec_task s) = (Panic e, x) \<Longrightarrow>
    pipeline_step xe ne s (Executor_died n) (s\<lparr>executor_recv := q, exec_task := x, executor_alive := False\<rparr>)"
| archive: "notifier_alive s \<Longrightarrow> archiver_send (exec_task s) = (m, p) # q \<Longrightarrow>
    notifier_archive ne m p (world s) = (r, w) \<Longrightarrow> \<not> is_panic r \<Longrightarrow>
    pipeline_step xe ne s (Archived (bm_block_num m) (is_ok r))
      (s\<lparr>exec_task := (exec_task s)\<lparr>archiver_send := q\<rparr>, world := w\<rparr>)"
| archive_dies: "notifier_alive s \<Longrightarrow> archiver_send (exec_task s) = (m, p) # q \<Longrightarrow>
    notifier_archive ne m p (world s) = (Panic e, w) \<Longrightarrow>
    pipeline_step xe ne s (Notifier_died (bm_block_num m))
      (s\<lparr>exec_task := (exec_task s)\<lparr>archiver_send := q\<rparr>, world := w, notifier_alive := False\<rparr>)"
| compare_next: "comparer_send (exec_task s) = n # q \<Longrightarrow>
    pipeline_step xe ne s (Compared n)
      (s\<lparr>exec_task := (exec_task s)\<lparr>comparer_send := q\<rparr>, executor_recv := executor_recv s @ [compare (best s) n]\<rparr>)"
| import_block: "pipeline_step xe ne s (Imported b) (s\<lparr>best := b\<rparr>)"

inductive_cases pipeline_stepE: "pipeline_step xe ne s a t"

text \<open>The numbers whose execution was completed, in order.\<close>

fun executed_numbers :: "event list \<Rightarrow> u32 list" where
  "executed_numbers [] = []"
| "executed_numbers (Executed n # as) = n # executed_numbers as"
| "executed_numbers (_ # as) = executed_numbers as"

text \<open>A block number follows another when it is the same or the next one.\<close>

definition follows :: "u32 \<Rightarrow> u32 \<Rightarrow> bool" where
  "follows a b \<longleftrightarrow> b = a \<or> unat b = unat a + 1"

section \<open>Predicates on the state of the system\<close>

definition tokens :: "pipeline \<Rightarrow> nat" where
  "tokens s = length (executor_recv s) + length (comparer_send (exec_task s)) +
     (if initializer_pending s then 1 else 0)"

abbreviation numbers :: "ArchiveSendMsg list \<Rightarrow> u32 list" where
  "numbers \<equiv> map (bm_block_num \<circ> fst)"

definition pending_numbers :: "pipeline \<Rightarrow> u32 set" where
  "pending_numbers s = (bm_block_num \<circ> fst) ` set (archiver_send (exec_task s))"

text \<open>A row as the executor computes it from the chain, with the version a direct read gives.\<close>

definition faithful_row :: "('st, 'api) exec_env \<Rightarrow> BlockModel \<Rightarrow> bool" where
  "faithful_row xe b \<longleftrightarrow>
     (\<exists>sc sb v. execute_block_and_into_storage_changes xe (bm_block_num b) = Ok (Some (sc, sb)) \<and>
        direct_version (xe_version xe) (Number (bm_block_num b)) = Ok (Some v) \<and>
        b = block_model xe (spec_version v) (bm_block_num b) sc sb)"

text \<open>A message for the notifier with such a row and the payload of the same block.\<close>

definition message_of :: "('st, 'api) exec_env \<Rightarrow> ArchiveSendMsg \<Rightarrow> bool" where
  "message_of xe mp \<longleftrightarrow> (let n = bm_block_num (fst mp) in
     \<exists>sc sb v. execute_block_and_into_storage_changes xe n = Ok (Some (sc, sb)) \<and>
       direct_version (xe_version xe) (Number n) = Ok (Some v) \<and>
       mp = (block_model xe (spec_version v) n sc sb, block_payload xe (spec_version v) n sc sb))"

definition faithful_db :: "('st, 'api) exec_env \<Rightarrow> pg \<Rightarrow> bool" where
  "faithful_db xe d \<longleftrightarrow> (\<forall>n b. block_rows d n = Some b \<longrightarrow> faithful_row xe b \<and> bm_block_num b = n)"

text \<open>Versions that the signed column can hold.\<close>

definition versions_fit :: "'st version_env \<Rightarrow> bool" where
  "versions_fit env \<longleftrightarrow> (\<forall>b v. direct_version env b = Ok (Some v) \<longrightarrow> 0 \<le> sint (spec_version v))"

section \<open>Lemmas on sequences of numbers\<close>

lemma executed_append [simp]: "executed_numbers (as @ bs) = executed_numbers as @ executed_numbers bs"
  by (induction as rule: executed_numbers.induct) auto

lemma follows_compare: "follows n (compare k n)"
proof (cases "n < k")
  case True
  then show ?thesis using compare_unat by (simp add: follows_def)
next
  case False
  then show ?thesis by (simp add: follows_def compare_def)
qed

lemma follows_le: "follows a b \<Longrightarrow> a \<le> b"
  by (auto simp: follows_def word_le_nat_alt)

lemma contiguous_interval:
  assumes "successively follows ns" and "ns \<noteq> []"
  shows "unat ` set ns = {unat (hd ns)..unat (last ns)} \<and> unat (hd ns) \<le> unat (last ns)"
  using assms
proof (induction ns)
  case (Cons n ns)
  show ?case
  proof (cases ns)
    case (Cons m ms)
    with Cons.prems have "follows n m" "successively follows ns" by simp_all
    with Cons.IH Cons show ?thesis by (auto simp: follows_def)
  qed simp
qed simp

section \<open>Lemmas on steps\<close>

lemma executor_effect:
  assumes "executor_archive xe n x = (r, x')"
  shows "if is_panic r then comparer_send x' = comparer_send x \<and> archiver_send x' = archiver_send x
    else comparer_send x' = comparer_send x @ [n] \<and>
      (archiver_send x' = archiver_send x \<and> n = 0 \<or>
       (\<exists>m p. archiver_send x' = archiver_send x @ [(m, p)] \<and> bm_block_num m = n))"
  using assms by (cases rule: executor_archive_cases [of xe n x]) (auto simp: block_model_def Let_def)

lemma message_of_faithful: "message_of xe mp \<Longrightarrow> faithful_row xe (fst mp)"
  unfolding message_of_def faithful_row_def Let_def by (metis fst_conv)

lemma executor_message_over:
  assumes run: "executor_archive xe n x = (r, x')" "\<not> is_panic r"
    and inv: "cache_inv_over codes (xe_version xe) (version_cache x)"
    and sub: "chain_codes (xe_version xe) \<subseteq> codes" and inj: "inj_on (make_hash (xe_version xe)) codes"
  shows "cache_inv_over codes (xe_version xe) (version_cache x') \<and>
    (archiver_send x' = archiver_send x \<and> n = 0 \<or>
     (\<exists>mp. archiver_send x' = archiver_send x @ [mp] \<and> bm_block_num (fst mp) = n \<and> message_of xe mp))"
proof (cases rule: executor_archive_cases [of xe n x])
  case (message sc sb spec v c)
  have "direct_version (xe_version xe) (Number n) = Ok (Some v)"
    using get_by_id_direct_over [OF inv sub inj, of "Number n"] message(2) by simp
  moreover have "bm_block_num (block_model xe spec n sc sb) = n" by (simp add: block_model_def Let_def)
  ultimately have "message_of xe (block_model xe spec n sc sb, block_payload xe spec n sc sb)"
    unfolding message_of_def Let_def using message(1,3) by auto
  then show ?thesis
    using cache_inv_over_get [OF inv sub, of "Number n"] message run by (auto simp: block_model_def Let_def)
qed (use assms in auto)

lemma executor_faithful_over:
  assumes "executor_archive xe n x = (r, x')" "\<not> is_panic r"
    and "cache_inv_over codes (xe_version xe) (version_cache x)"
    and "chain_codes (xe_version xe) \<subseteq> codes" and "inj_on (make_hash (xe_version xe)) codes"
  shows "cache_inv_over codes (xe_version xe) (version_cache x') \<and>
    (\<forall>mp\<in>set (archiver_send x'). mp \<in> set (archiver_send x) \<or>
       bm_block_num (fst mp) = n \<and> faithful_row xe (fst mp))"
  using executor_message_over [OF assms] message_of_faithful [of xe] by auto

lemma executor_faithful:
  assumes "executor_archive xe n x = (r, x')" "\<not> is_panic r"
    and "cache_inv (xe_version xe) (version_cache x)" "collision_free (xe_version xe)"
  shows "cache_inv (xe_version xe) (version_cache x') \<and>
    (\<forall>mp\<in>set (archiver_send x'). mp \<in> set (archiver_send x) \<or> faithful_row xe (fst mp))"
  using executor_faithful_over [OF assms(1-3)] assms(4) unfolding collision_free_def by blast

text \<open>Whatever happens in a run of the notifier, at most the message's own row changes.\<close>

lemma notifier_rows:
  "block_rows (db (snd (notifier_archive ne m p w))) = block_rows (db w) \<or>
   block_rows (db (snd (notifier_archive ne m p w))) = (block_rows (db w))(bm_block_num m \<mapsto> m)"
proof -
  let ?f = "block_rows (db w)"
  let ?I = "\<lambda>d. block_rows d = ?f \<or> block_rows d = ?f(bm_block_num m \<mapsto> m)"
  have ex: "preserves ?I (check_if_metadata_exists e v)" for e v
    by (simp add: preserves_def exists_keeps_rows)
  have meta: "preserves ?I (db_insert e (Metadata_row k))" for e k
  proof -
    have "blocks (tables (snd (db_insert e (Metadata_row k) d))) = blocks (tables d)" for d
      unfolding db_insert_def
      by (rule call_frame) (auto simp: gen_query_metadata_def split: if_splits)
    then show ?thesis by (simp add: preserves_def block_rows_def)
  qed
  have row: "preserves ?I (db_insert e (Block_row m))" for e
  proof -
    have "blocks (tables (snd (db_insert e (Block_row m) d))) = blocks (tables d) \<or>
        blocks (tables (snd (db_insert e (Block_row m) d))) = upsert_by bm_block_num m (blocks (tables d))" for d
      unfolding db_insert_def
      by (rule call_rule [where P = "\<lambda>t. blocks t = blocks (tables d) \<or>
            blocks t = upsert_by bm_block_num m (blocks (tables d))"])
         (auto simp: gen_query_block_def split: if_splits)
    then show ?thesis by (auto simp: preserves_def block_rows_def) (metis fun_upd_upd rows_by_upsert)+
  qed
  have db: "preserves ?I q \<Longrightarrow> preserves (\<lambda>w. ?I (db w)) (on_db q)" for q :: "(pg, 'e, 'a) prog"
    by (rule preserves_zoom [where J = ?I]) simp_all
  have pr: "preserves (\<lambda>w. ?I (db w)) (on_producer q)" for q :: "(kafka, 'e, 'a) prog"
    by (rule preserves_zoom [where J = "\<lambda>_. True"]) (simp_all add: preserves_def)
  have "preserves (\<lambda>w. ?I (db w)) (notifier_archive ne m p)"
    unfolding notifier_archive_def save_metadata_def
    by (auto intro!: prog_pres db pr ex meta row)
  then show ?thesis by (rule preservesD) simp
qed

lemma initializer_run_tables: "tables (snd (initializer_run e d)) = tables d"
proof -
  have "tables (snd (max_block_num e d)) = tables d"
    unfolding max_block_num_def by (rule call_frame [where f = "\<lambda>t. t"]) (simp add: max_block_num_stmt_def)
  then show ?thesis by (auto simp: initializer_run_def split: prod.splits result.splits)
qed

lemma initializer_run_rows:
  "initializer_run e d = (r, d') \<Longrightarrow> tables d' = tables d \<and> block_rows d' = block_rows d"
  using initializer_run_tables [of e d] by (simp add: block_rows_def)

section \<open>Invariants of the system\<close>

definition started :: "pipeline \<Rightarrow> bool" where
  "started s \<longleftrightarrow> (\<exists>f k w b. s = pipeline_start f k w b)"

lemma started_start [simp]: "started (pipeline_start f k w b)"
  by (auto simp: started_def)

lemma world_start [simp]: "world (pipeline_start f k w b) = w"
  by (simp add: pipeline_start_def)

definition order_inv :: "event list \<Rightarrow> pipeline \<Rightarrow> bool" where
  "order_inv as s \<longleftrightarrow> tokens s \<le> 1 \<and>
     successively follows (executed_numbers as @ executor_recv s) \<and>
     (\<forall>n\<in>set (comparer_send (exec_task s)). executed_numbers as \<noteq> [] \<and> last (executed_numbers as) = n) \<and>
     (initializer_pending s \<longrightarrow> executed_numbers as = [])"

lemma order_inv_step:
  assumes inv: "order_inv as s" and step: "pipeline_step xe ne s a t"
  shows "order_inv (as @ [a]) t"
  using step
proof cases
  case (execute n q r x)
  from executor_effect [OF execute(5)] execute(6)
  have "comparer_send x = comparer_send (exec_task s) @ [n]" by simp
  with inv execute show ?thesis by (auto simp: order_inv_def tokens_def split: if_splits)
next
  case (execute_dies n q e x)
  from executor_effect [OF execute_dies(5)] have "comparer_send x = comparer_send (exec_task s)" by simp
  with inv execute_dies show ?thesis
    by (auto simp: order_inv_def tokens_def successively_append_iff split: if_splits)
next
  case (compare_next n q)
  with inv have "q = []" "executor_recv s = []" "\<not> initializer_pending s"
    by (auto simp: order_inv_def tokens_def split: if_splits)
  with inv compare_next show ?thesis
    by (auto simp: order_inv_def tokens_def successively_append_iff follows_compare)
qed (use inv in \<open>auto simp: order_inv_def tokens_def split: if_splits\<close>)

interpretation order: trace_invariant "pipeline_step xe ne" started order_inv for xe ne
proof unfold_locales
  show "order_inv [] s" if "started s" for s
    using that by (auto simp: started_def order_inv_def tokens_def pipeline_start_def)
qed (rule order_inv_step)

text \<open>The schema is kept by every task.\<close>

interpretation schema: trace_invariant "pipeline_step xe ne" "\<lambda>s. schema_inv (tables (db (world s)))"
  "\<lambda>_ s. schema_inv (tables (db (world s)))" for xe ne
proof unfold_locales
  fix as s a t
  assume inv: "schema_inv (tables (db (world s)))" and step: "pipeline_step xe ne s a t"
  have keep: "schema_inv (tables (db (snd (notifier_archive ne m p (world s)))))" for m p
    using inv preservesD [OF notifier_archive_schema] by blast
  from step show "schema_inv (tables (db (world t)))"
  proof cases
    case (archive m p q r w)
    then show ?thesis using keep [of m p] by simp
  next
    case (archive_dies m p q e w)
    then show ?thesis using keep [of m p] by simp
  qed (use inv in \<open>auto dest: initializer_run_rows\<close>)
qed

text \<open>Rows and pending messages come from the chain.\<close>

definition faithful_inv :: "('st, 'api) exec_env \<Rightarrow> pipeline \<Rightarrow> bool" where
  "faithful_inv xe s \<longleftrightarrow> faithful_db xe (db (world s)) \<and>
     (\<forall>mp\<in>set (archiver_send (exec_task s)). faithful_row xe (fst mp)) \<and>
     (executor_alive s \<longrightarrow> cache_inv (xe_version xe) (version_cache (exec_task s)))"

lemma faithful_notifier:
  assumes "faithful_db xe (db w)" "faithful_row xe m"
  shows "faithful_db xe (db (snd (notifier_archive ne m p w)))"
  using notifier_rows [of ne m p w] assms by (auto simp: faithful_db_def split: if_splits)

lemma faithful_inv_step:
  assumes inv: "faithful_inv xe s" and step: "pipeline_step xe ne s a t"
    and free: "collision_free (xe_version xe)"
  shows "faithful_inv xe t"
  using step
proof cases
  case (execute n q r x)
  then show ?thesis
    using executor_faithful [OF execute(5,6) _ free] inv by (auto simp: faithful_inv_def)
next
  case (execute_dies n q e x)
  then show ?thesis using executor_effect [OF execute_dies(5)] inv by (auto simp: faithful_inv_def)
next
  case (archive m p q r w)
  then show ?thesis
    using faithful_notifier [of xe "world s" m ne p] inv by (auto simp: faithful_inv_def)
next
  case (archive_dies m p q e w)
  then show ?thesis
    using faithful_notifier [of xe "world s" m ne p] inv by (auto simp: faithful_inv_def)
qed (use inv in \<open>auto simp: faithful_inv_def faithful_db_def dest!: initializer_run_rows\<close>)

text \<open>With services that answer, the notifier goes on and stores what it is given.\<close>

lemma notifier_reliable_no_panic:
  assumes "reliable ne"
  shows "\<not> is_panic (fst (notifier_archive ne m p w))"
proof -
  have pg: "\<not> is_panic (fst (check_if_metadata_exists e v d))" "\<not> is_panic (fst (db_insert e k d))" for e v k d
    by (simp_all add: check_if_metadata_exists_def db_insert_def call_not_panic gen_query_not_panic
        metadata_exists_stmt_def)
  have kf: "\<not> is_panic (fst (send_payload (ne_kafka ne) c y k))" for c y k
    using send_total [of "ne_kafka ne" y c k] assms by (auto simp: reliable_def)
  have bind: "\<not> is_panic (fst (pbind g f s))" if "\<not> is_panic (fst (g s))" "\<And>x s. \<not> is_panic (fst (f x s))"
    for g :: "('s, 'e, 'x) prog" and f :: "'x \<Rightarrow> ('s, 'e, 'y) prog" and s
    using that by (cases rule: pbind_cases [of g s f]) (auto simp: pbind_def split: prod.splits result.splits)
  obtain meta where "ne_metadata ne (Number (bm_block_num m)) = Ok meta"
    using assms unfolding reliable_def by (meson is_okE)
  then have save: "\<not> is_panic (fst (save_metadata ne m p s))" for s
    unfolding save_metadata_def
    by (simp del: send_payload.simps) (intro bind; simp add: pg kf del: send_payload.simps)
  show ?thesis
    unfolding notifier_archive_def
    by (intro bind; simp add: pg kf save del: send_payload.simps)
qed

definition stored_inv :: "('st, 'api) exec_env \<Rightarrow> event list \<Rightarrow> pipeline \<Rightarrow> bool" where
  "stored_inv xe as s \<longleftrightarrow> notifier_alive s \<and>
     (\<forall>mp\<in>set (archiver_send (exec_task s)). 0 \<le> sint (bm_spec_version (fst mp))) \<and>
     (\<forall>n\<in>set (executed_numbers as). n \<noteq> 0 \<and> n < 10000000 \<longrightarrow>
        n \<in> dom (block_rows (db (world s))) \<union> pending_numbers s)"

lemma faithful_version:
  assumes "versions_fit (xe_version xe)" "faithful_row xe m"
  shows "0 \<le> sint (bm_spec_version m)"
proof -
  from assms(2) obtain sc sb v where v: "direct_version (xe_version xe) (Number (bm_block_num m)) = Ok (Some v)"
    and m: "m = block_model xe (spec_version v) (bm_block_num m) sc sb"
    by (auto simp: faithful_row_def)
  have "bm_spec_version m = spec_version v"
    by (subst m) (simp add: block_model_def Let_def)
  with v assms(1) show ?thesis by (simp add: versions_fit_def)
qed

lemma notifier_stores:
  assumes "reliable ne" "0 \<le> sint (bm_spec_version m)"
  shows "dom (block_rows (db w)) \<subseteq> dom (block_rows (db (snd (notifier_archive ne m p w))))"
    "bm_block_num m < 10000000 \<Longrightarrow> bm_block_num m \<in> dom (block_rows (db (snd (notifier_archive ne m p w))))"
proof -
  show "dom (block_rows (db w)) \<subseteq> dom (block_rows (db (snd (notifier_archive ne m p w))))"
    using notifier_rows [of ne m p w] by auto
  assume "bm_block_num m < 10000000"
  with assms notifier_archive_total obtain w' where "notifier_archive ne m p w = (Ok (), w')" by metis
  with notifier_archive_ok(1) [OF this]
  show "bm_block_num m \<in> dom (block_rows (db (snd (notifier_archive ne m p w))))" by simp
qed

lemma stored_inv_step:
  assumes inv: "stored_inv xe as s" and faith: "faithful_inv xe t" and step: "pipeline_step xe ne s a t"
    and rel: "reliable ne" and fit: "versions_fit (xe_version xe)"
  shows "stored_inv xe (as @ [a]) t"
proof -
  have ver: "\<forall>mp\<in>set (archiver_send (exec_task t)). 0 \<le> sint (bm_spec_version (fst mp))"
    using faith faithful_version [OF fit] by (simp add: faithful_inv_def)
  from step show ?thesis
  proof cases
    case (execute n q r x)
    from executor_effect [OF execute(5)] execute(6)
    have "pending_numbers s \<subseteq> pending_numbers t \<and> (n \<noteq> 0 \<longrightarrow> n \<in> pending_numbers t)"
      by (auto simp: pending_numbers_def execute)
    with inv ver execute show ?thesis by (auto simp: stored_inv_def)
  next
    case (execute_dies n q e x)
    with executor_effect [OF execute_dies(5)] inv ver show ?thesis
      by (auto simp: stored_inv_def pending_numbers_def)
  next
    case (archive m p q r w)
    have "0 \<le> sint (bm_spec_version m)" using inv archive(4) by (simp add: stored_inv_def)
    note st = notifier_stores [OF rel this, where w = "world s" and p = p]
    with archive have "dom (block_rows (db (world s))) \<subseteq> dom (block_rows (db (world t)))"
      "pending_numbers s = insert (bm_block_num m) (pending_numbers t)"
      "bm_block_num m < 10000000 \<Longrightarrow> bm_block_num m \<in> dom (block_rows (db (world t)))"
      by (auto simp: pending_numbers_def)
    then have mono: "n \<in> dom (block_rows (db (world t))) \<union> pending_numbers t"
      if "n \<in> dom (block_rows (db (world s))) \<union> pending_numbers s" "n < 10000000" for n
      using that by (cases "n = bm_block_num m") auto
    have ev: "executed_numbers (as @ [a]) = executed_numbers as" by (simp add: archive)
    have "notifier_alive t" by (simp add: archive)
    with inv ver mono show ?thesis unfolding stored_inv_def ev by blast
  next
    case (archive_dies m p q e w)
    then show ?thesis using notifier_reliable_no_panic [OF rel, of m p "world s"] by simp
  qed (use inv ver in \<open>auto simp: stored_inv_def pending_numbers_def dest!: initializer_run_rows\<close>)
qed

text \<open>A number below the greatest stored one is never asked for again after a restart.\<close>

definition gap_inv :: "u32 \<Rightarrow> u32 \<Rightarrow> pipeline \<Rightarrow> bool" where
  "gap_inv j k s \<longleftrightarrow> j < k \<and> schema_inv (tables (db (world s))) \<and>
     block_rows (db (world s)) j = None \<and> block_rows (db (world s)) k \<noteq> None \<and>
     (\<forall>n \<in> set (executor_recv s) \<union> set (comparer_send (exec_task s)) \<union> pending_numbers s. j < n)"

lemma initializer_ge:
  assumes "schema_inv (tables d)" "block_rows d k \<noteq> None" "initializer_run e d = (Ok n, d')"
  shows "k \<le> n"
proof -
  from assms(3) obtain m s' where mx: "max_block_num e d = (Ok m, s')" and n: "n = (case m of Some k \<Rightarrow> k | None \<Rightarrow> 0)"
    by (auto simp: initializer_run_def split: prod.splits result.splits)
  from assms(2) have "k \<in> dom (block_rows d)" by auto
  with max_block_num_greatest [OF assms(1) mx] n show ?thesis by (auto split: option.splits)
qed

lemma gap_inv_step:
  assumes inv: "gap_inv j k s" and step: "pipeline_step xe ne s a t"
  shows "gap_inv j k t"
proof -
  have sch: "schema_inv (tables (db (world t)))"
    using schema.inv_step [OF _ step] inv by (simp add: gap_inv_def)
  have rows: "block_rows (db (snd (notifier_archive ne m p (world s)))) j = None \<and>
      block_rows (db (snd (notifier_archive ne m p (world s)))) k \<noteq> None" if "j < bm_block_num m" for m p
    using notifier_rows [of ne m p "world s"] inv that by (auto simp: gap_inv_def)
  from step show ?thesis
  proof cases
    case (initialize n d)
    then have "j < n" using initializer_ge [OF _ _ initialize(4), of k] inv by (auto simp: gap_inv_def)
    with initialize inv sch initializer_run_rows [OF initialize(4)] show ?thesis
      by (auto simp: gap_inv_def pending_numbers_def)
  next
    case (execute n q r x)
    from executor_effect [OF execute(5)] execute(6)
    have "set (comparer_send x) = insert n (set (comparer_send (exec_task s)))"
      "pending_numbers t \<subseteq> insert n (pending_numbers s)"
      by (auto simp: pending_numbers_def execute)
    with inv execute sch show ?thesis by (auto simp: gap_inv_def)
  next
    case (execute_dies n q e x)
    with executor_effect [OF execute_dies(5)] inv sch show ?thesis
      by (auto simp: gap_inv_def pending_numbers_def)
  next
    case (archive m p q r w)
    then show ?thesis using rows [of m p] inv sch by (auto simp: gap_inv_def pending_numbers_def)
  next
    case (archive_dies m p q e w)
    then show ?thesis using rows [of m p] inv sch by (auto simp: gap_inv_def pending_numbers_def)
  next
    case (compare_next n q)
    have "n \<le> compare (best s) n" by (rule follows_le [OF follows_compare])
    with inv compare_next sch show ?thesis by (auto simp: gap_inv_def pending_numbers_def)
  qed (use inv sch in \<open>auto simp: gap_inv_def pending_numbers_def dest: initializer_run_rows\<close>)
qed

definition first_inv :: "u32 \<Rightarrow> event list \<Rightarrow> pipeline \<Rightarrow> bool" where
  "first_inv k as s \<longleftrightarrow> \<not> initializer_pending s \<and> order_inv as s \<and>
     (executed_numbers as @ executor_recv s \<noteq> [] \<longrightarrow> hd (executed_numbers as @ executor_recv s) = k)"

lemma first_inv_step:
  assumes inv: "first_inv k as s" and step: "pipeline_step xe ne s a t"
  shows "first_inv k (as @ [a]) t"
proof -
  have ord: "order_inv (as @ [a]) t" "order_inv as s"
    using inv order_inv_step [OF _ step] by (simp_all add: first_inv_def)
  from step show ?thesis
  proof cases
    case (execute_dies n q e x)
    with ord(2) have "q = []" by (auto simp: order_inv_def tokens_def)
    with inv ord execute_dies show ?thesis by (auto simp: first_inv_def hd_append split: if_splits)
  next
    case (compare_next n q)
    then have "executed_numbers as \<noteq> []" using ord(2) by (simp add: order_inv_def)
    with inv ord compare_next show ?thesis by (simp add: first_inv_def)
  qed (use inv ord in \<open>auto simp: first_inv_def\<close>)
qed

text \<open>The invariants as instances of the contract.\<close>

interpretation faithful: trace_invariant "pipeline_step xe ne"
  "\<lambda>s. started s \<and> faithful_db xe (db (world s))"
  "\<lambda>_ s. collision_free (xe_version xe) \<longrightarrow> faithful_inv xe s" for xe ne
proof unfold_locales
  show "collision_free (xe_version xe) \<longrightarrow> faithful_inv xe s"
    if "started s \<and> faithful_db xe (db (world s))" for s
    using that by (auto simp: started_def faithful_inv_def pipeline_start_def cache_inv_new)
qed (blast intro: faithful_inv_step)

interpretation stored: trace_invariant "pipeline_step xe ne"
  "\<lambda>s. started s \<and> faithful_db xe (db (world s))"
  "\<lambda>as s. collision_free (xe_version xe) \<and> reliable ne \<and> versions_fit (xe_version xe) \<longrightarrow>
     faithful_inv xe s \<and> stored_inv xe as s" for xe ne
proof unfold_locales
  show "collision_free (xe_version xe) \<and> reliable ne \<and> versions_fit (xe_version xe) \<longrightarrow>
      faithful_inv xe s \<and> stored_inv xe [] s" if "started s \<and> faithful_db xe (db (world s))" for s
    using that by (auto simp: started_def faithful_inv_def stored_inv_def pipeline_start_def cache_inv_new)
qed (blast intro: faithful_inv_step stored_inv_step)

interpretation first: trace_invariant "pipeline_step xe ne"
  "\<lambda>s. \<exists>w b. s = pipeline_start True k w b" "first_inv k" for xe ne k
proof unfold_locales
  show "first_inv k [] s" if "\<exists>w b. s = pipeline_start True k w b" for s
    using that by (auto simp: first_inv_def order_inv_def tokens_def pipeline_start_def)
qed (rule first_inv_step)

interpretation gap: trace_invariant "pipeline_step xe ne" "gap_inv j k" "\<lambda>_. gap_inv j k" for xe ne j k
  by unfold_locales (auto intro: gap_inv_step)

text \<open>With services that answer, what was executed is stored or on its way to the notifier.\<close>

lemma executed_kept:
  assumes "runs (pipeline_step xe ne) (pipeline_start f k w b) as t"
  shows "collision_free (xe_version xe) \<and> faithful_db xe (db w) \<and> reliable ne \<and> versions_fit (xe_version xe) \<Longrightarrow>
    n \<in> set (executed_numbers as) \<Longrightarrow> n \<noteq> 0 \<Longrightarrow> n < 10000000 \<Longrightarrow>
    n \<in> dom (block_rows (db (world t))) \<union> pending_numbers t"
  using stored.inv_runs [OF assms] by (auto simp: stored_inv_def)

lemma executed_between:
  fixes n :: u32
  assumes "unat ` set ns = {a..z}" and "a \<le> unat n" and "unat n \<le> z"
  shows "n \<in> set ns"
proof -
  have "unat n \<in> unat ` set ns" using assms by simp
  then show ?thesis by (metis imageE word_unat_eq_iff)
qed

text \<open>What was executed is stored once the notifier has caught up.\<close>

lemma executed_rows_stored:
  assumes "runs (pipeline_step xe ne) (pipeline_start f k w b) as t"
    and "collision_free (xe_version xe)" and "faithful_db xe (db w)"
    and "reliable ne" and "versions_fit (xe_version xe)"
    and "archiver_send (exec_task t) = []" and "executed_numbers as \<noteq> []"
  shows "{n. hd (executed_numbers as) \<le> n \<and> n \<le> last (executed_numbers as) \<and> n \<noteq> 0 \<and> n < 10000000}
    \<subseteq> dom (block_rows (db (world t)))"
proof
  fix n
  assume n: "n \<in> {n. hd (executed_numbers as) \<le> n \<and> n \<le> last (executed_numbers as) \<and> n \<noteq> 0 \<and> n < 10000000}"
  have "order_inv as t" using order.inv_runs [OF assms(1)] by simp
  then have "successively follows (executed_numbers as)" by (simp add: order_inv_def successively_append_iff)
  then have "unat ` set (executed_numbers as) = {unat (hd (executed_numbers as))..unat (last (executed_numbers as))}"
    using contiguous_interval [OF _ assms(7)] by blast
  then have "n \<in> set (executed_numbers as)"
    by (rule executed_between) (use n in \<open>simp_all add: word_le_nat_alt\<close>)
  then show "n \<in> dom (block_rows (db (world t)))"
    using executed_kept [OF assms(1), of n] n assms(2-6) by (simp add: pending_numbers_def)
qed

section \<open>Properties\<close>

text \<open>C1: soundness of the archive. However the tasks interleave and whichever calls fail or panic,
  every row of the blocks table is, field by field, what executing that block of the chain gives, and
  its version is the one in the block's own code, provided this held when the service started (as it
  does for an empty database) and the code hash has no collisions on this chain.\<close>

theorem archive_sound:
  assumes "runs (pipeline_step xe ne) (pipeline_start f k w b) as t"
    and "collision_free (xe_version xe)" and "faithful_db xe (db w)"
  shows "faithful_db xe (db (world t))"
  using faithful.inv_runs [OF assms(1)] assms(2,3) by (simp add: faithful_inv_def)

text \<open>C2: completeness of the archive. When the services answer, versions fit their column and the
  notifier has caught up, every block from the first to the last executed one is stored (apart from
  genesis and from numbers that have no partition): no block in between is missing.\<close>

theorem archive_complete:
  assumes "runs (pipeline_step xe ne) (pipeline_start f k w b) as t"
    and "collision_free (xe_version xe)" and "faithful_db xe (db w)"
    and "reliable ne" and "versions_fit (xe_version xe)"
    and "archiver_send (exec_task t) = []" and "executed_numbers as \<noteq> []"
  shows "{n. hd (executed_numbers as) \<le> n \<and> n \<le> last (executed_numbers as) \<and> n \<noteq> 0 \<and> n < 10000000}
    \<subseteq> dom (block_rows (db (world t)))"
  by (rule executed_rows_stored [OF assms])

text \<open>The executor walks the chain without skipping: the numbers it completed are exactly those
  between the first and the last one, each following its predecessor or repeating it, and with the
  reset flag the first one is the configured number.\<close>

lemma executed_contiguous:
  assumes "runs (pipeline_step xe ne) (pipeline_start f k w b) as t" and "executed_numbers as \<noteq> []"
  shows "successively follows (executed_numbers as) \<and>
    unat ` set (executed_numbers as) =
      {unat (hd (executed_numbers as))..unat (last (executed_numbers as))} \<and>
    (f \<longrightarrow> hd (executed_numbers as) = k)"
proof -
  have "order_inv as t" using order.inv_runs [OF assms(1)] by simp
  then have c: "successively follows (executed_numbers as)" by (simp add: order_inv_def successively_append_iff)
  have "hd (executed_numbers as) = k" if f
    using first.inv_runs [of xe ne "pipeline_start f k w b" as t k] assms that
    by (auto simp: first_inv_def)
  with c contiguous_interval [OF c assms(2)] show ?thesis by blast
qed

text \<open>At most one block is on its way between the initializer, the executor and the comparer, so
  the executor's and the comparer's channels never hold more than one number and no number is handed
  out twice.\<close>

lemma one_block_in_flight:
  assumes "runs (pipeline_step xe ne) (pipeline_start f k w b) as t"
  shows "tokens t \<le> 1"
  using order.inv_runs [OF assms] by (simp add: order_inv_def)

text \<open>The tables satisfy the schema at every moment of every run of the system.\<close>

lemma pipeline_keeps_schema:
  assumes "runs (pipeline_step xe ne) (pipeline_start f k w b) as t" and "schema_inv (tables (db w))"
  shows "schema_inv (tables (db (world t)))"
  using schema.inv_runs [OF assms(1)] assms(2) by simp

text \<open>C28: a hole in the archive is never filled by restarting the service: when a number is missing
  below a stored one, a service started without the reset flag never stores it, whatever happens.\<close>

theorem gap_is_permanent:
  assumes "runs (pipeline_step xe ne) (pipeline_start False k0 w b) as t"
    and "schema_inv (tables (db w))" and "j < k"
    and "block_rows (db w) j = None" and "block_rows (db w) k \<noteq> None"
  shows "block_rows (db (world t)) j = None"
proof -
  have "gap_inv j k (pipeline_start False k0 w b)"
    using assms(2-) by (simp add: gap_inv_def pipeline_start_def pending_numbers_def)
  from gap.inv_runs [OF assms(1) this] show ?thesis by (simp add: gap_inv_def)
qed

section \<open>Concrete runs of the system\<close>

lemma runs_step: "runs step s as t \<Longrightarrow> step t a u \<Longrightarrow> bs = as @ [a] \<Longrightarrow> runs step s bs u"
  by (simp add: runs_snoc)

text \<open>Two blocks executed, none archived yet.\<close>

lemma demo_two_blocks:
  obtains c where "runs (pipeline_step demo_exec_env ne) (pipeline_start True 3 w 9)
    [Executed 3, Compared 3, Executed 4]
    \<lparr>executor_recv = [], exec_task = \<lparr>version_cache = c, archiver_send = [demo_message 3, demo_message 4],
       comparer_send = [4]\<rparr>, world = w, best = 9, initializer_pending = False,
     executor_alive = True, notifier_alive = True\<rparr>"
proof -
  let ?s0 = "pipeline_start True 3 w 9"
  obtain c where c: "cache_inv demo_version_env c"
    "executor_archive demo_exec_env 3 (exec_task ?s0) = (Ok (), (exec_task ?s0)\<lparr>version_cache := c,
       archiver_send := [demo_message 3], comparer_send := [3]\<rparr>)"
    using demo_archive [of "exec_task ?s0" 3] by (auto simp: pipeline_start_def cache_inv_new)
  let ?s1 = "?s0\<lparr>executor_recv := [], exec_task := (exec_task ?s0)\<lparr>version_cache := c,
       archiver_send := [demo_message 3], comparer_send := [3]\<rparr>\<rparr>"
  have "pipeline_step demo_exec_env ne ?s0 (Executed 3) ?s1"
    using c by (intro execute [where r = "Ok ()"]) (simp_all add: pipeline_start_def)
  then have 1: "runs (pipeline_step demo_exec_env ne) ?s0 [Executed 3] ?s1"
    by (rule runs_step [OF runs_Nil]) simp
  let ?s2 = "?s1\<lparr>exec_task := (exec_task ?s1)\<lparr>comparer_send := []\<rparr>, executor_recv := executor_recv ?s1 @ [compare (best ?s1) 3]\<rparr>"
  have "pipeline_step demo_exec_env ne ?s1 (Compared 3) ?s2"
    by (rule compare_next) simp
  with 1 have 2: "runs (pipeline_step demo_exec_env ne) ?s0 [Executed 3, Compared 3] ?s2"
    by (rule runs_step) simp
  obtain c' where c': "executor_archive demo_exec_env 4 (exec_task ?s2) = (Ok (), (exec_task ?s2)\<lparr>version_cache := c',
       archiver_send := [demo_message 3, demo_message 4], comparer_send := [4]\<rparr>)"
    using demo_archive [of "exec_task ?s2" 4] c(1) by auto
  let ?s3 = "?s2\<lparr>executor_recv := [], exec_task := (exec_task ?s2)\<lparr>version_cache := c',
       archiver_send := [demo_message 3, demo_message 4], comparer_send := [4]\<rparr>\<rparr>"
  have "pipeline_step demo_exec_env ne ?s2 (Executed 4) ?s3"
    using c' by (intro execute [where r = "Ok ()"]) (simp_all add: pipeline_start_def compare_def)
  with 2 have "runs (pipeline_step demo_exec_env ne) ?s0 [Executed 3, Compared 3, Executed 4] ?s3"
    by (rule runs_step) simp
  then show ?thesis by (intro that [of c']) (simp add: pipeline_start_def)
qed

text \<open>The notifier then takes both messages.\<close>

lemma demo_two_archived:
  assumes "notifier_archive ne (fst (demo_message 3)) (snd (demo_message 3)) w = (r, w1)" "\<not> is_panic r"
    and "notifier_archive ne (fst (demo_message 4)) (snd (demo_message 4)) w1 = (r', w2)" "\<not> is_panic r'"
  obtains t where "runs (pipeline_step demo_exec_env ne) (pipeline_start True 3 w 9)
      [Executed 3, Compared 3, Executed 4, Archived 3 (is_ok r), Archived 4 (is_ok r')] t"
    "world t = w2" "archiver_send (exec_task t) = []" "comparer_send (exec_task t) = [4]"
proof -
  obtain c where c: "runs (pipeline_step demo_exec_env ne) (pipeline_start True 3 w 9)
    [Executed 3, Compared 3, Executed 4]
    \<lparr>executor_recv = [], exec_task = \<lparr>version_cache = c, archiver_send = [demo_message 3, demo_message 4],
       comparer_send = [4]\<rparr>, world = w, best = 9, initializer_pending = False,
     executor_alive = True, notifier_alive = True\<rparr>" (is "runs _ _ _ ?s")
    by (rule demo_two_blocks)
  let ?s1 = "?s\<lparr>exec_task := (exec_task ?s)\<lparr>archiver_send := [demo_message 4]\<rparr>, world := w1\<rparr>"
  let ?s2 = "?s1\<lparr>exec_task := (exec_task ?s1)\<lparr>archiver_send := []\<rparr>, world := w2\<rparr>"
  have "pipeline_step demo_exec_env ne ?s (Archived (bm_block_num (fst (demo_message 3))) (is_ok r)) ?s1"
    by (rule archive) (use assms in simp_all)
  with c have 1: "runs (pipeline_step demo_exec_env ne) (pipeline_start True 3 w 9)
      [Executed 3, Compared 3, Executed 4, Archived 3 (is_ok r)] ?s1"
    by (rule runs_step) simp
  have "pipeline_step demo_exec_env ne ?s1 (Archived (bm_block_num (fst (demo_message 4))) (is_ok r')) ?s2"
    by (rule archive) (use assms in simp_all)
  with 1 have "runs (pipeline_step demo_exec_env ne) (pipeline_start True 3 w 9)
      [Executed 3, Compared 3, Executed 4, Archived 3 (is_ok r), Archived 4 (is_ok r')] ?s2"
    by (rule runs_step) simp
  then show ?thesis by (rule that) simp_all
qed

lemma demo_chain_facts:
  "collision_free (xe_version demo_exec_env)" "versions_fit (xe_version demo_exec_env)"
  "faithful_db demo_exec_env (db empty_world)" "schema_inv (tables (db empty_world))"
proof -
  have v: "xe_version demo_exec_env = demo_version_env" by (simp add: demo_exec_env_def)
  show "collision_free (xe_version demo_exec_env)" by (simp add: v demo_version_collision_free)
  show "versions_fit (xe_version demo_exec_env)"
    by (simp add: v versions_fit_def demo_direct_version demo_version_def)
  show "faithful_db demo_exec_env (db empty_world)" "schema_inv (tables (db empty_world))"
    by (simp_all add: faithful_db_def empty_world_def block_rows_def create_tables_def rows_by_def schema_inv_def)
qed

abbreviation demo_trace :: "event list" where
  "demo_trace \<equiv> [Executed 3, Compared 3, Executed 4, Archived 3 True, Archived 4 True]"

lemma demo_reliable_run:
  obtains t where "runs (pipeline_step demo_exec_env (demo_notify_env no_faults)) (pipeline_start True 3 empty_world 9) demo_trace t"
    "archiver_send (exec_task t) = []" "block_rows (db (world t)) 3 = Some (fst (demo_message 3))"
    "comparer_send (exec_task t) = [4]"
proof -
  have "(3::u32) < 10000000" "(4::u32) < 10000000" by simp_all
  note run = demo_notifier_archive [OF this(1)] demo_notifier_archive [OF this(2)]
  obtain w1 where w1: "notifier_archive (demo_notify_env no_faults) (fst (demo_message 3)) (snd (demo_message 3)) empty_world = (Ok (), w1)"
    by (rule run(1))
  obtain w2 where w2: "notifier_archive (demo_notify_env no_faults) (fst (demo_message 4)) (snd (demo_message 4)) w1 = (Ok (), w2)"
    by (rule run(2))
  have row: "block_rows (db w2) 3 = Some (fst (demo_message 3))"
    using notifier_archive_ok(1) [OF w1] notifier_archive_ok(1) [OF w2] by simp
  obtain t where t: "runs (pipeline_step demo_exec_env (demo_notify_env no_faults)) (pipeline_start True 3 empty_world 9)
      [Executed 3, Compared 3, Executed 4, Archived 3 (is_ok (Ok () :: (blockchain_error, unit) result)),
       Archived 4 (is_ok (Ok () :: (blockchain_error, unit) result))] t"
    "world t = w2" "archiver_send (exec_task t) = []" "comparer_send (exec_task t) = [4]"
    by (rule demo_two_archived [OF w1 _ w2]) simp_all
  then show ?thesis using row by (intro that [of t]) simp_all
qed

theorem archive_sound_witness:
  "\<exists>t. runs (pipeline_step demo_exec_env (demo_notify_env no_faults)) (pipeline_start True 3 empty_world 9) demo_trace t \<and>
     faithful_db demo_exec_env (db (world t))"
proof -
  obtain t where t: "runs (pipeline_step demo_exec_env (demo_notify_env no_faults)) (pipeline_start True 3 empty_world 9) demo_trace t"
    by (rule demo_reliable_run)
  from archive_sound [OF t demo_chain_facts(1,3)] t show ?thesis by blast
qed

theorem archive_complete_witness:
  "\<exists>t. runs (pipeline_step demo_exec_env (demo_notify_env no_faults)) (pipeline_start True 3 empty_world 9) demo_trace t \<and>
     {3, 4} \<subseteq> dom (block_rows (db (world t)))"
proof -
  obtain t where t: "runs (pipeline_step demo_exec_env (demo_notify_env no_faults)) (pipeline_start True 3 empty_world 9) demo_trace t"
    "archiver_send (exec_task t) = []"
    by (rule demo_reliable_run)
  have ne: "executed_numbers demo_trace \<noteq> []" by simp
  note sub = archive_complete [OF t(1) demo_chain_facts(1,3) demo_notify_reliable demo_chain_facts(2) t(2) ne]
  have "3 \<in> dom (block_rows (db (world t)))" "4 \<in> dom (block_rows (db (world t)))"
    by (rule subsetD [OF sub], simp)+
  with t(1) show ?thesis by blast
qed

theorem gap_is_permanent_witness:
  "\<exists>t. runs (pipeline_step demo_exec_env (demo_notify_env no_faults))
       (pipeline_start False 0 (empty_world\<lparr>db := demo_pg\<rparr>) 9) [Initialized 5] t \<and>
     block_rows demo_pg 4 \<noteq> None \<and> block_rows (db (world t)) 3 = None"
proof -
  let ?s = "pipeline_start False 0 (empty_world\<lparr>db := demo_pg\<rparr>) 9"
  have init: "initializer_run (ne_pg (demo_notify_env no_faults)) (db (world ?s)) = (Ok 5, demo_pg\<lparr>pg_clock := 2\<rparr>)"
    by (simp add: demo_notify_env_def initializer_run_def demo_max_block_num)
  obtain t where "pipeline_step demo_exec_env (demo_notify_env no_faults) ?s (Initialized 5) t"
    using initialize [OF _ init] by (force simp: pipeline_start_def)
  then have t: "runs (pipeline_step demo_exec_env (demo_notify_env no_faults)) ?s [Initialized 5] t"
    by (rule runs_step [OF runs_Nil]) simp
  have rows: "block_rows demo_pg 3 = None" "block_rows demo_pg 4 \<noteq> None"
    by (simp_all add: block_rows_def rows_by_def demo_pg_def)
  have "(3::u32) < 4" by simp
  from gap_is_permanent [OF t _ this] rows demo_pg_schema t show ?thesis by auto
qed

text \<open>Such holes arise. On a concrete chain with one lost Kafka delivery the executor completes blocks 3
  and 4, the comparer having moved on without looking at the outcome of the archive; block 3 failed and
  is not stored, block 4 is.\<close>

lemma gap_arises:
  "\<exists>t. runs (pipeline_step demo_exec_env (demo_notify_env lost_first)) (pipeline_start True 3 empty_world 9)
       [Executed 3, Compared 3, Executed 4, Archived 3 False, Archived 4 True] t \<and>
     archiver_send (exec_task t) = [] \<and> block_rows (db (world t)) 3 = None \<and> block_rows (db (world t)) 4 \<noteq> None"
proof -
  let ?env = "demo_notify_env lost_first"
  obtain w1 where w1: "notifier_archive ?env (fst (demo_message 3)) (snd (demo_message 3)) empty_world =
       (Err (Storage ''kafka''), w1)" "metadata_rows (db w1) 265 \<noteq> None" "kafka_clock (producer w1) = 1"
     "block_rows (db w1) = block_rows (db empty_world)"
    by (rule lost_first_run)
  have pg: "pool_faults (ne_pg ?env) = no_faults" "stmt_faults (ne_pg ?env) = no_faults"
    by (simp_all add: demo_notify_env_def pg_ok_def)
  obtain d where d: "check_if_metadata_exists (ne_pg ?env) 265 (db w1) = (Ok True, d)"
    using check_exists_total [OF pg, of 265 "db w1"] w1(2) by auto
  have "bm_block_num (fst (demo_message 4)) < 10000000" by simp
  then obtain d2 where d2: "db_insert (ne_pg ?env) (Block_row (fst (demo_message 4))) d = (Ok 1, d2)"
    using insert_block_total [OF pg, of "fst (demo_message 4)" d] w1(2) db.meta_exists_ok [OF d] by auto
  obtain w2 where w2: "notifier_archive ?env (fst (demo_message 4)) (snd (demo_message 4)) w1 = (Ok (), w2)"
    using d d2 w1(3)
    by (simp add: notifier_archive_def pbind_def map_err_prog_def zoom_def demo_notify_env_def kafka_ok_def
        send_inner_def lost_first_def)
  obtain t where "runs (pipeline_step demo_exec_env ?env) (pipeline_start True 3 empty_world 9)
       [Executed 3, Compared 3, Executed 4, Archived 3 False, Archived 4 True] t" "world t = w2" "archiver_send (exec_task t) = []"
    by (rule demo_two_archived [OF w1(1) _ w2]) auto
  moreover have "block_rows (db empty_world) 3 = None"
    by (simp add: empty_world_def block_rows_def create_tables_def rows_by_def)
  ultimately show ?thesis using notifier_archive_ok(1) [OF w2] w1(4) by auto
qed

end
