(* ===== verification/Archive_Spec.thy ===== *)
theory Archive_Spec
  imports Pipeline
begin

text \<open>
  What the archive promises, without tasks, channels, caches or failures: it visits block numbers one
  after the other and stores, for numbers it has visited, the row that belongs to that block. The
  pipeline refines this specification.
\<close>

section \<open>Forward simulation\<close>

text \<open>The interface of a refinement proof: every step of the implementation is matched by one step of
  the specification or by none, keeping a relation that may speak of the events so far.\<close>

locale forward_simulation =
  fixes cstep :: "'s \<Rightarrow> 'l \<Rightarrow> 's \<Rightarrow> bool"
    and astep :: "'a \<Rightarrow> 'k \<Rightarrow> 'a \<Rightarrow> bool"
    and rel :: "'l list \<Rightarrow> 's \<Rightarrow> 'a \<Rightarrow> bool"
  assumes simulate: "rel as s a \<Longrightarrow> cstep s l t \<Longrightarrow>
    rel (as @ [l]) t a \<or> (\<exists>k b. astep a k b \<and> rel (as @ [l]) t b)"
begin

lemma refines: "runs cstep s0 as s \<Longrightarrow> rel [] s0 a0 \<Longrightarrow> \<exists>ks a. runs astep a0 ks a \<and> rel as s a"
proof (induction rule: runs.induct)
  case (runs_Nil s)
  then show ?case by (blast intro: runs.runs_Nil)
next
  case (runs_snoc s as t l u)
  then obtain ks a where a: "runs astep a0 ks a" "rel as t a" by blast
  from simulate [OF a(2) runs_snoc.hyps(2)] a(1) show ?case by (blast intro: runs.runs_snoc)
qed

end

section \<open>The specification\<close>

record archive_spec =
  visited :: "u32 list"
  spec_rows :: "u32 \<rightharpoonup> BlockModel"

datatype spec_event = Visit u32 | Store u32

inductive spec_step :: "('st, 'api) exec_env \<Rightarrow> archive_spec \<Rightarrow> spec_event \<Rightarrow> archive_spec \<Rightarrow> bool" for xe where
  visit: "visited a = [] \<or> follows (last (visited a)) n \<Longrightarrow>
    spec_step xe a (Visit n) (a\<lparr>visited := visited a @ [n]\<rparr>)"
| store: "bm_block_num b \<in> set (visited a) \<Longrightarrow> faithful_row xe b \<Longrightarrow>
    spec_step xe a (Store (bm_block_num b)) (a\<lparr>spec_rows := (spec_rows a)(bm_block_num b \<mapsto> b)\<rparr>)"

inductive_cases spec_stepE: "spec_step xe a k b"

text \<open>What can be seen of a pipeline: the numbers its executor has completed and the rows in its
  database.\<close>

definition spec_view :: "event list \<Rightarrow> pipeline \<Rightarrow> archive_spec" where
  "spec_view as s = \<lparr>visited = executed_numbers as, spec_rows = block_rows (db (world s))\<rparr>"

section \<open>The pipeline implements it\<close>

definition refinement_rel :: "('st, 'api) exec_env \<Rightarrow> event list \<Rightarrow> pipeline \<Rightarrow> archive_spec \<Rightarrow> bool" where
  "refinement_rel xe as s a \<longleftrightarrow> a = spec_view as s \<and> collision_free (xe_version xe) \<and>
     order_inv as s \<and> faithful_inv xe s \<and> pending_numbers s \<subseteq> set (executed_numbers as)"

lemma pending_executed:
  assumes "pending_numbers s \<subseteq> set (executed_numbers as)" and step: "pipeline_step xe ne s l t"
  shows "pending_numbers t \<subseteq> set (executed_numbers (as @ [l]))"
  using step
proof cases
  case (execute n q r x)
  from executor_effect [OF execute(5)] execute(6) have "pending_numbers t \<subseteq> insert n (pending_numbers s)"
    by (auto simp: pending_numbers_def execute)
  with assms(1) execute show ?thesis by auto
next
  case (execute_dies n q e x)
  with executor_effect [OF execute_dies(5)] assms(1) show ?thesis by (auto simp: pending_numbers_def)
qed (use assms(1) in \<open>auto simp: pending_numbers_def\<close>)

text \<open>A round of the notifier is a store or nothing.\<close>

lemma archive_is_store:
  assumes rel: "refinement_rel xe as s a" and msg: "archiver_send (exec_task s) = (m, p) # q"
    and rows: "block_rows d = block_rows (db (world s)) \<or> block_rows d = (block_rows (db (world s)))(bm_block_num m \<mapsto> m)"
  shows "a\<lparr>spec_rows := block_rows d\<rparr> = a \<or> (\<exists>k. spec_step xe a k (a\<lparr>spec_rows := block_rows d\<rparr>))"
proof -
  have a: "spec_rows a = block_rows (db (world s))" "visited a = executed_numbers as"
    using rel by (simp_all add: refinement_rel_def spec_view_def)
  have "faithful_row xe m" "bm_block_num m \<in> set (visited a)"
    using rel msg a(2) by (auto simp: refinement_rel_def faithful_inv_def pending_numbers_def)
  then have "spec_step xe a (Store (bm_block_num m)) (a\<lparr>spec_rows := (spec_rows a)(bm_block_num m \<mapsto> m)\<rparr>)"
    by (intro store)
  then show ?thesis using rows a(1) by auto
qed

lemma refinement_step:
  assumes rel: "refinement_rel xe as s a" and step: "pipeline_step xe ne s l t"
  shows "refinement_rel xe (as @ [l]) t a \<or> (\<exists>k b. spec_step xe a k b \<and> refinement_rel xe (as @ [l]) t b)"
proof -
  let ?b = "spec_view (as @ [l]) t"
  have b: "refinement_rel xe (as @ [l]) t ?b"
    using rel order_inv_step [OF _ step] faithful_inv_step [OF _ step] pending_executed [OF _ step]
    by (simp add: refinement_rel_def)
  have a: "a = spec_view as s" and ord: "order_inv as s" using rel by (simp_all add: refinement_rel_def)
  have "?b = a \<or> (\<exists>k. spec_step xe a k ?b)"
    using step
  proof cases
    case (execute n q r x)
    have "visited a = [] \<or> follows (last (visited a)) n"
      using ord execute(4) by (auto simp: a spec_view_def order_inv_def successively_append_iff)
    from visit [OF this, of xe] show ?thesis using execute by (auto simp: a spec_view_def)
  next
    case (archive m p q r w)
    have "a\<lparr>spec_rows := block_rows (db w)\<rparr> = ?b" using archive by (simp add: a spec_view_def)
    with archive_is_store [OF rel archive(4), of "db w"] notifier_rows [of ne m p "world s"] archive(5) show ?thesis
      by simp
  next
    case (archive_dies m p q e w)
    have "a\<lparr>spec_rows := block_rows (db w)\<rparr> = ?b" using archive_dies by (simp add: a spec_view_def)
    with archive_is_store [OF rel archive_dies(4), of "db w"] notifier_rows [of ne m p "world s"] archive_dies(5) show ?thesis
      by simp
  qed (auto simp: a spec_view_def dest!: initializer_run_rows)
  with b show ?thesis by auto
qed

interpretation pipeline_sim: forward_simulation "pipeline_step xe ne" "spec_step xe" "refinement_rel xe" for xe ne
  by unfold_locales (rule refinement_step)

section \<open>Properties\<close>

text \<open>C8: every run of the pipeline, with any interleaving of its tasks and any failures of the database
  and of Kafka, is a run of the specification: the numbers completed by the executor are visited one
  after the other, and whatever is in the database was there at the start or was stored for a
  visited number with the row that belongs to it.\<close>

theorem pipeline_refines_spec:
  assumes "runs (pipeline_step xe ne) (pipeline_start f k w b) as s"
    and "collision_free (xe_version xe)" and "faithful_db xe (db w)"
  shows "\<exists>ks. runs (spec_step xe) \<lparr>visited = [], spec_rows = block_rows (db w)\<rparr> ks
    \<lparr>visited = executed_numbers as, spec_rows = block_rows (db (world s))\<rparr>"
proof -
  have "order_inv [] (pipeline_start f k w b)" by (rule order.inv_start) simp
  moreover have "faithful_inv xe (pipeline_start f k w b)"
    using assms(3) cache_inv_new by (simp add: faithful_inv_def pipeline_start_def)
  ultimately have "refinement_rel xe [] (pipeline_start f k w b) \<lparr>visited = [], spec_rows = block_rows (db w)\<rparr>"
    using assms(2) by (simp add: refinement_rel_def spec_view_def pending_numbers_def pipeline_start_def)
  from pipeline_sim.refines [OF assms(1) this] show ?thesis
    by (auto simp: refinement_rel_def spec_view_def)
qed

theorem pipeline_refines_spec_witness:
  "\<exists>t ks. runs (pipeline_step demo_exec_env (demo_notify_env no_faults)) (pipeline_start True 3 empty_world 9) demo_trace t \<and>
     runs (spec_step demo_exec_env) \<lparr>visited = [], spec_rows = block_rows (db empty_world)\<rparr> ks
       \<lparr>visited = [3, 4], spec_rows = block_rows (db (world t))\<rparr>"
proof -
  obtain t where t: "runs (pipeline_step demo_exec_env (demo_notify_env no_faults)) (pipeline_start True 3 empty_world 9) demo_trace t"
    by (rule demo_reliable_run)
  from pipeline_refines_spec [OF t demo_chain_facts(1,3)] t show ?thesis by auto
qed

end
