(* ===== verification/Chain_Growth.thy ===== *)
theory Chain_Growth
  imports Archive_Spec
begin

text \<open>
  The archive while the chain changes under it: blocks arrive, forks replace blocks that were already
  executed, and the database the executor reads (a secondary instance, perhaps) shows less than the
  database the comparer asks for the best block. Every event carries a view: what the database answered
  while the task handled its item. The executor resolves a number once for the header, once for the
  body, once for the justifications and once for the version, so a reorganisation in the middle of a
  handler is a view that answers these queries from different chains; nothing is assumed against it.
\<close>

section \<open>Model\<close>

type_synonym ('st, 'api) chain_event = "('st, 'api) exec_env \<times> event"

text \<open>One step of a task, with the answers it gets taken from a set of views.\<close>

definition moving_step ::
  "('st, 'api) exec_env set \<Rightarrow> notify_env \<Rightarrow> pipeline \<Rightarrow> ('st, 'api) chain_event \<Rightarrow> pipeline \<Rightarrow> bool" where
  "moving_step views ne s l t \<longleftrightarrow> fst l \<in> views \<and> pipeline_step (fst l) ne s (snd l) t"

text \<open>The views belong to one node: hasher, wasm executor and codecs do not change, and the hasher
  separates the runtimes of all views.\<close>

definition same_tools :: "'st version_env \<Rightarrow> 'st version_env \<Rightarrow> bool" where
  "same_tools env env' \<longleftrightarrow> ve_hasher env = ve_hasher env' \<and> ve_runtime_version env = ve_runtime_version env' \<and>
     ve_decode_old env = ve_decode_old env' \<and> ve_decode_new env = ve_decode_new env' \<and>
     ve_has_api_with env = ve_has_api_with env' \<and> ve_core_api_id env = ve_core_api_id env'"

definition codes_of :: "('st, 'api) exec_env set \<Rightarrow> bytes option set" where
  "codes_of views = (\<Union>xe\<in>views. chain_codes (xe_version xe))"

definition one_node :: "('st, 'api) exec_env set \<Rightarrow> bool" where
  "one_node views \<longleftrightarrow>
     (\<forall>xe\<in>views. \<forall>xe'\<in>views. same_tools (xe_version xe) (xe_version xe')) \<and>
     (\<forall>xe\<in>views. inj_on (make_hash (xe_version xe)) (codes_of views))"

section \<open>Invariants\<close>

lemma same_tools_cache:
  assumes "same_tools env env'"
  shows "cache_inv_over codes env c = cache_inv_over codes env' c"
proof -
  have hash: "make_hash env = make_hash env'"
    using assms by (intro ext) (simp add: same_tools_def make_hash_def)
  have "decode_version env = decode_version env'"
    using assms by (intro ext) (simp add: same_tools_def decode_version_def cong: if_cong)
  then have "blob_version env = blob_version env'"
    using assms by (intro ext) (simp add: same_tools_def blob_version_def)
  with hash show ?thesis by (simp add: cache_inv_over_def)
qed

text \<open>The order of the numbers does not depend on the chain.\<close>

interpretation moving_order: trace_invariant "moving_step views ne" started "\<lambda>as. order_inv (map snd as)"
  for views ne
proof unfold_locales
  show "order_inv (map snd []) s" if "started s" for s using order.inv_start [OF that] by simp
  show "order_inv (map snd (as @ [l])) t" if "order_inv (map snd as) s" "moving_step views ne s l t" for as s l t
    using order_inv_step [OF that(1), of "fst l" ne "snd l" t] that(2) by (simp add: moving_step_def)
qed

text \<open>A row was there before, or some view gave it when the executor worked on its number.\<close>

definition from_view :: "('st, 'api) chain_event list \<Rightarrow> BlockModel \<Rightarrow> bool" where
  "from_view as r \<longleftrightarrow> (\<exists>xe. (xe, Executed (bm_block_num r)) \<in> set as \<and> faithful_row xe r)"

definition moving_inv ::
  "('st, 'api) exec_env set \<Rightarrow> (u32 \<rightharpoonup> BlockModel) \<Rightarrow> ('st, 'api) chain_event list \<Rightarrow> pipeline \<Rightarrow> bool" where
  "moving_inv views rows as s \<longleftrightarrow>
     (\<forall>n r. block_rows (db (world s)) n = Some r \<longrightarrow> rows n = Some r \<or> bm_block_num r = n \<and> from_view as r) \<and>
     (\<forall>mp\<in>set (archiver_send (exec_task s)). from_view as (fst mp)) \<and>
     (executor_alive s \<longrightarrow>
        (\<forall>xe\<in>views. cache_inv_over (codes_of views) (xe_version xe) (version_cache (exec_task s))))"

lemma from_view_append: "from_view as r \<Longrightarrow> from_view (as @ bs) r"
  by (auto simp: from_view_def)

lemma moving_inv_append: "moving_inv views rows as s \<Longrightarrow> moving_inv views rows (as @ bs) s"
  unfolding moving_inv_def using from_view_append [of as _ bs] by blast

lemma moving_executor:
  assumes node: "one_node views" "xe \<in> views" and run: "executor_archive xe n x = (r, x')" "\<not> is_panic r"
    and inv: "\<forall>xe\<in>views. cache_inv_over (codes_of views) (xe_version xe) (version_cache x)"
  shows "\<forall>xe\<in>views. cache_inv_over (codes_of views) (xe_version xe) (version_cache x')"
    and "mp \<in> set (archiver_send x') \<Longrightarrow> mp \<in> set (archiver_send x) \<or>
       bm_block_num (fst mp) = n \<and> faithful_row xe (fst mp)"
proof -
  have "chain_codes (xe_version xe) \<subseteq> codes_of views" "inj_on (make_hash (xe_version xe)) (codes_of views)"
    using node by (auto simp: codes_of_def one_node_def)
  note step = executor_faithful_over [OF run bspec [OF inv node(2)] this]
  show "\<forall>xe\<in>views. cache_inv_over (codes_of views) (xe_version xe) (version_cache x')"
  proof
    fix xe' assume "xe' \<in> views"
    with node have "same_tools (xe_version xe) (xe_version xe')" by (simp add: one_node_def)
    from same_tools_cache [OF this] step
    show "cache_inv_over (codes_of views) (xe_version xe') (version_cache x')" by simp
  qed
  show "mp \<in> set (archiver_send x) \<or> bm_block_num (fst mp) = n \<and> faithful_row xe (fst mp)"
    if "mp \<in> set (archiver_send x')" using step that by simp
qed

text \<open>Whatever a round of the notifier does, a new row is that of its message.\<close>

lemma notifier_row_cases:
  assumes "notifier_archive ne m p w = (r, w')" and "block_rows (db w') n = Some b"
  shows "block_rows (db w) n = Some b \<or> b = m \<and> n = bm_block_num m"
  using notifier_rows [of ne m p w] assms(2) unfolding assms(1) snd_conv
  by (elim disjE) (simp_all split: if_splits)

lemma moving_inv_notifier:
  assumes inv: "moving_inv views rows as s" and msg: "archiver_send (exec_task s) = (m, p) # q"
    and run: "notifier_archive ne m p (world s) = (r, w)"
  shows "moving_inv views rows as (s\<lparr>exec_task := (exec_task s)\<lparr>archiver_send := q\<rparr>, world := w, notifier_alive := v\<rparr>)"
proof -
  have "from_view as m" using inv msg by (simp add: moving_inv_def)
  then have "rows n = Some b \<or> bm_block_num b = n \<and> from_view as b" if "block_rows (db w) n = Some b" for n b
    using notifier_row_cases [OF run that] inv by (auto simp: moving_inv_def)
  with inv msg show ?thesis by (simp add: moving_inv_def)
qed

lemma moving_inv_step:
  assumes inv0: "moving_inv views rows as s" and step: "moving_step views ne s l t" and node: "one_node views"
  shows "moving_inv views rows (as @ [l]) t"
proof -
  obtain xe a where l: "l = (xe, a)" "xe \<in> views" "pipeline_step xe ne s a t"
    using step by (cases l) (auto simp: moving_step_def)
  have inv: "moving_inv views rows (as @ [l]) s" using inv0 by (rule moving_inv_append)
  from l(3) show ?thesis
  proof cases
    case (execute n q r x)
    then have "\<forall>xe\<in>views. cache_inv_over (codes_of views) (xe_version xe) (version_cache (exec_task s))"
      using inv by (simp add: moving_inv_def)
    note eff = moving_executor [OF node l(2) execute(5,6) this]
    have "from_view (as @ [l]) (fst mp)" if "mp \<in> set (archiver_send x)" for mp
    proof (cases "mp \<in> set (archiver_send (exec_task s))")
      case True
      with inv show ?thesis by (simp add: moving_inv_def)
    next
      case False
      with eff(2) [OF that] show ?thesis by (auto simp: from_view_def l(1) execute(1))
    qed
    with eff(1) inv execute(2) show ?thesis by (simp add: moving_inv_def)
  next
    case (execute_dies n q e x)
    with executor_effect [OF execute_dies(5)] inv show ?thesis by (simp add: moving_inv_def)
  next
    case (archive m p q r w)
    with moving_inv_notifier [OF inv archive(4,5), of True] show ?thesis by (simp add: moving_inv_def)
  next
    case (archive_dies m p q e w)
    with moving_inv_notifier [OF inv archive_dies(4,5), of False] show ?thesis by (simp add: moving_inv_def)
  next
    case (initialize n d)
    with inv initializer_run_rows [OF initialize(4)] show ?thesis by (simp add: moving_inv_def)
  next
    case (initialize_dies w d)
    with inv initializer_run_rows [OF initialize_dies(4)] show ?thesis by (simp add: moving_inv_def)
  qed (use inv in \<open>simp_all add: moving_inv_def\<close>)
qed

interpretation moving: trace_invariant "moving_step views ne"
  "\<lambda>s. started s \<and> block_rows (db (world s)) = rows"
  "\<lambda>as s. one_node views \<longrightarrow> moving_inv views rows as s" for views ne rows
proof unfold_locales
  show "one_node views \<longrightarrow> moving_inv views rows [] s"
    if "started s \<and> block_rows (db (world s)) = rows" for s
    using that by (auto simp: started_def moving_inv_def pipeline_start_def cache_inv_new)
qed (blast intro: moving_inv_step)

text \<open>A number that every task has left behind.\<close>

definition left_behind :: "u32 \<Rightarrow> BlockModel option \<Rightarrow> pipeline \<Rightarrow> bool" where
  "left_behind n r s \<longleftrightarrow> block_rows (db (world s)) n = r \<and> \<not> initializer_pending s \<and>
     (\<forall>m \<in> set (executor_recv s) \<union> set (comparer_send (exec_task s)) \<union> pending_numbers s. n < m)"

lemma left_behind_step:
  assumes inv: "left_behind n r s" and step: "pipeline_step xe ne s a t"
  shows "left_behind n r t"
proof -
  have rows: "block_rows (db (snd (notifier_archive ne m p (world s)))) n = r" if "n < bm_block_num m" for m p
    using notifier_rows [of ne m p "world s"] inv that by (auto simp: left_behind_def)
  from step show ?thesis
  proof cases
    case (execute k q r' x)
    from executor_effect [OF execute(5)] execute(6)
    have "set (comparer_send x) = insert k (set (comparer_send (exec_task s)))"
      "pending_numbers t \<subseteq> insert k (pending_numbers s)"
      by (auto simp: pending_numbers_def execute)
    with inv execute show ?thesis by (auto simp: left_behind_def)
  next
    case (execute_dies k q e x)
    with executor_effect [OF execute_dies(5)] inv show ?thesis by (auto simp: left_behind_def pending_numbers_def)
  next
    case (archive m p q r' w)
    then show ?thesis using rows [of m p] inv by (auto simp: left_behind_def pending_numbers_def)
  next
    case (archive_dies m p q e w)
    then show ?thesis using rows [of m p] inv by (auto simp: left_behind_def pending_numbers_def)
  next
    case (compare_next k q)
    have "k \<le> compare (best s) k" by (rule follows_le [OF follows_compare])
    with inv compare_next show ?thesis by (auto simp: left_behind_def pending_numbers_def)
  qed (use inv in \<open>auto simp: left_behind_def pending_numbers_def\<close>)
qed

interpretation behind: trace_invariant "moving_step views ne" "left_behind n r" "\<lambda>_. left_behind n r" for views ne n r
  by unfold_locales (auto simp: moving_step_def intro: left_behind_step)

lemma below_last_left_behind:
  assumes "order_inv as s" and "executed_numbers as \<noteq> []" and "n < last (executed_numbers as)"
    and "archiver_send (exec_task s) = []"
  shows "left_behind n (block_rows (db (world s)) n) s"
proof -
  have "n < m" if "m \<in> set (executor_recv s)" for m
  proof -
    from that assms(1) have "executor_recv s = [m]"
      by (cases "executor_recv s") (auto simp: order_inv_def tokens_def)
    with assms(1,2) have "follows (last (executed_numbers as)) m" by (simp add: order_inv_def successively_append_iff)
    with assms(3) show ?thesis by (auto dest: follows_le)
  qed
  with assms show ?thesis by (auto simp: left_behind_def order_inv_def pending_numbers_def)
qed

text \<open>The schema, and a hole below a stored row, on a chain that changes.\<close>

interpretation moving_schema: trace_invariant "moving_step views ne" "\<lambda>s. schema_inv (tables (db (world s)))"
  "\<lambda>_ s. schema_inv (tables (db (world s)))" for views ne
  by unfold_locales (auto simp: moving_step_def intro: schema.inv_step)

interpretation moving_gap: trace_invariant "moving_step views ne" "gap_inv j k" "\<lambda>_. gap_inv j k" for views ne j k
  by unfold_locales (auto simp: moving_step_def intro: gap_inv_step)

lemma gap_inv_restart:
  assumes "schema_inv (tables (db w))" and "j < k" and "block_rows (db w) j = None" and "block_rows (db w) k \<noteq> None"
  shows "gap_inv j k (pipeline_start False k0 w b)"
  using assms by (simp add: gap_inv_def pipeline_start_def pending_numbers_def)

text \<open>A dead executor.\<close>

definition executor_dead :: "u32 set \<Rightarrow> ('st, 'api) chain_event list \<Rightarrow> pipeline \<Rightarrow> bool" where
  "executor_dead rows as s \<longleftrightarrow> \<not> executor_alive s \<and> executed_numbers (map snd as) = [] \<and>
     dom (block_rows (db (world s))) \<union> pending_numbers s \<subseteq> rows"

lemma notifier_dom:
  "dom (block_rows (db (snd (notifier_archive ne m p w)))) \<subseteq> insert (bm_block_num m) (dom (block_rows (db w)))"
  using notifier_rows [of ne m p w] by auto

lemma executor_dead_step:
  assumes inv: "executor_dead rows as s" and step: "pipeline_step xe ne s a t"
  shows "executor_dead rows (as @ [(xe, a)]) t"
  using step
proof cases
  case (archive m p q r w)
  with inv notifier_dom [of ne m p "world s"] show ?thesis
    by (auto simp: executor_dead_def pending_numbers_def)
next
  case (archive_dies m p q e w)
  with inv notifier_dom [of ne m p "world s"] show ?thesis
    by (auto simp: executor_dead_def pending_numbers_def)
qed (use inv in \<open>auto simp: executor_dead_def pending_numbers_def dest!: initializer_run_rows\<close>)

interpretation dead: trace_invariant "moving_step views ne"
  "\<lambda>s. \<not> executor_alive s \<and> dom (block_rows (db (world s))) \<union> pending_numbers s \<subseteq> rows"
  "executor_dead rows" for views ne rows
proof unfold_locales
  show "executor_dead rows (as @ [l]) t" if "executor_dead rows as s" "moving_step views ne s l t" for as s l t
    using executor_dead_step [OF that(1), of "fst l" ne "snd l" t] that(2) by (simp add: moving_step_def)
qed (auto simp: executor_dead_def)

lemma executor_missing_block:
  assumes "core_get_block (xe_backend xe) n = Ok None" and "n \<noteq> 0"
  shows "is_panic (fst (executor_archive xe n x))"
  using assms by (simp add: executor_archive_def execute_block_and_into_storage_changes_def)

section \<open>From which chains a row comes\<close>

text \<open>A chain as the archive knows it: blocks and versions by number.\<close>

record archive_chain =
  ac_block :: "u32 \<Rightarrow> SignedBlock option"
  ac_version :: "u32 \<Rightarrow> RuntimeVersion option"

text \<open>Each of the four queries for a number was answered from a chain.\<close>

definition header_from :: "('st, 'api) exec_env \<Rightarrow> u32 \<Rightarrow> archive_chain \<Rightarrow> bool" where
  "header_from xe n c \<longleftrightarrow> bc_header (xe_backend xe) (Number n) = Ok (map_option (header \<circ> block) (ac_block c n))"

definition body_from :: "('st, 'api) exec_env \<Rightarrow> u32 \<Rightarrow> archive_chain \<Rightarrow> bool" where
  "body_from xe n c \<longleftrightarrow> bc_body (xe_backend xe) (Number n) = Ok (map_option (extrinsics \<circ> block) (ac_block c n))"

definition justifications_from :: "('st, 'api) exec_env \<Rightarrow> u32 \<Rightarrow> archive_chain \<Rightarrow> bool" where
  "justifications_from xe n c \<longleftrightarrow>
     bc_justifications (xe_backend xe) (Number n) = Ok (Option.bind (ac_block c n) justifications)"

definition version_from :: "('st, 'api) exec_env \<Rightarrow> u32 \<Rightarrow> archive_chain \<Rightarrow> bool" where
  "version_from xe n c \<longleftrightarrow>
     (\<forall>v. direct_version (xe_version xe) (Number n) = Ok (Some v) \<longrightarrow> ac_version c n = Some v)"

text \<open>Executing a block, without its seal, on the state of its parent.\<close>

definition executes_to :: "('st, 'api) exec_env \<Rightarrow> SignedBlock \<Rightarrow> StorageChanges \<Rightarrow> bool" where
  "executes_to xe sb sc \<longleftrightarrow> (let parent = parent_hash (header (block sb)) in
     \<exists>st. be_state_at (xe_backend xe) (Hash parent) = Ok st \<and>
       xe_into_storage_changes xe (xe_execute_block xe (Hash parent) (unsealed (block sb))) st parent = Ok sc)"

text \<open>A row put together from four chains, and the row of one chain's own block.\<close>

definition row_from_parts ::
  "('st, 'api) exec_env \<Rightarrow> u32 \<Rightarrow> archive_chain \<Rightarrow> archive_chain \<Rightarrow> archive_chain \<Rightarrow> archive_chain \<Rightarrow>
     BlockModel \<Rightarrow> bool" where
  "row_from_parts xe n ch cb cj cv r \<longleftrightarrow> (\<exists>sh sb v sc. ac_block ch n = Some sh \<and> ac_block cb n = Some sb \<and>
     ac_version cv n = Some v \<and>
     (let whole = \<lparr>block = \<lparr>header = header (block sh), extrinsics = extrinsics (block sb)\<rparr>,
                   justifications = Option.bind (ac_block cj n) justifications\<rparr> in
      executes_to xe whole sc \<and> r = block_model xe (spec_version v) n sc whole))"

definition row_from_chain :: "('st, 'api) exec_env \<Rightarrow> u32 \<Rightarrow> archive_chain \<Rightarrow> BlockModel \<Rightarrow> bool" where
  "row_from_chain xe n c r \<longleftrightarrow> (\<exists>sb v sc. ac_block c n = Some sb \<and> ac_version c n = Some v \<and>
     executes_to xe sb sc \<and> r = block_model xe (spec_version v) n sc sb)"

lemma signed_block_whole:
  "\<lparr>block = \<lparr>header = header (block sb), extrinsics = extrinsics (block sb)\<rparr>, justifications = justifications sb\<rparr>
    = (sb :: SignedBlock)"
  by (rule SignedBlock.equality; simp)

lemma parts_of_one_chain: "row_from_parts xe n c c c c r \<longleftrightarrow> row_from_chain xe n c r"
  by (auto simp: row_from_parts_def row_from_chain_def signed_block_whole)

lemma faithful_parts:
  assumes "faithful_row xe r" and "bm_block_num r = n"
    and "header_from xe n ch" "body_from xe n cb" "justifications_from xe n cj" "version_from xe n cv"
  shows "row_from_parts xe n ch cb cj cv r"
proof -
  obtain sc sb v where ex: "execute_block_and_into_storage_changes xe n = Ok (Some (sc, sb))"
    and v: "direct_version (xe_version xe) (Number n) = Ok (Some v)"
    and r: "r = block_model xe (spec_version v) n sc sb"
    using assms(1,2) unfolding faithful_row_def by blast
  have "executes_to xe sb sc" using execute_SomeD(2) [OF ex] by (simp add: executes_to_def Let_def)
  moreover have get: "core_get_block (xe_backend xe) n = Ok (Some sb)"
    using ex by (cases rule: core.get_block_cases [of "xe_backend xe" n])
      (auto simp: execute_block_and_into_storage_changes_def Let_def split: result.splits)
  have "\<exists>sh sb'. ac_block ch n = Some sh \<and> ac_block cb n = Some sb' \<and>
      sb = \<lparr>block = \<lparr>header = header (block sh), extrinsics = extrinsics (block sb')\<rparr>,
            justifications = Option.bind (ac_block cj n) justifications\<rparr>"
    using get assms(3-5)
    by (cases "ac_block ch n"; cases "ac_block cb n")
       (auto simp: core_get_block_def header_from_def body_from_def justifications_from_def)
  ultimately show ?thesis
    using r v assms(6) unfolding row_from_parts_def version_from_def Let_def by blast
qed

section \<open>Properties\<close>

text \<open>C9: however the chain changes while the archive runs, even while the executor handles a number, a
  row that the run wrote comes from one handling of its number: its header, body, justifications and
  version are those of the chains that were current when each was read, and its changes are those of
  executing the block put together from them. When no reorganisation falls into the handling, these are
  one chain, and the row is that of the chain's own block and version; when one does, the row mixes
  the forks.\<close>

theorem rows_come_from_views:
  assumes "runs (moving_step views ne) (pipeline_start f k w b) as t" and "one_node views"
    and "block_rows (db (world t)) n = Some r"
  shows "block_rows (db w) n = Some r \<or>
    bm_block_num r = n \<and> (\<exists>xe. (xe, Executed n) \<in> set as \<and> faithful_row xe r \<and>
      (\<forall>ch cb cj cv. header_from xe n ch \<and> body_from xe n cb \<and> justifications_from xe n cj \<and> version_from xe n cv \<longrightarrow>
        row_from_parts xe n ch cb cj cv r) \<and>
      (\<forall>c. header_from xe n c \<and> body_from xe n c \<and> justifications_from xe n c \<and> version_from xe n c \<longrightarrow>
        row_from_chain xe n c r))"
proof -
  have "moving_inv views (block_rows (db w)) as t"
    using moving.inv_runs [OF assms(1), of "block_rows (db w)"] assms(2) by simp
  with assms(3) consider "block_rows (db w) n = Some r"
    | xe where "bm_block_num r = n" "(xe, Executed n) \<in> set as" "faithful_row xe r"
    by (auto simp: moving_inv_def from_view_def)
  then show ?thesis
  proof cases
    case (2 xe)
    with faithful_parts [OF 2(3,1)] parts_of_one_chain show ?thesis by blast
  qed blast
qed

text \<open>C12: a fork is never repaired: once the executor is past a number and the notifier has caught up,
  the row of that number stays as it is, whatever the chain becomes. If a fork has replaced the block,
  the database disagrees with the chain from then on.\<close>

theorem retracted_rows_stay:
  assumes "runs (moving_step views ne) (pipeline_start f k w b) as s"
    and "executed_numbers (map snd as) \<noteq> []" and "n < last (executed_numbers (map snd as))"
    and "archiver_send (exec_task s) = []" and "block_rows (db (world s)) n = Some r"
    and "runs (moving_step views ne) s bs t" and "\<not> faithful_row fork r"
  shows "block_rows (db (world t)) n = Some r \<and> \<not> faithful_db fork (db (world t))"
proof -
  have "order_inv (map snd as) s" using moving_order.inv_runs [OF assms(1)] by simp
  from below_last_left_behind [OF this assms(2-4)] behind.inv_runs [OF assms(6)] assms(5)
  have "block_rows (db (world t)) n = Some r" by (auto simp: left_behind_def)
  with assms(7) show ?thesis by (auto simp: faithful_db_def)
qed

text \<open>C13: the executor asks its own database for the number that the comparer took from the main one. If
  that database does not have the block yet, the executor dies; nothing is executed any more and no
  number is stored that was not stored or on its way already, whatever the chain does afterwards.\<close>

theorem missing_block_ends_archive:
  assumes "moving_step views ne s (xe, a) u" and "a = Executed m \<or> a = Executor_died m"
    and "executor_recv s = n # q" and "n \<noteq> 0" and "core_get_block (xe_backend xe) n = Ok None"
    and "runs (moving_step views ne) u bs t"
  shows "a = Executor_died n \<and> executed_numbers (map snd bs) = [] \<and>
    dom (block_rows (db (world t))) \<subseteq> dom (block_rows (db (world s))) \<union> pending_numbers s"
proof -
  have step: "pipeline_step xe ne s a u" using assms(1) by (simp add: moving_step_def)
  note dies = executor_missing_block [OF assms(5,4)]
  have u: "a = Executor_died n \<and> \<not> executor_alive u \<and> db (world u) = db (world s) \<and> pending_numbers u = pending_numbers s"
    using step
  proof cases
    case (execute n' q' r x)
    then show ?thesis using assms(3) dies [of "exec_task s"] by simp
  next
    case (execute_dies n' q' e x)
    with executor_effect [OF execute_dies(5)] assms(3) show ?thesis by (simp add: pending_numbers_def)
  qed (use assms(2) in auto)
  let ?rows = "dom (block_rows (db (world s))) \<union> pending_numbers s"
  have "executor_dead ?rows bs t" by (rule dead.inv_runs [OF assms(6)]) (simp add: u)
  with u show ?thesis by (simp add: executor_dead_def)
qed

text \<open>C29: a block whose archiving failed is skipped for good. Once the executor is past a number and the
  notifier has caught up without a row for it, no later moment of the run stores it, whatever the chain,
  Postgres and Kafka do; and once a greater number is stored, no restart without the reset flag does
  either, in any environment.\<close>

theorem skipped_block_never_archived:
  assumes "runs (moving_step views ne) (pipeline_start f k w b) as s" and "schema_inv (tables (db w))"
    and "executed_numbers (map snd as) \<noteq> []" and "n < last (executed_numbers (map snd as))"
    and "archiver_send (exec_task s) = []" and "block_rows (db (world s)) n = None"
    and "runs (moving_step views ne) s bs t"
  shows "block_rows (db (world t)) n = None \<and>
    (\<forall>j w' views' ne' k0 b' cs u. n < j \<and> block_rows (db (world t)) j \<noteq> None \<and> db w' = db (world t) \<and>
       runs (moving_step views' ne') (pipeline_start False k0 w' b') cs u \<longrightarrow> block_rows (db (world u)) n = None)"
proof -
  have "order_inv (map snd as) s" using moving_order.inv_runs [OF assms(1)] by simp
  from below_last_left_behind [OF this assms(3-5)] behind.inv_runs [OF assms(7)] assms(6)
  have none: "block_rows (db (world t)) n = None" by (auto simp: left_behind_def)
  have "schema_inv (tables (db (world s)))" using moving_schema.inv_runs [OF assms(1)] assms(2) by simp
  then have sch: "schema_inv (tables (db (world t)))" by (rule moving_schema.inv_runs [OF assms(7)])
  have "block_rows (db (world u)) n = None"
    if "n < j" "block_rows (db (world t)) j \<noteq> None" "db w' = db (world t)"
      "runs (moving_step views' ne') (pipeline_start False k0 w' b') cs u" for j w' views' ne' k0 b' cs u
    using moving_gap.inv_runs [OF that(4) gap_inv_restart] that(1-3) sch none by (auto simp: gap_inv_def)
  with none show ?thesis by blast
qed

section \<open>A fork on the concrete chain\<close>

text \<open>A run over one view is a run over a chain that could have changed.\<close>

lemma runs_moving:
  "runs (pipeline_step xe ne) s as t \<Longrightarrow> xe \<in> views \<Longrightarrow> runs (moving_step views ne) s (map (Pair xe) as) t"
  by (induction rule: runs.induct) (auto simp: moving_step_def intro: runs.intros)

definition demo_fork :: "(unit, Block) exec_env" where
  "demo_fork = demo_exec_env\<lparr>xe_backend := demo_backend\<lparr>bc_body := (\<lambda>_. Ok (Some [[8]]))\<rparr>\<rparr>"

abbreviation demo_views :: "(unit, Block) exec_env set" where
  "demo_views \<equiv> {demo_exec_env, demo_fork}"

lemma demo_one_node: "one_node demo_views"
  using demo_version_collision_free
  by (simp add: one_node_def same_tools_def codes_of_def demo_fork_def demo_exec_env_def collision_free_def)

lemma demo_not_on_fork: "\<not> faithful_row demo_fork (fst (demo_message 3))"
proof
  assume "faithful_row demo_fork (fst (demo_message 3))"
  then obtain sc sb and v :: RuntimeVersion where ex: "execute_block_and_into_storage_changes demo_fork 3 = Ok (Some (sc, sb))"
    and m: "fst (demo_message 3) = block_model demo_fork (spec_version v) 3 sc sb"
    unfolding faithful_row_def demo_message_nums(1) by blast
  from execute_SomeD(1) [OF ex] have "block sb = \<lparr>header = demo_header 3, extrinsics = [[8]]\<rparr>"
    by (auto simp: backend_block_def demo_fork_def demo_backend_def)
  then have "extrinsics (block sb) = [[8]]" by simp
  then have "bm_extrinsics (fst (demo_message 3)) = [[8]]"
    unfolding m by (simp add: block_model_def Let_def demo_fork_def demo_exec_env_def)
  then show False by (simp add: demo_message_def block_model_def Let_def demo_exec_env_def)
qed

lemma demo_moving_run:
  obtains t where "runs (moving_step demo_views (demo_notify_env no_faults)) (pipeline_start True 3 empty_world 9)
      (map (Pair demo_exec_env) demo_trace) t"
    "archiver_send (exec_task t) = []" "block_rows (db (world t)) 3 = Some (fst (demo_message 3))"
    "comparer_send (exec_task t) = [4]"
  using demo_reliable_run runs_moving [of demo_exec_env _ _ _ _ demo_views] by (metis insertI1)

text \<open>Two chains that differ in the body of every block, and a handling of block 3 that got its header
  from the one and its body from the other: the stored row is neither chain's.\<close>

definition demo_chain :: "bytes \<Rightarrow> archive_chain" where
  "demo_chain e = \<lparr>ac_block = (\<lambda>n. Some \<lparr>block = \<lparr>header = demo_header n, extrinsics = [e]\<rparr>, justifications = None\<rparr>),
     ac_version = (\<lambda>_. Some (demo_version 265))\<rparr>"

lemma demo_answers:
  "header_from demo_fork n (demo_chain e)" "body_from demo_fork n (demo_chain [8])"
  "justifications_from demo_fork n (demo_chain e)" "version_from demo_fork n (demo_chain e)"
  by (simp_all add: header_from_def body_from_def justifications_from_def version_from_def demo_chain_def
      demo_fork_def demo_exec_env_def demo_backend_def demo_direct_version)

lemma demo_fork_run:
  obtains t r where "runs (moving_step demo_views (demo_notify_env no_faults)) (pipeline_start True 3 empty_world 9)
      [(demo_fork, Executed 3), (demo_fork, Archived 3 True)] t"
    "block_rows (db (world t)) 3 = Some r"
proof -
  let ?ne = "demo_notify_env no_faults" and ?s0 = "pipeline_start True 3 empty_world 9"
  have env: "xe_version demo_fork = demo_version_env" by (simp add: demo_fork_def demo_exec_env_def)
  obtain c where "get_by_id demo_version_env (Number 3) version_cache_new = (Ok (Some (demo_version 265)), c)"
    using demo_get_by_id [OF cache_inv_new, of "Number 3"] by blast
  moreover obtain sb sc where "execute_block_and_into_storage_changes demo_fork 3 = Ok (Some (sc, sb))"
    by (simp add: execute_block_and_into_storage_changes_def core_get_block_def core_get_state_def
        demo_fork_def demo_exec_env_def demo_backend_def Let_def)
  ultimately obtain x where x: "executor_archive demo_fork 3 (exec_task ?s0) = (Ok (), x)"
    "archiver_send x = [(block_model demo_fork 265 3 sc sb, block_payload demo_fork 265 3 sc sb)]"
    by (simp add: executor_archive_def pbind_def spec_version_of_def send_archiver_def send_comparer_def env
        pipeline_start_def demo_version_def)
  define m where "m = block_model demo_fork 265 3 sc sb"
  have num: "bm_block_num m = 3" "bm_spec_version m = 265" by (simp_all add: m_def block_model_def Let_def)
  let ?s1 = "?s0\<lparr>executor_recv := [], exec_task := x\<rparr>"
  have "moving_step demo_views ?ne ?s0 (demo_fork, Executed 3) ?s1"
    using execute [of ?s0 3 "[]" demo_fork "Ok ()" x ?ne] x(1) by (simp add: moving_step_def pipeline_start_def)
  then have 1: "runs (moving_step demo_views ?ne) ?s0 [(demo_fork, Executed 3)] ?s1"
    by (rule runs_step [OF runs_Nil]) simp
  obtain w where w: "notifier_archive ?ne m (block_payload demo_fork 265 3 sc sb) (world ?s1) = (Ok (), w)"
    using notifier_archive_total [OF demo_notify_reliable, of m] num by auto
  let ?t = "?s1\<lparr>exec_task := x\<lparr>archiver_send := []\<rparr>, world := w\<rparr>"
  have "pipeline_step demo_fork ?ne ?s1 (Archived (bm_block_num m) (is_ok (Ok () :: (blockchain_error, unit) result))) ?t"
    using archive [of ?s1 m _ "[]", OF _ _ w] x(2) by (simp add: m_def pipeline_start_def)
  then have "moving_step demo_views ?ne ?s1 (demo_fork, Archived 3 True) ?t" by (simp add: moving_step_def num)
  with 1 have 2: "runs (moving_step demo_views ?ne) ?s0 [(demo_fork, Executed 3), (demo_fork, Archived 3 True)] ?t"
    by (rule runs_step) simp
  show ?thesis using notifier_archive_ok(1) [OF w] num by (intro that [OF 2]) simp
qed

theorem rows_come_from_views_witness:
  "\<exists>t r. runs (moving_step demo_views (demo_notify_env no_faults)) (pipeline_start True 3 empty_world 9)
      [(demo_fork, Executed 3), (demo_fork, Archived 3 True)] t \<and>
     block_rows (db (world t)) 3 = Some r \<and>
     row_from_parts demo_fork 3 (demo_chain [7]) (demo_chain [8]) (demo_chain [7]) (demo_chain [7]) r"
proof -
  obtain t r where t: "runs (moving_step demo_views (demo_notify_env no_faults)) (pipeline_start True 3 empty_world 9)
      [(demo_fork, Executed 3), (demo_fork, Archived 3 True)] t" "block_rows (db (world t)) 3 = Some r"
    by (rule demo_fork_run)
  have "block_rows (db empty_world) 3 = None"
    by (simp add: empty_world_def block_rows_def create_tables_def rows_by_def)
  with rows_come_from_views [OF t(1) demo_one_node t(2)] demo_answers [of 3] t show ?thesis by auto
qed

theorem retracted_rows_stay_witness:
  "\<exists>s t. runs (moving_step demo_views (demo_notify_env no_faults)) (pipeline_start True 3 empty_world 9)
      (map (Pair demo_exec_env) demo_trace) s \<and>
     runs (moving_step demo_views (demo_notify_env no_faults)) s [(demo_fork, Imported 10), (demo_fork, Compared 4)] t \<and>
     \<not> faithful_db demo_fork (db (world t))"
proof -
  let ?step = "moving_step demo_views (demo_notify_env no_faults)"
  obtain s where s: "runs ?step (pipeline_start True 3 empty_world 9) (map (Pair demo_exec_env) demo_trace) s"
    "archiver_send (exec_task s) = []" "block_rows (db (world s)) 3 = Some (fst (demo_message 3))"
    "comparer_send (exec_task s) = [4]"
    by (rule demo_moving_run)
  have "?step s (demo_fork, Imported 10) (s\<lparr>best := 10\<rparr>)" by (simp add: moving_step_def import_block)
  then have 1: "runs ?step s [(demo_fork, Imported 10)] (s\<lparr>best := 10\<rparr>)" by (rule runs_step [OF runs_Nil]) simp
  obtain t where "?step (s\<lparr>best := 10\<rparr>) (demo_fork, Compared 4) t"
    using compare_next [of "s\<lparr>best := 10\<rparr>" 4 "[]"] s(4) by (force simp: moving_step_def)
  with 1 have 2: "runs ?step s [(demo_fork, Imported 10), (demo_fork, Compared 4)] t" by (rule runs_step) simp
  have nums: "executed_numbers (map snd (map (Pair demo_exec_env) demo_trace)) \<noteq> []"
    "3 < last (executed_numbers (map snd (map (Pair demo_exec_env) demo_trace)))" by simp_all
  from retracted_rows_stay [OF s(1) nums s(2,3) 2 demo_not_on_fork] s(1) 2 show ?thesis by blast
qed

text \<open>A lost Kafka delivery leaves block 3 out; a restart resumes at block 4.\<close>

theorem skipped_block_never_archived_witness:
  "\<exists>t n u. runs (moving_step demo_views (demo_notify_env lost_first)) (pipeline_start True 3 empty_world 9)
      (map (Pair demo_exec_env) [Executed 3, Compared 3, Executed 4, Archived 3 False, Archived 4 True]) t \<and>
     block_rows (db (world t)) 4 \<noteq> None \<and>
     moving_step demo_views (demo_notify_env no_faults) (pipeline_start False 0 (world t) 9) (demo_exec_env, Initialized n) u \<and>
     4 \<le> n \<and> block_rows (db (world u)) 3 = None"
proof -
  let ?as = "[Executed 3, Compared 3, Executed 4, Archived 3 False, Archived 4 True]"
  obtain t where t: "runs (pipeline_step demo_exec_env (demo_notify_env lost_first)) (pipeline_start True 3 empty_world 9) ?as t"
    "archiver_send (exec_task t) = []" "block_rows (db (world t)) 3 = None" "block_rows (db (world t)) 4 \<noteq> None"
    using gap_arises by blast
  have run: "runs (moving_step demo_views (demo_notify_env lost_first)) (pipeline_start True 3 empty_world 9)
      (map (Pair demo_exec_env) ?as) t"
    by (rule runs_moving [OF t(1)]) simp
  have nums: "executed_numbers (map snd (map (Pair demo_exec_env) ?as)) \<noteq> []"
    "3 < last (executed_numbers (map snd (map (Pair demo_exec_env) ?as)))" by simp_all
  let ?s = "pipeline_start False 0 (world t) 9"
  have "schema_inv (tables (db (world t)))"
    using schema.inv_runs [OF t(1)] demo_chain_facts(4) by simp
  moreover obtain n d where init: "initializer_run (ne_pg (demo_notify_env no_faults)) (db (world t)) = (Ok n, d)"
    by (simp add: initializer_run_def max_block_num_def call_no_faults demo_notify_env_def pg_ok_def
        max_block_num_stmt_def)
  ultimately have ge: "4 \<le> n" using initializer_ge t(4) by blast
  from init obtain u where u: "moving_step demo_views (demo_notify_env no_faults) ?s (demo_exec_env, Initialized n) u"
    using initialize [of ?s "demo_notify_env no_faults" n d demo_exec_env] by (auto simp: moving_step_def pipeline_start_def)
  from u have "runs (moving_step demo_views (demo_notify_env no_faults)) ?s [(demo_exec_env, Initialized n)] u"
    by (rule runs_step [OF runs_Nil]) simp
  moreover have "(3::u32) < 4" by simp
  ultimately have "block_rows (db (world u)) 3 = None"
    using skipped_block_never_archived [OF run demo_chain_facts(4) nums t(2,3) runs_Nil] t(4) by blast
  with run t(4) u ge show ?thesis by blast
qed

text \<open>The database of the executor has no block 3 yet.\<close>

definition demo_behind :: "(unit, Block) exec_env" where
  "demo_behind = demo_exec_env\<lparr>xe_backend := demo_backend\<lparr>bc_header := (\<lambda>_. Ok None)\<rparr>\<rparr>"

theorem missing_block_ends_archive_witness:
  "\<exists>u. moving_step {demo_behind} (demo_notify_env no_faults) (pipeline_start True 3 empty_world 9) (demo_behind, Executor_died 3) u \<and>
     dom (block_rows (db (world u))) = {}"
proof -
  let ?s = "pipeline_start True 3 empty_world 9"
  have none: "core_get_block (xe_backend demo_behind) 3 = Ok None"
    by (simp add: core_get_block_def demo_behind_def demo_backend_def)
  obtain e x where ex: "executor_archive demo_behind 3 (exec_task ?s) = (Panic e, x)"
    using executor_missing_block [OF none, of "exec_task ?s"]
    by (cases "executor_archive demo_behind 3 (exec_task ?s)"; cases "fst (executor_archive demo_behind 3 (exec_task ?s))") auto
  obtain u where u: "moving_step {demo_behind} (demo_notify_env no_faults) ?s (demo_behind, Executor_died 3) u"
    using execute_dies [OF _ _ ex, of "[]" "demo_notify_env no_faults"]
    by (auto simp: moving_step_def pipeline_start_def)
  have recv: "executor_recv ?s = 3 # []" by (simp add: pipeline_start_def)
  have "block_rows (db empty_world) = Map.empty"
    by (simp add: empty_world_def block_rows_def create_tables_def rows_by_def)
  with missing_block_ends_archive [OF u _ recv _ none runs_Nil] have "dom (block_rows (db (world u))) = {}"
    by (auto simp: pipeline_start_def pending_numbers_def)
  with u show ?thesis by blast
qed

end
