(* ===== verification/Archive_Progress.thy ===== *)
theory Archive_Progress
  imports Chain_Growth
begin

text \<open>
  The archive moves on: as long as the chain has the blocks it is asked for, one of its tasks can always
  take a step, and each block the executor completes brings it nearer to the best block of the chain.
\<close>

section \<open>Chains that can be executed\<close>

text \<open>A block that the executor completes: its execution yields storage changes and its code has a
  version; block 0 may lack the changes.\<close>

definition executable :: "('st, 'api) exec_env \<Rightarrow> u32 \<Rightarrow> bool" where
  "executable xe n \<longleftrightarrow>
     (\<exists>sc sb v. execute_block_and_into_storage_changes xe n = Ok (Some (sc, sb)) \<and>
        direct_version (xe_version xe) (Number n) = Ok (Some v)) \<or>
     n = 0 \<and> execute_block_and_into_storage_changes xe n = Ok None"

lemma executable_archives:
  assumes "executable xe n" and "cache_inv_over codes (xe_version xe) (version_cache x)"
    and "chain_codes (xe_version xe) \<subseteq> codes" and "inj_on (make_hash (xe_version xe)) codes"
  shows "\<exists>x'. executor_archive xe n x = (Ok (), x')"
proof -
  obtain r c where get: "get_by_id (xe_version xe) (Number n) (version_cache x) = (r, c)"
    by (cases "get_by_id (xe_version xe) (Number n) (version_cache x)")
  then have "r = direct_version (xe_version xe) (Number n)"
    using get_by_id_direct_over [OF assms(2-4), of "Number n"] by simp
  with get assms(1) show ?thesis
    by (auto simp: executable_def executor_archive_def pbind_def spec_version_of_def send_archiver_def send_comparer_def)
qed

section \<open>Liveness of the tasks\<close>

definition imports_within :: "u32 \<Rightarrow> event list \<Rightarrow> bool" where
  "imports_within hmax as \<longleftrightarrow> (\<forall>m. Imported m \<in> set as \<longrightarrow> m \<le> hmax)"

text \<open>The number the archive starts with is within a height: the configured one with the reset flag,
  otherwise what the initializer finds in the database.\<close>

definition start_within :: "u32 \<Rightarrow> bool \<Rightarrow> u32 \<Rightarrow> pg \<Rightarrow> bool" where
  "start_within hmax f k d \<longleftrightarrow>
     (if f then k \<le> hmax else schema_inv (tables d) \<and> (\<forall>n\<in>dom (block_rows d). n \<le> hmax))"

text \<open>The initializer has died, or is still to run, or has passed its number on.\<close>

definition live_inv ::
  "('st, 'api) exec_env set \<Rightarrow> u32 \<Rightarrow> bool \<Rightarrow> event list \<Rightarrow> pipeline \<Rightarrow> bool" where
  "live_inv views hmax f as s \<longleftrightarrow> executor_alive s \<and> best s \<le> hmax \<and>
     (\<forall>xe\<in>views. cache_inv_over (codes_of views) (xe_version xe) (version_cache (exec_task s))) \<and>
     (if Initializer_died \<in> set as then
        \<not> f \<and> tokens s = 0 \<and> executed_numbers as = []
      else if initializer_pending s then
        \<not> f \<and> tokens s = 1 \<and> archiver_send (exec_task s) = [] \<and> executed_numbers as = [] \<and>
        start_within hmax False 0 (db (world s))
      else tokens s = 1 \<and> (\<forall>n \<in> set (executor_recv s) \<union> set (comparer_send (exec_task s)). n \<le> hmax))"

lemma one_node_codes:
  assumes "one_node views" and "xe \<in> views"
  shows "chain_codes (xe_version xe) \<subseteq> codes_of views" "inj_on (make_hash (xe_version xe)) (codes_of views)"
  using assms by (auto simp: codes_of_def one_node_def)

lemma compare_within: "n \<le> hmax \<Longrightarrow> b \<le> hmax \<Longrightarrow> compare b n \<le> hmax"
  by (auto simp: compare_def inc_le intro: order.trans)

lemma initializer_within:
  assumes "start_within hmax False k0 d" and "initializer_run e d = (Ok n, d')"
  shows "n \<le> hmax"
  using initializer_resumes [of d e] assms by (auto simp: start_within_def split: if_splits)

lemma initializer_can_step:
  assumes "start_within hmax False k0 (db (world s))" and "initializer_pending s"
  shows "\<exists>a u. pipeline_step xe ne s a u \<and> (a = Initializer_died \<or> (\<exists>n. a = Initialized n))"
proof -
  obtain r d where run: "initializer_run (ne_pg ne) (db (world s)) = (r, d)" by fastforce
  have "r \<noteq> Err e" for e
    using initializer_resumes [of "db (world s)" "ne_pg ne"] assms(1) run
    by (cases r) (auto simp: start_within_def)
  then show ?thesis
    using run initialize [OF assms(2)] initialize_dies [OF assms(2)] by (cases r) fastforce+
qed

lemma live_inv_executes:
  assumes "live_inv views hmax f as s" and "one_node views" and "\<forall>xe\<in>views. \<forall>n\<le>hmax. executable xe n"
    and "xe \<in> views" and "executor_recv s = n # q"
  shows "\<exists>x'. executor_archive xe n (exec_task s) = (Ok (), x')"
proof -
  have "n \<le> hmax" using assms(1,5) by (auto simp: live_inv_def tokens_def split: if_splits)
  with assms one_node_codes [OF assms(2,4)] show ?thesis
    by (intro executable_archives [of xe n "codes_of views"]) (auto simp: live_inv_def)
qed

lemma live_inv_step:
  assumes inv: "live_inv views hmax f (map snd as) s" and step: "moving_step views ne s l t" and node: "one_node views"
    and can: "\<forall>xe\<in>views. \<forall>n\<le>hmax. executable xe n" and "imports_within hmax (map snd (as @ [l]))"
  shows "live_inv views hmax f (map snd (as @ [l])) t"
proof -
  obtain xe a where l: "l = (xe, a)" "xe \<in> views" "pipeline_step xe ne s a t"
    using step by (cases l) (auto simp: moving_step_def)
  from l(3) show ?thesis
  proof cases
    case (initialize n d)
    have fresh: "Initializer_died \<notin> set (map snd as)" using inv initialize(3) by (auto simp: live_inv_def tokens_def split: if_splits)
    with inv initialize(3) have "start_within hmax False 0 (db (world s))" by (simp add: live_inv_def)
    from initializer_within [OF this initialize(4)] inv initialize fresh show ?thesis
      by (auto simp: live_inv_def tokens_def l(1))
  next
    case (initialize_dies w d)
    with inv show ?thesis by (auto simp: live_inv_def tokens_def l(1) split: if_splits)
  next
    case (execute n q r x)
    have "\<forall>xe\<in>views. cache_inv_over (codes_of views) (xe_version xe) (version_cache (exec_task s))"
      using inv by (simp add: live_inv_def)
    note cache = moving_executor(1) [OF node l(2) execute(5,6) this]
    from executor_effect [OF execute(5)] execute(6) have "comparer_send x = comparer_send (exec_task s) @ [n]" by simp
    with cache inv execute show ?thesis by (auto simp: live_inv_def tokens_def l(1) split: if_splits)
  next
    case (execute_dies n q e x)
    with live_inv_executes [OF inv node can l(2) execute_dies(4)] show ?thesis by simp
  next
    case (compare_next n q)
    with inv have "compare (best s) n \<le> hmax"
      by (intro compare_within) (auto simp: live_inv_def tokens_def split: if_splits)
    with inv compare_next show ?thesis by (auto simp: live_inv_def tokens_def l(1) split: if_splits)
  next
    case (import_block b)
    with assms(5) l(1) have "b \<le> hmax" by (simp add: imports_within_def)
    with inv import_block show ?thesis by (auto simp: live_inv_def tokens_def l(1) split: if_splits)
  qed (use inv in \<open>auto simp: live_inv_def tokens_def l(1) split: if_splits\<close>)
qed

interpretation live: trace_invariant "moving_step views ne"
  "\<lambda>s. \<exists>k w b. s = pipeline_start f k w b \<and> start_within hmax f k (db w) \<and> b \<le> hmax"
  "\<lambda>as s. one_node views \<and> (\<forall>xe\<in>views. \<forall>n\<le>hmax. executable xe n) \<and> imports_within hmax (map snd as) \<longrightarrow>
     live_inv views hmax f (map snd as) s" for views ne hmax f
proof unfold_locales
  show "one_node views \<and> (\<forall>xe\<in>views. \<forall>n\<le>hmax. executable xe n) \<and> imports_within hmax (map snd []) \<longrightarrow>
      live_inv views hmax f (map snd []) s"
    if "\<exists>k w b. s = pipeline_start f k w b \<and> start_within hmax f k (db w) \<and> b \<le> hmax" for s
    using that by (cases f) (auto simp: live_inv_def tokens_def pipeline_start_def start_within_def cache_inv_new)
  show "one_node views \<and> (\<forall>xe\<in>views. \<forall>n\<le>hmax. executable xe n) \<and> imports_within hmax (map snd (as @ [l])) \<longrightarrow>
      live_inv views hmax f (map snd (as @ [l])) t"
    if "one_node views \<and> (\<forall>xe\<in>views. \<forall>n\<le>hmax. executable xe n) \<and> imports_within hmax (map snd as) \<longrightarrow>
      live_inv views hmax f (map snd as) s" "moving_step views ne s l t" for as s l t
    using that live_inv_step [of views hmax f as s ne l t] by (auto simp: imports_within_def)
qed

section \<open>Every completed block is progress\<close>

definition imports_from :: "u32 \<Rightarrow> event list \<Rightarrow> bool" where
  "imports_from m as \<longleftrightarrow> (\<forall>b. Imported b \<in> set as \<longrightarrow> m \<le> b)"

text \<open>The i-th number is at least i above the first, until the number m is reached.\<close>

definition advances :: "u32 \<Rightarrow> u32 \<Rightarrow> u32 list \<Rightarrow> bool" where
  "advances k m ns \<longleftrightarrow> (\<forall>i < length ns. min (unat k + i) (unat m) \<le> unat (ns ! i))"

definition advance_inv :: "u32 \<Rightarrow> event list \<Rightarrow> pipeline \<Rightarrow> bool" where
  "advance_inv m as s \<longleftrightarrow> order_inv as s \<and> m \<le> best s \<and>
     (let ns = executed_numbers as @ executor_recv s in advances (hd ns) m ns)"

lemma advances_append: "advances k m (ns @ [n]) \<longleftrightarrow> advances k m ns \<and> min (unat k + length ns) (unat m) \<le> unat n"
  by (auto simp: advances_def nth_append less_Suc_eq)

lemma advances_prefix:
  assumes "advances k m (ns @ ms)"
  shows "advances k m ns"
  unfolding advances_def
proof (intro allI impI)
  fix i assume "i < length ns"
  with assms show "min (unat k + i) (unat m) \<le> unat (ns ! i)"
    unfolding advances_def by (auto simp: nth_append dest!: spec [of _ i])
qed

lemma advances_compare:
  assumes "advances k m ns" and "ns \<noteq> []" and "m \<le> b"
  shows "advances k m (ns @ [compare b (last ns)])"
proof -
  have "min (unat k + (length ns - 1)) (unat m) \<le> unat (last ns)"
    using assms(1,2) by (simp add: advances_def last_conv_nth)
  moreover have "unat (compare b (last ns)) = (if last ns < b then unat (last ns) + 1 else unat (last ns))"
    using compare_unat [of "last ns" b] by (simp add: compare_def)
  moreover have "unat m \<le> unat b" using assms(3) by (simp add: word_le_nat_alt)
  moreover have "length ns > 0" using assms(2) by simp
  ultimately have "min (unat k + length ns) (unat m) \<le> unat (compare b (last ns))"
    by (auto simp: min_def word_less_nat_alt split: if_splits)
  with assms(1) show ?thesis by (simp add: advances_append)
qed

lemma advance_inv_step:
  assumes inv: "advance_inv m as s" and step: "pipeline_step xe ne s a t" and imp: "imports_from m (as @ [a])"
  shows "advance_inv m (as @ [a]) t"
proof -
  have ord: "order_inv as s" "order_inv (as @ [a]) t"
    using inv order_inv_step [OF _ step] by (simp_all add: advance_inv_def)
  from step show ?thesis
  proof cases
    case (initialize n d)
    with ord(1) have "executor_recv s = []" "executed_numbers as = []"
      by (auto simp: order_inv_def tokens_def)
    with inv initialize ord(2) show ?thesis by (simp add: advance_inv_def advances_def)
  next
    case (execute_dies n q e x)
    with ord(1) have "q = []" by (auto simp: order_inv_def tokens_def)
    with inv execute_dies ord(2) show ?thesis
      by (cases "executed_numbers as") (auto simp: advance_inv_def advances_append advances_def [of _ _ "[]"]
        simp flip: append_Cons)
  next
    case (compare_next n q)
    with ord(1) have "executor_recv s = []" "executed_numbers as \<noteq> []" "last (executed_numbers as) = n"
      by (auto simp: order_inv_def tokens_def split: if_splits)
    with inv compare_next ord(2) advances_compare [of "hd (executed_numbers as)" m "executed_numbers as" "best s"]
    show ?thesis by (simp add: advance_inv_def Let_def)
  next
    case (import_block b)
    with imp have "m \<le> b" by (simp add: imports_from_def)
    with inv import_block ord(2) show ?thesis by (simp add: advance_inv_def)
  qed (use inv ord(2) in \<open>simp_all add: advance_inv_def\<close>)
qed

interpretation advance: trace_invariant "pipeline_step xe ne"
  "\<lambda>s. \<exists>f k w b. s = pipeline_start f k w b \<and> m \<le> b" "\<lambda>as s. imports_from m as \<longrightarrow> advance_inv m as s" for xe ne m
proof unfold_locales
  show "imports_from m [] \<longrightarrow> advance_inv m [] s" if "\<exists>f k w b. s = pipeline_start f k w b \<and> m \<le> b" for s
  proof -
    have "order_inv [] s" by (rule order.inv_start) (use that in \<open>auto simp: started_def\<close>)
    with that show ?thesis by (auto simp: advance_inv_def advances_def pipeline_start_def)
  qed
  show "imports_from m (as @ [a]) \<longrightarrow> advance_inv m (as @ [a]) t"
    if "imports_from m as \<longrightarrow> advance_inv m as s" "pipeline_step xe ne s a t" for as s a t
    using that advance_inv_step [of m as s xe ne a t] by (auto simp: imports_from_def)
qed

text \<open>Where the completed numbers have come to.\<close>

lemma completed_up_to:
  assumes "runs (pipeline_step xe ne) (pipeline_start f k w b) as t"
    and "m \<le> b" and "imports_from m as" and "executed_numbers as \<noteq> []"
    and "unat m < unat (hd (executed_numbers as)) + length (executed_numbers as)"
    and "hd (executed_numbers as) \<le> n" and "n \<le> m"
  shows "n \<in> set (executed_numbers as)"
proof -
  let ?ns = "executed_numbers as"
  have inv: "advance_inv m as t" using advance.inv_runs [OF assms(1), of m] assms(2,3) by blast
  then have "advances (hd ?ns) m ?ns"
    using assms(4) by (auto simp: advance_inv_def intro: advances_prefix)
  with assms(4,5) have "unat m \<le> unat (last ?ns)"
    by (auto simp: advances_def last_conv_nth dest!: spec [of _ "length ?ns - 1"])
  moreover have "successively follows ?ns"
    using inv by (simp add: advance_inv_def order_inv_def successively_append_iff)
  ultimately have "unat n \<in> unat ` set ?ns"
    using contiguous_interval [OF _ assms(4)] assms(6,7) by (auto simp: word_le_nat_alt)
  then show ?thesis by (metis imageE word_unat_eq_iff)
qed

section \<open>Properties\<close>

text \<open>C7: the archive never gets stuck, however the database and Kafka fail, but for one call: the query
  with which the initializer looks for the greatest stored number. Take a chain whose blocks up to some
  height can be executed whatever fork is current, which offers no best block above that height, and an
  archive that starts within it, with the reset flag or from what its database holds. In every state of
  every run, if that query failed, nothing is ever executed (and there was no reset flag); if the
  initializer is still to run, it can; otherwise the executor can complete a block or the comparer can
  hand out the next number.\<close>

theorem archive_never_stuck:
  assumes "runs (moving_step views ne) (pipeline_start f k w b) as t" and "one_node views"
    and "\<forall>xe\<in>views. \<forall>n\<le>hmax. executable xe n" and "start_within hmax f k (db w)" and "b \<le> hmax"
    and "imports_within hmax (map snd as)" and "xe \<in> views"
  shows "if Initializer_died \<in> snd ` set as then \<not> f \<and> executed_numbers (map snd as) = []
    else if initializer_pending t then
      \<not> f \<and> (\<exists>a u. moving_step views ne t (xe, a) u \<and> (a = Initializer_died \<or> (\<exists>n. a = Initialized n)))
    else \<exists>n u. moving_step views ne t (xe, Executed n) u \<or> moving_step views ne t (xe, Compared n) u"
proof -
  have inv: "live_inv views hmax f (map snd as) t"
    using live.inv_runs [OF assms(1), of f hmax] assms(2-6) by blast
  show ?thesis
  proof (cases "Initializer_died \<in> snd ` set as \<or> initializer_pending t")
    case True
    with inv show ?thesis
      using initializer_can_step [of hmax 0 t xe ne] assms(7)
      by (auto simp: live_inv_def moving_step_def split: if_splits)
  next
    case False
    with inv have one: "tokens t = 1" "executor_alive t" by (auto simp: live_inv_def)
    have "\<exists>n u. moving_step views ne t (xe, Executed n) u \<or> moving_step views ne t (xe, Compared n) u"
    proof (cases "executor_recv t")
      case Nil
      with one(1) False obtain n q where "comparer_send (exec_task t) = n # q"
        by (cases "comparer_send (exec_task t)") (auto simp: tokens_def)
      from compare_next [OF this] show ?thesis using assms(7) by (auto simp: moving_step_def)
    next
      case (Cons n q)
      from live_inv_executes [OF inv assms(2,3,7) Cons] obtain x'
        where run: "executor_archive xe n (exec_task t) = (Ok (), x')" by blast
      from execute [OF one(2) Cons run] show ?thesis using assms(7) by (auto simp: moving_step_def)
    qed
    with False show ?thesis by simp
  qed
qed

text \<open>C3: the archive catches up. Let the best block never be below m, and let a run have completed at
  least m - k + 1 executions, k being the first number it executed (the configured one with the reset
  flag). Then it has completed every number from k to m; and with services that answer, each of these
  blocks, genesis and numbers without a partition apart, is stored or its message is waiting for the
  notifier.\<close>

theorem archive_catches_up:
  assumes "runs (pipeline_step xe ne) (pipeline_start f k w b) as t"
    and "m \<le> b" and "imports_from m as" and "executed_numbers as \<noteq> []"
    and "unat m < unat (hd (executed_numbers as)) + length (executed_numbers as)"
  shows "(f \<longrightarrow> hd (executed_numbers as) = k) \<and>
    {n. hd (executed_numbers as) \<le> n \<and> n \<le> m} \<subseteq> set (executed_numbers as) \<and>
    (collision_free (xe_version xe) \<and> faithful_db xe (db w) \<and> reliable ne \<and> versions_fit (xe_version xe) \<longrightarrow>
      {n. hd (executed_numbers as) \<le> n \<and> n \<le> m \<and> n \<noteq> 0 \<and> n < 10000000}
        \<subseteq> dom (block_rows (db (world t))) \<union> pending_numbers t)"
proof -
  have "hd (executed_numbers as) = k" if f
    using first.inv_runs [of xe ne "pipeline_start f k w b" as t k] assms(1,4) that
    by (auto simp: first_inv_def)
  moreover have all: "{n. hd (executed_numbers as) \<le> n \<and> n \<le> m} \<subseteq> set (executed_numbers as)"
    using completed_up_to [OF assms] by blast
  ultimately show ?thesis using executed_kept [OF assms(1)] by blast
qed

section \<open>The concrete chain\<close>

lemma demo_executable: "executable demo_exec_env n" "executable demo_fork n"
proof -
  show "executable demo_exec_env n"
    using demo_direct_version by (simp add: executable_def demo_execute) (simp add: demo_exec_env_def)
  have "xe_version demo_fork = demo_version_env" by (simp add: demo_fork_def demo_exec_env_def)
  moreover have "\<exists>sb. execute_block_and_into_storage_changes demo_fork n = Ok (Some (demo_changes, sb))"
    by (simp add: execute_block_and_into_storage_changes_def core_get_block_def core_get_state_def
        demo_fork_def demo_exec_env_def demo_backend_def Let_def)
  ultimately show "executable demo_fork n" by (auto simp: executable_def demo_direct_version)
qed

text \<open>A start within the reset flag, and one from a database that holds block 4.\<close>

theorem archive_never_stuck_witness:
  "(\<exists>t n u. runs (moving_step demo_views (demo_notify_env no_faults)) (pipeline_start True 3 empty_world 9)
      (map (Pair demo_exec_env) demo_trace) t \<and>
     (moving_step demo_views (demo_notify_env no_faults) t (demo_fork, Executed n) u \<or>
      moving_step demo_views (demo_notify_env no_faults) t (demo_fork, Compared n) u)) \<and>
   (\<exists>a u. moving_step demo_views (demo_notify_env no_faults)
      (pipeline_start False 0 (empty_world\<lparr>db := demo_pg\<rparr>) 9) (demo_fork, a) u \<and>
      (a = Initializer_died \<or> (\<exists>n. a = Initialized n)))"
proof
  have can: "\<forall>xe\<in>demo_views. \<forall>n\<le>9. executable xe n" using demo_executable by simp
  obtain t where t: "runs (moving_step demo_views (demo_notify_env no_faults)) (pipeline_start True 3 empty_world 9)
      (map (Pair demo_exec_env) demo_trace) t" "archiver_send (exec_task t) = []" "comparer_send (exec_task t) = [4]"
    by (rule demo_moving_run)
  have "order_inv (map snd (map (Pair demo_exec_env) demo_trace)) t" using moving_order.inv_runs [OF t(1)] by simp
  with t(3) have "\<not> initializer_pending t" by (auto simp: order_inv_def)
  moreover have "imports_within 9 (map snd (map (Pair demo_exec_env) demo_trace))" by (simp add: imports_within_def)
  ultimately show "\<exists>t n u. runs (moving_step demo_views (demo_notify_env no_faults)) (pipeline_start True 3 empty_world 9)
      (map (Pair demo_exec_env) demo_trace) t \<and>
     (moving_step demo_views (demo_notify_env no_faults) t (demo_fork, Executed n) u \<or>
      moving_step demo_views (demo_notify_env no_faults) t (demo_fork, Compared n) u)"
    using archive_never_stuck [OF t(1) demo_one_node can, of demo_fork] t(1) by (auto simp: start_within_def)
  have rows: "\<forall>n\<in>dom (block_rows demo_pg). n \<le> 9"
    by (auto simp: block_rows_def rows_by_def demo_pg_def split: if_splits)
  show "\<exists>a u. moving_step demo_views (demo_notify_env no_faults)
      (pipeline_start False 0 (empty_world\<lparr>db := demo_pg\<rparr>) 9) (demo_fork, a) u \<and>
      (a = Initializer_died \<or> (\<exists>n. a = Initialized n))"
    using archive_never_stuck [OF runs_Nil demo_one_node can, of False 0 "empty_world\<lparr>db := demo_pg\<rparr>" 9 demo_fork] rows
    by (simp add: start_within_def demo_pg_schema imports_within_def) (simp add: pipeline_start_def)
qed

theorem archive_catches_up_witness:
  "\<exists>t. runs (pipeline_step demo_exec_env (demo_notify_env no_faults)) (pipeline_start True 3 empty_world 9) demo_trace t \<and>
     {3, 4} \<subseteq> dom (block_rows (db (world t))) \<union> pending_numbers t"
proof -
  obtain t where t: "runs (pipeline_step demo_exec_env (demo_notify_env no_faults)) (pipeline_start True 3 empty_world 9) demo_trace t"
    by (rule demo_reliable_run)
  have nums: "imports_from 4 demo_trace" "executed_numbers demo_trace \<noteq> []"
    "unat (4 :: u32) < unat (hd (executed_numbers demo_trace)) + length (executed_numbers demo_trace)"
    by (simp_all add: imports_from_def)
  from archive_catches_up [OF t _ nums] demo_chain_facts demo_notify_reliable
  have "{n. 3 \<le> n \<and> n \<le> 4 \<and> n \<noteq> 0 \<and> n < 10000000} \<subseteq> dom (block_rows (db (world t))) \<union> pending_numbers t" by simp
  then have "3 \<in> dom (block_rows (db (world t))) \<union> pending_numbers t" "4 \<in> dom (block_rows (db (world t))) \<union> pending_numbers t"
    by (simp_all add: subset_iff)
  with t show ?thesis by blast
qed

end
