(* ===== verification/Published_Order.thy ===== *)
theory Published_Order
  imports Archive_Progress "HOL-Library.Sublist"
begin

text \<open>
  What a consumer of the block topic sees: the records of a run in the order of the chain, each for a
  block that was executed and is stored, and with services that answer, every executed block.
\<close>

section \<open>Model\<close>

text \<open>Topics that do not mix metadata and blocks.\<close>

definition topics_distinct :: "notify_env \<Rightarrow> bool" where
  "topics_distinct ne \<longleftrightarrow> topic_metadata (topic (ne_config ne)) \<noteq> topic_block (topic (ne_config ne))"

definition block_records :: "notify_env \<Rightarrow> archive_world \<Rightarrow> FutureRecord list" where
  "block_records ne w = filter (\<lambda>r. fr_topic r = topic_block (topic (ne_config ne))) (delivered (producer w))"

definition published :: "notify_env \<Rightarrow> FutureRecord \<Rightarrow> ArchiveSendMsg \<Rightarrow> bool" where
  "published ne r mp \<longleftrightarrow> payload_record (ne_kafka ne) (ne_config ne) (Block_payload (snd mp)) = Some r"

text \<open>A message comes from the answers the executor got when it worked on the number.\<close>

definition message_from_view :: "('st, 'api) chain_event list \<Rightarrow> ArchiveSendMsg \<Rightarrow> bool" where
  "message_from_view as mp \<longleftrightarrow> (\<exists>xe. (xe, Executed (bm_block_num (fst mp))) \<in> set as \<and> message_of xe mp)"

section \<open>Lemmas\<close>

lemma sorted_executed: "order_inv as s \<Longrightarrow> sorted (executed_numbers as)"
proof -
  assume "order_inv as s"
  then have "successively follows (executed_numbers as)" by (simp add: order_inv_def successively_append_iff)
  then have "successively (\<le>) (executed_numbers as)" by (rule successively_mono) (auto intro: follows_le)
  then show ?thesis by (simp add: successively_conv_sorted_wrt)
qed

lemma sorted_subseq: "subseq xs ys \<Longrightarrow> sorted ys \<Longrightarrow> sorted xs"
  by (auto simp: subseq_conv_nths intro: sorted_nths)

lemma metadata_not_block:
  "topics_distinct ne \<Longrightarrow> metadata_backed ne m w r \<Longrightarrow> fr_topic r \<noteq> topic_block (topic (ne_config ne))"
  by (auto simp: topics_distinct_def metadata_backed_def payload_record_def)

lemma block_on_topic: "published ne r mp \<Longrightarrow> fr_topic r = topic_block (topic (ne_config ne))"
  by (auto simp: published_def payload_record_def)

text \<open>A run of the notifier publishes its block at most once, and not before the row is written.\<close>

lemma notifier_block_records:
  assumes "topics_distinct ne" and "notifier_archive ne m p w = (r, w')"
  shows "block_records ne w' = block_records ne w \<or>
    (\<exists>x. block_records ne w' = block_records ne w @ [x] \<and> published ne x (m, p) \<and>
       bm_block_num m \<in> dom (block_rows (db w')))"
    and "is_ok r \<Longrightarrow> \<exists>x. block_records ne w' = block_records ne w @ [x] \<and> published ne x (m, p)"
proof -
  obtain ms bs where out: "delivered (producer w') = delivered (producer w) @ ms @ bs"
    "\<forall>r\<in>set ms. metadata_backed ne m w' r" "bs = [] \<or> (\<exists>r. bs = [r] \<and> block_backed ne m p w' r)"
    using notifier_records [of ne m p w] assms(2) by auto
  have "filter (\<lambda>r. fr_topic r = topic_block (topic (ne_config ne))) ms = []"
    using out(2) metadata_not_block [OF assms(1)] by (auto simp: filter_empty_conv)
  with out(1,3) show any: "block_records ne w' = block_records ne w \<or>
    (\<exists>x. block_records ne w' = block_records ne w @ [x] \<and> published ne x (m, p) \<and>
       bm_block_num m \<in> dom (block_rows (db w')))"
    using block_on_topic [of ne _ "(m, p)"] by (auto simp: block_records_def block_backed_def published_def)
  show "\<exists>x. block_records ne w' = block_records ne w @ [x] \<and> published ne x (m, p)" if "is_ok r"
  proof -
    from that assms(2) have "notifier_archive ne m p w = (Ok (), w')" by (cases r) simp_all
    from notifier_archive_ok(2) [OF this] obtain rs x where
      "delivered (producer w') = delivered (producer w) @ rs @ [x]" "published ne x (m, p)"
      by (auto simp: published_def)
    with block_on_topic have "block_records ne w' \<noteq> block_records ne w" by (auto simp: block_records_def)
    with any show ?thesis by blast
  qed
qed

lemma initializer_keeps_records [simp]: "block_records ne (w\<lparr>db := d\<rparr>) = block_records ne w"
  by (simp add: block_records_def)

section \<open>The order of the block topic\<close>

definition stream_inv ::
  "notify_env \<Rightarrow> FutureRecord list \<Rightarrow> ('st, 'api) chain_event list \<Rightarrow> pipeline \<Rightarrow> bool" where
  "stream_inv ne base as s \<longleftrightarrow> (\<exists>rs mps. block_records ne (world s) = base @ rs \<and>
     list_all2 (published ne) rs mps \<and> set (numbers mps) \<subseteq> dom (block_rows (db (world s))) \<and>
     subseq (numbers (mps @ archiver_send (exec_task s))) (executed_numbers (map snd as)) \<and>
     (\<forall>mp \<in> set (mps @ archiver_send (exec_task s)). message_from_view as mp))"

definition caches_inv :: "('st, 'api) exec_env set \<Rightarrow> pipeline \<Rightarrow> bool" where
  "caches_inv views s \<longleftrightarrow> (executor_alive s \<longrightarrow>
     (\<forall>xe\<in>views. cache_inv_over (codes_of views) (xe_version xe) (version_cache (exec_task s))))"

lemma message_from_view_append: "message_from_view as mp \<Longrightarrow> message_from_view (as @ bs) mp"
  by (auto simp: message_from_view_def)

text \<open>Steps that neither execute nor archive.\<close>

lemma stream_inv_frame:
  assumes "stream_inv ne base as s" and "block_records ne (world t) = block_records ne (world s)"
    and "dom (block_rows (db (world s))) \<subseteq> dom (block_rows (db (world t)))"
    and "archiver_send (exec_task t) = archiver_send (exec_task s)"
  shows "stream_inv ne base (as @ [l]) t"
proof -
  obtain rs mps where s: "block_records ne (world s) = base @ rs" "list_all2 (published ne) rs mps"
    "set (numbers mps) \<subseteq> dom (block_rows (db (world s)))"
    "subseq (numbers (mps @ archiver_send (exec_task s))) (executed_numbers (map snd as))"
    "\<forall>mp \<in> set (mps @ archiver_send (exec_task s)). message_from_view as mp"
    using assms(1) unfolding stream_inv_def by blast
  have "subseq (numbers (mps @ archiver_send (exec_task t))) (executed_numbers (map snd (as @ [l])))"
    using s(4) assms(4) by (simp add: subseq_rev_drop_many)
  moreover have "\<forall>mp \<in> set (mps @ archiver_send (exec_task t)). message_from_view (as @ [l]) mp"
    using s(5) assms(4) by (auto intro: message_from_view_append)
  ultimately show ?thesis
    unfolding stream_inv_def using s(1-3) assms(2,3) by (intro exI [of _ rs] exI [of _ mps]) auto
qed

text \<open>A message that the executor adds, at the end of what it has executed.\<close>

lemma stream_inv_message:
  assumes "stream_inv ne base as s" and "world t = world s" and "message_of xe mp"
    and "archiver_send (exec_task t) = archiver_send (exec_task s) @ [mp]"
  shows "stream_inv ne base (as @ [(xe, Executed (bm_block_num (fst mp)))]) t"
proof -
  let ?l = "(xe, Executed (bm_block_num (fst mp)))"
  obtain rs mps where s: "block_records ne (world s) = base @ rs" "list_all2 (published ne) rs mps"
    "set (numbers mps) \<subseteq> dom (block_rows (db (world s)))"
    "subseq (numbers (mps @ archiver_send (exec_task s))) (executed_numbers (map snd as))"
    "\<forall>mp \<in> set (mps @ archiver_send (exec_task s)). message_from_view as mp"
    using assms(1) unfolding stream_inv_def by blast
  have "subseq (numbers (mps @ archiver_send (exec_task t))) (executed_numbers (map snd (as @ [?l])))"
    using list_emb_append_mono [OF s(4), of "[bm_block_num (fst mp)]" "[bm_block_num (fst mp)]"] assms(4) by simp
  moreover have "\<forall>mp \<in> set (mps @ archiver_send (exec_task t)). message_from_view (as @ [?l]) mp"
    using s(5) assms(3,4) by (auto simp: message_from_view_def)
  ultimately show ?thesis
    unfolding stream_inv_def using s(1-3) assms(2) by (intro exI [of _ rs] exI [of _ mps]) auto
qed

lemma stream_inv_notifier:
  assumes inv: "stream_inv ne base as s" and top: "topics_distinct ne"
    and msg: "archiver_send (exec_task s) = (m, p) # q" and run: "notifier_archive ne m p (world s) = (r, w)"
    and "world t = w" "archiver_send (exec_task t) = q"
  shows "stream_inv ne base (as @ [l]) t"
proof -
  obtain rs mps where s: "block_records ne (world s) = base @ rs" "list_all2 (published ne) rs mps"
    "set (numbers mps) \<subseteq> dom (block_rows (db (world s)))"
    "subseq (numbers (mps @ (m, p) # q)) (executed_numbers (map snd as))"
    "\<forall>mp \<in> set (mps @ (m, p) # q). message_from_view as mp"
    using inv msg unfolding stream_inv_def by auto
  have rows: "set (numbers mps) \<subseteq> dom (block_rows (db w))"
    using notifier_rows [of ne m p "world s"] s(3) run by (auto simp: fun_upd_def split: if_splits)
  have views: "\<forall>mp \<in> set (mps @ (m, p) # q). message_from_view (as @ [l]) mp"
    using s(5) by (auto intro: message_from_view_append)
  have order: "subseq (numbers (mps @ (m, p) # q)) (executed_numbers (map snd (as @ [l])))"
    using s(4) by (simp add: subseq_rev_drop_many)
  consider "block_records ne w = block_records ne (world s)"
    | x where "block_records ne w = block_records ne (world s) @ [x]" "published ne x (m, p)" "bm_block_num m \<in> dom (block_rows (db w))"
    using notifier_block_records(1) [OF top run] by blast
  then show ?thesis
  proof cases
    case 1
    have "subseq (numbers (mps @ q)) (numbers (mps @ (m, p) # q))"
      by (auto intro: list_emb_append_mono)
    with order have "subseq (numbers (mps @ q)) (executed_numbers (map snd (as @ [l])))"
      by (rule subseq_order.order_trans [rotated])
    with 1 s(1,2) rows views assms(5,6) show ?thesis
      unfolding stream_inv_def by (intro exI [of _ rs] exI [of _ mps]) auto
  next
    case (2 x)
    have "list_all2 (published ne) (rs @ [x]) (mps @ [(m, p)])"
      using s(2) 2(2) by (simp add: list_all2_appendI)
    with 2 s(1) rows views order assms(5,6) show ?thesis
      unfolding stream_inv_def by (intro exI [of _ "rs @ [x]"] exI [of _ "mps @ [(m, p)]"]) auto
  qed
qed

lemma caches_inv_step:
  assumes "caches_inv views s" and "xe \<in> views" and "pipeline_step xe ne s a t" and node: "one_node views"
  shows "caches_inv views t"
  using assms(3)
proof cases
  case (execute n q r x)
  then show ?thesis
    using moving_executor(1) [OF node assms(2) execute(5,6)] assms(1) by (simp add: caches_inv_def)
qed (use assms(1) in \<open>simp_all add: caches_inv_def\<close>)

lemma stream_inv_step:
  assumes inv: "stream_inv ne base as s" "caches_inv views s" and step: "moving_step views ne s l t"
    and node: "one_node views" and top: "topics_distinct ne"
  shows "stream_inv ne base (as @ [l]) t"
proof -
  obtain xe a where l: "l = (xe, a)" "xe \<in> views" "pipeline_step xe ne s a t"
    using step by (cases l) (auto simp: moving_step_def)
  from l(3) show ?thesis
  proof cases
    case (execute n q r x)
    have "cache_inv_over (codes_of views) (xe_version xe) (version_cache (exec_task s))"
      using inv(2) l(2) execute(3) by (simp add: caches_inv_def)
    from executor_message_over [OF execute(5,6) this one_node_codes [OF node l(2)]]
    consider "archiver_send x = archiver_send (exec_task s)"
      | mp where "archiver_send x = archiver_send (exec_task s) @ [mp]" "bm_block_num (fst mp) = n" "message_of xe mp"
      by blast
    then show ?thesis
    proof cases
      case 1
      then show ?thesis by (intro stream_inv_frame [OF inv(1)]) (simp_all add: execute)
    next
      case (2 mp)
      then show ?thesis
        using stream_inv_message [OF inv(1), of t xe mp] execute by (simp add: l(1))
    qed
  next
    case (archive m p q r w)
    with stream_inv_notifier [OF inv(1) top archive(4,5), of t l] show ?thesis by simp
  next
    case (archive_dies m p q e w)
    with stream_inv_notifier [OF inv(1) top archive_dies(4,5), of t l] show ?thesis by simp
  next
    case (initialize n d)
    with initializer_run_rows [OF initialize(4)] show ?thesis
      by (intro stream_inv_frame [OF inv(1)]) simp_all
  next
    case (initialize_dies w d)
    with initializer_run_rows [OF initialize_dies(4)] show ?thesis
      by (intro stream_inv_frame [OF inv(1)]) simp_all
  next
    case (execute_dies n q e x)
    with executor_effect [OF execute_dies(5)] show ?thesis
      by (intro stream_inv_frame [OF inv(1)]) simp_all
  qed (rule stream_inv_frame [OF inv(1)]; simp)+
qed

interpretation stream: trace_invariant "moving_step views ne" "\<lambda>s. started s \<and> block_records ne (world s) = base"
  "\<lambda>as s. one_node views \<and> topics_distinct ne \<longrightarrow> stream_inv ne base as s \<and> caches_inv views s" for views ne base
proof unfold_locales
  show "one_node views \<and> topics_distinct ne \<longrightarrow> stream_inv ne base [] s \<and> caches_inv views s"
    if "started s \<and> block_records ne (world s) = base" for s
    using that by (auto simp: started_def stream_inv_def caches_inv_def pipeline_start_def cache_inv_new
        intro!: exI [of _ "[]"])
  show "one_node views \<and> topics_distinct ne \<longrightarrow> stream_inv ne base (as @ [l]) t \<and> caches_inv views t"
    if "one_node views \<and> topics_distinct ne \<longrightarrow> stream_inv ne base as s \<and> caches_inv views s"
      "moving_step views ne s l t" for as s l t
    using that stream_inv_step [of ne base as s views l t] caches_inv_step [of views s "fst l" ne "snd l" t]
    by (auto simp: moving_step_def)
qed

section \<open>Completeness of the block topic\<close>

definition archivable :: "u32 \<Rightarrow> bool" where
  "archivable n \<longleftrightarrow> n \<noteq> 0 \<and> n < 10000000"

definition full_inv ::
  "('st, 'api) exec_env \<Rightarrow> notify_env \<Rightarrow> FutureRecord list \<Rightarrow> event list \<Rightarrow> pipeline \<Rightarrow> bool" where
  "full_inv xe ne base as s \<longleftrightarrow> (\<exists>rs mps. block_records ne (world s) = base @ rs \<and> list_all2 (published ne) rs mps \<and>
     (\<forall>mp \<in> set (mps @ archiver_send (exec_task s)). message_of xe mp) \<and>
     filter archivable (numbers (mps @ archiver_send (exec_task s))) = filter archivable (executed_numbers as))"

lemma full_inv_notifier:
  assumes inv: "full_inv xe ne base as s" and top: "topics_distinct ne" and rel: "reliable ne"
    and fit: "0 \<le> sint (bm_spec_version m)"
    and msg: "archiver_send (exec_task s) = (m, p) # q" and run: "notifier_archive ne m p (world s) = (r, w)"
    and "world t = w" "archiver_send (exec_task t) = q"
  shows "full_inv xe ne base as t"
proof -
  obtain rs mps where s: "block_records ne (world s) = base @ rs" "list_all2 (published ne) rs mps"
    "filter archivable (numbers (mps @ (m, p) # q)) = filter archivable (executed_numbers as)"
    "\<forall>mp \<in> set (mps @ (m, p) # q). message_of xe mp"
    using inv msg unfolding full_inv_def by auto
  consider x where "block_records ne w = block_records ne (world s) @ [x]" "published ne x (m, p)"
    | "block_records ne w = block_records ne (world s)" "\<not> is_ok r"
    using notifier_block_records [OF top run] by blast
  then show ?thesis
  proof cases
    case (1 x)
    have "list_all2 (published ne) (rs @ [x]) (mps @ [(m, p)])"
      using s(2) 1(2) by (simp add: list_all2_appendI)
    with 1 s(1,3,4) assms(7,8) show ?thesis
      unfolding full_inv_def by (intro exI [of _ "rs @ [x]"] exI [of _ "mps @ [(m, p)]"]) simp
  next
    case 2
    have "\<not> archivable (bm_block_num m)"
      using notifier_archive_total [OF rel _ fit, of p "world s"] run 2(2) by (auto simp: archivable_def)
    with 2 s assms(7,8) show ?thesis
      unfolding full_inv_def by (intro exI [of _ rs] exI [of _ mps]) simp
  qed
qed

lemma full_inv_step:
  assumes inv: "full_inv xe ne base as s" and step: "pipeline_step xe ne s a t" and top: "topics_distinct ne"
    and rel: "reliable ne" and fit: "\<forall>mp\<in>set (archiver_send (exec_task s)). 0 \<le> sint (bm_spec_version (fst mp))"
    and cache: "executor_alive s \<Longrightarrow> cache_inv (xe_version xe) (version_cache (exec_task s))"
    and free: "collision_free (xe_version xe)"
  shows "full_inv xe ne base (as @ [a]) t"
  using step
proof cases
  case (execute n q r x)
  from executor_message_over [OF execute(5,6) cache [OF execute(3)]] free
  consider "archiver_send x = archiver_send (exec_task s)" "n = 0"
    | m p where "archiver_send x = archiver_send (exec_task s) @ [(m, p)]" "bm_block_num m = n" "message_of xe (m, p)"
    unfolding collision_free_def by fastforce
  then show ?thesis
  proof cases
    case 1
    have "filter archivable (executed_numbers (as @ [a])) = filter archivable (executed_numbers as)"
      using 1(2) by (simp add: execute archivable_def)
    with inv 1(1) execute show ?thesis unfolding full_inv_def by simp
  next
    case (2 m p)
    obtain rs mps where s: "block_records ne (world s) = base @ rs" "list_all2 (published ne) rs mps"
      "filter archivable (numbers (mps @ archiver_send (exec_task s))) = filter archivable (executed_numbers as)"
      "\<forall>mp \<in> set (mps @ archiver_send (exec_task s)). message_of xe mp"
      using inv unfolding full_inv_def by blast
    with 2 execute show ?thesis
      unfolding full_inv_def by (intro exI [of _ rs] exI [of _ mps]) simp
  qed
next
  case (archive m p q r w)
  with full_inv_notifier [OF inv top rel _ archive(4,5), of t] fit show ?thesis by (simp add: full_inv_def)
next
  case (archive_dies m p q e w)
  then show ?thesis using notifier_reliable_no_panic [OF rel, of m p "world s"] by simp
next
  case (execute_dies n q e x)
  with executor_effect [OF execute_dies(5)] inv show ?thesis by (simp add: full_inv_def)
qed (use inv in \<open>simp_all add: full_inv_def\<close>)

interpretation full: trace_invariant "pipeline_step xe ne"
  "\<lambda>s. started s \<and> faithful_db xe (db (world s)) \<and> block_records ne (world s) = base"
  "\<lambda>as s. collision_free (xe_version xe) \<and> reliable ne \<and> versions_fit (xe_version xe) \<and> topics_distinct ne \<longrightarrow>
     faithful_inv xe s \<and> full_inv xe ne base as s" for xe ne base
proof unfold_locales
  show "collision_free (xe_version xe) \<and> reliable ne \<and> versions_fit (xe_version xe) \<and> topics_distinct ne \<longrightarrow>
      faithful_inv xe s \<and> full_inv xe ne base [] s"
    if "started s \<and> faithful_db xe (db (world s)) \<and> block_records ne (world s) = base" for s
    using that by (auto simp: started_def faithful_inv_def full_inv_def pipeline_start_def cache_inv_new)
  show "collision_free (xe_version xe) \<and> reliable ne \<and> versions_fit (xe_version xe) \<and> topics_distinct ne \<longrightarrow>
      faithful_inv xe t \<and> full_inv xe ne base (as @ [a]) t"
    if "collision_free (xe_version xe) \<and> reliable ne \<and> versions_fit (xe_version xe) \<and> topics_distinct ne \<longrightarrow>
        faithful_inv xe s \<and> full_inv xe ne base as s" "pipeline_step xe ne s a t" for as s a t
    using that faithful_inv_step [of xe s ne a t] full_inv_step [of xe ne base as s a t]
      faithful_version [of "xe"] by (simp add: faithful_inv_def)
qed

section \<open>Properties\<close>

text \<open>C6: a consumer of the block topic sees the chain in order. Whatever fails, however the tasks
  interleave and however the chain changes, the records that a run adds to the topic belong to messages
  with ascending numbers (a number may repeat), a subsequence of the executed numbers; each carries what
  the database answered with when the executor worked on the number, and the number has its row in
  Postgres.\<close>

theorem published_in_order:
  assumes "runs (moving_step views ne) (pipeline_start f k w b) as t" and "one_node views" and "topics_distinct ne"
  shows "\<exists>rs mps. block_records ne (world t) = block_records ne w @ rs \<and> list_all2 (published ne) rs mps \<and>
    sorted (numbers mps) \<and> subseq (numbers mps) (executed_numbers (map snd as)) \<and>
    (\<forall>mp\<in>set mps. message_from_view as mp \<and> bm_block_num (fst mp) \<in> dom (block_rows (db (world t))))"
proof -
  have "stream_inv ne (block_records ne w) as t"
    using stream.inv_runs [OF assms(1), of "block_records ne w"] assms(2,3) by simp
  then obtain rs mps where t: "block_records ne (world t) = block_records ne w @ rs" "list_all2 (published ne) rs mps"
    "set (numbers mps) \<subseteq> dom (block_rows (db (world t)))"
    "subseq (numbers (mps @ archiver_send (exec_task t))) (executed_numbers (map snd as))"
    "\<forall>mp \<in> set mps. message_from_view as mp"
    unfolding stream_inv_def by auto
  from t(4) have sub: "subseq (numbers mps) (executed_numbers (map snd as))"
    by (simp add: subseq_append_le_same_iff) (metis subseq_order.order_trans list_emb_prefix subseq_order.order_refl)
  moreover have "sorted (executed_numbers (map snd as))"
    using moving_order.inv_runs [OF assms(1)] by (auto intro: sorted_executed)
  ultimately show ?thesis using t(1-3,5) sorted_subseq by (intro exI [of _ rs] exI [of _ mps]) auto
qed

text \<open>C11: with services that answer, once the notifier has caught up, the records that the run added to the
  block topic are those of a list of messages; each message holds the row and the payload of one block,
  as executing that block gives them, and its record is the encoding of that payload. The numbers of the
  messages are the executed ones, in that order and as often (genesis and numbers without a partition
  apart): no block is missing, none is doubled but by executing it again, and none is another block.\<close>

theorem published_completely:
  assumes "runs (pipeline_step xe ne) (pipeline_start f k w b) as t"
    and "collision_free (xe_version xe)" and "faithful_db xe (db w)"
    and "reliable ne" and "versions_fit (xe_version xe)" and "topics_distinct ne"
    and "archiver_send (exec_task t) = []"
  shows "\<exists>rs mps. block_records ne (world t) = block_records ne w @ rs \<and> list_all2 (published ne) rs mps \<and>
    (\<forall>mp\<in>set mps. message_of xe mp) \<and>
    filter archivable (numbers mps) = filter archivable (executed_numbers as)"
  using full.inv_runs [OF assms(1), of "block_records ne w"] assms(2-7) by (simp add: full_inv_def)

section \<open>The concrete chain\<close>

lemma demo_topics: "topics_distinct (demo_notify_env f)"
  by (simp add: topics_distinct_def demo_notify_env_def demo_kafka_config_def)

lemma demo_no_records: "block_records ne empty_world = []"
  by (simp add: block_records_def empty_world_def kafka_empty_def)

theorem published_in_order_witness:
  "\<exists>t rs mps. runs (moving_step demo_views (demo_notify_env no_faults)) (pipeline_start True 3 empty_world 9)
      (map (Pair demo_exec_env) demo_trace) t \<and>
     block_records (demo_notify_env no_faults) (world t) = rs \<and> list_all2 (published (demo_notify_env no_faults)) rs mps \<and>
     subseq (numbers mps) [3, 4]"
proof -
  obtain t where t: "runs (moving_step demo_views (demo_notify_env no_faults)) (pipeline_start True 3 empty_world 9)
      (map (Pair demo_exec_env) demo_trace) t"
    by (rule demo_moving_run)
  from published_in_order [OF t demo_one_node demo_topics] t show ?thesis by (auto simp: demo_no_records)
qed

theorem published_completely_witness:
  "\<exists>t rs mps. runs (pipeline_step demo_exec_env (demo_notify_env no_faults)) (pipeline_start True 3 empty_world 9) demo_trace t \<and>
     block_records (demo_notify_env no_faults) (world t) = rs \<and> list_all2 (published (demo_notify_env no_faults)) rs mps \<and>
     (\<forall>mp\<in>set mps. message_of demo_exec_env mp) \<and>
     filter archivable (numbers mps) = [3, 4]"
proof -
  obtain t where t: "runs (pipeline_step demo_exec_env (demo_notify_env no_faults)) (pipeline_start True 3 empty_world 9) demo_trace t"
    "archiver_send (exec_task t) = []"
    by (rule demo_reliable_run)
  from published_completely [OF t(1) demo_chain_facts(1,3) demo_notify_reliable demo_chain_facts(2) demo_topics t(2)] t(1)
  show ?thesis by (auto simp: demo_no_records archivable_def)
qed

end
