(* ===== verification/Restarts.thy ===== *)
theory Restarts
  imports Published_Order
begin

text \<open>
  The archive over several lives of the process. Postgres and Kafka outlive it, the channels, the version
  cache and the messages in them do not. The process may be stopped between two steps of its tasks or
  while the notifier is writing a message.
\<close>

section \<open>Model\<close>

text \<open>What a stopped process leaves behind. A call that is cut off has had the effects of one whose
  services stopped answering at some point.\<close>

definition stopped :: "pipeline \<Rightarrow> archive_world \<Rightarrow> bool" where
  "stopped s w \<longleftrightarrow> w = world s \<or>
     (\<exists>ne m p q. archiver_send (exec_task s) = (m, p) # q \<and> w = snd (notifier_archive ne m p (world s)))"

text \<open>One life of the process: it starts on what the previous one left.\<close>

definition session ::
  "('st, 'api) exec_env \<Rightarrow> notify_env \<Rightarrow> bool \<Rightarrow> u32 \<Rightarrow> archive_world \<Rightarrow> archive_world \<Rightarrow> bool" where
  "session xe ne f k w w' \<longleftrightarrow> (\<exists>b as t. runs (pipeline_step xe ne) (pipeline_start f k w b) as t \<and> stopped t w')"

text \<open>Restarts without the reset flag.\<close>

inductive restarts :: "('st, 'api) exec_env \<Rightarrow> notify_env \<Rightarrow> archive_world \<Rightarrow> archive_world \<Rightarrow> bool" for xe ne where
  restarts_none: "restarts xe ne w w"
| restarts_again: "restarts xe ne w w1 \<Longrightarrow> session xe ne False k w1 w2 \<Longrightarrow> restarts xe ne w w2"

definition no_gaps :: "u32 set \<Rightarrow> bool" where
  "no_gaps D \<longleftrightarrow> (\<forall>i\<in>D. \<forall>k\<in>D. {i..k} \<subseteq> D)"

lemma no_gapsD: "no_gaps D \<Longrightarrow> i \<in> D \<Longrightarrow> k \<in> D \<Longrightarrow> i \<le> x \<Longrightarrow> x \<le> k \<Longrightarrow> x \<in> D"
  unfolding no_gaps_def by (meson atLeastAtMost_iff subsetD)

text \<open>The numbers the notifier has worked on, in order.\<close>

fun archived_numbers :: "event list \<Rightarrow> u32 list" where
  "archived_numbers [] = []"
| "archived_numbers (Archived n ok # as) = n # archived_numbers as"
| "archived_numbers (_ # as) = archived_numbers as"

lemma archived_append [simp]: "archived_numbers (as @ bs) = archived_numbers as @ archived_numbers bs"
  by (induction as rule: archived_numbers.induct) auto

section \<open>Rows over one life\<close>

lemma schema_bound: "schema_inv (tables d) \<Longrightarrow> n \<in> dom (block_rows d) \<Longrightarrow> n < 10000000"
  unfolding schema_inv_def block_rows_keys [symmetric] using partition_of_None by (auto simp: not_le)

text \<open>Whatever a round of the notifier does, the stored numbers grow by the message's number or not at
  all, and a number without a partition is not stored.\<close>

lemma notifier_stored_numbers:
  assumes "schema_inv (tables (db w))"
  shows "dom (block_rows (db (snd (notifier_archive ne m p w)))) = dom (block_rows (db w)) \<or>
    dom (block_rows (db (snd (notifier_archive ne m p w)))) =
      dom (block_rows (db w)) \<union> {n. n = bm_block_num m \<and> n < 10000000}"
proof -
  have "schema_inv (tables (db (snd (notifier_archive ne m p w))))"
    using preservesD [OF notifier_archive_schema] assms by blast
  note bound = schema_bound [OF this, of "bm_block_num m"]
  from notifier_rows [of ne m p w] show ?thesis
  proof
    assume new: "block_rows (db (snd (notifier_archive ne m p w))) = (block_rows (db w))(bm_block_num m \<mapsto> m)"
    with bound have "{n. n = bm_block_num m \<and> n < 10000000} = {bm_block_num m}" by auto
    with new show ?thesis by simp
  qed simp
qed

lemma notifier_stored_exactly:
  fixes w :: archive_world
  assumes "schema_inv (tables (db w))" and "reliable ne" and "0 \<le> sint (bm_spec_version m)"
  shows "dom (block_rows (db (snd (notifier_archive ne m p w)))) =
    dom (block_rows (db w)) \<union> {n. n = bm_block_num m \<and> n < 10000000}"
  using notifier_stored_numbers [OF assms(1), of ne m p] notifier_stores(2) [OF assms(2,3), where w = w and p = p] by blast

text \<open>The number a life starts with: any one on an empty database, otherwise the greatest stored one.\<close>

definition resumes :: "u32 set \<Rightarrow> u32 \<Rightarrow> bool" where
  "resumes D k \<longleftrightarrow> D = {} \<or> k \<in> D \<and> (\<forall>d\<in>D. d \<le> k)"

text \<open>The numbers the notifier has worked on or has before it, and then the one number on its way, with the
  first number of the life in front. Only number 0 may pass without a message.\<close>

definition line :: "u32 set \<Rightarrow> u32 list \<Rightarrow> u32 list \<Rightarrow> u32 list \<Rightarrow> bool" where
  "line D ns recv sent \<longleftrightarrow> (\<exists>k. resumes D k \<and> successively follows (k # ns @ recv) \<and> (\<forall>c\<in>set sent. last (k # ns) = c) \<and>
     (k \<noteq> 0 \<longrightarrow> (if ns = [] then set recv \<subseteq> {k} \<and> sent = [] else hd ns = k)))"

lemma chain_snoc:
  "successively follows (k # ns @ [n]) \<longleftrightarrow> successively follows (k # ns) \<and> follows (last (k # ns)) n"
  using successively_append_iff [of follows "k # ns" "[n]"] by simp

lemma follows_refl [simp]: "follows n n"
  by (simp add: follows_def)

lemma follows_0: "follows a 0 \<Longrightarrow> a = 0"
  by (auto simp: follows_def)

lemma line_start: "resumes D n \<Longrightarrow> line D [] [n] []"
  by (auto simp: line_def)

lemma line_message: "line D ns [n] [] \<Longrightarrow> line D (ns @ [n]) [] [n]"
  by (cases "ns = []") (auto simp: line_def)

lemma line_genesis: "line D ns [0] [] \<Longrightarrow> line D ns [] [0]"
  unfolding line_def chain_snoc by (auto dest: follows_0 split: if_splits)

lemma line_drop: "line D ns [n] [] \<Longrightarrow> line D ns [] []"
  unfolding line_def chain_snoc by auto

lemma line_compare: "line D ns [] [c] \<Longrightarrow> line D ns [compare b c] []"
  unfolding line_def chain_snoc by (auto simp: follows_compare)

definition flow_inv :: "u32 set \<Rightarrow> event list \<Rightarrow> pipeline \<Rightarrow> bool" where
  "flow_inv D as s \<longleftrightarrow> tokens s \<le> 1 \<and> schema_inv (tables (db (world s))) \<and>
     dom (block_rows (db (world s))) = D \<union> {n \<in> set (archived_numbers as). n < 10000000} \<and>
     (if initializer_pending s then archived_numbers as = [] \<and> archiver_send (exec_task s) = []
      else line D (archived_numbers as @ numbers (archiver_send (exec_task s))) (executor_recv s) (comparer_send (exec_task s)))"

lemma flow_inv_initialize:
  assumes inv: "flow_inv D as s" and p: "initializer_pending s" and run: "initializer_run e (db (world s)) = (r, d)"
    and rel: "pool_faults e = no_faults" "stmt_faults e = no_faults"
  shows "\<exists>n. r = Ok n \<and> resumes D n \<and> tables d = tables (db (world s))"
proof -
  have rows: "schema_inv (tables (db (world s)))" "dom (block_rows (db (world s))) = D"
    using inv p by (auto simp: flow_inv_def)
  have "is_ok (fst (max_block_num e (db (world s))))"
    by (simp add: max_block_num_def call_no_faults [OF rel] max_block_num_stmt_def)
  with initializer_resumes [OF rows(1), of e] run initializer_run_rows [OF run] rows(2) show ?thesis
    by (cases r) (auto simp: resumes_def split: if_splits)
qed

lemma flow_inv_step:
  assumes inv: "flow_inv D as s" and step: "pipeline_step xe ne s a t" and rel: "reliable ne"
    and fit: "\<forall>mp\<in>set (archiver_send (exec_task s)). 0 \<le> sint (bm_spec_version (fst mp))"
  shows "flow_inv D (as @ [a]) t"
proof -
  have pg: "pool_faults (ne_pg ne) = no_faults" "stmt_faults (ne_pg ne) = no_faults"
    using rel by (simp_all add: reliable_def)
  have one: "executor_recv s = n # q \<Longrightarrow> q = [] \<and> comparer_send (exec_task s) = [] \<and> \<not> initializer_pending s"
    "comparer_send (exec_task s) = n # q \<Longrightarrow> q = [] \<and> executor_recv s = [] \<and> \<not> initializer_pending s"
    "initializer_pending s \<Longrightarrow> executor_recv s = [] \<and> comparer_send (exec_task s) = []" for n q
    using inv by (auto simp: flow_inv_def tokens_def split: if_splits)
  let ?ns = "archived_numbers as @ numbers (archiver_send (exec_task s))"
  from step show ?thesis
  proof cases
    case (execute n q r x)
    note o = one(1) [OF execute(4)]
    then have l: "line D ?ns [n] []" using inv execute(4) by (simp add: flow_inv_def)
    from executor_effect [OF execute(5)] execute(6) consider "archiver_send x = archiver_send (exec_task s)" "n = 0"
      | m p where "archiver_send x = archiver_send (exec_task s) @ [(m, p)]" "bm_block_num m = n" by auto
    then have "line D (archived_numbers as @ numbers (archiver_send x)) [] [n]"
    proof cases
      case 1
      then show ?thesis using l line_genesis [of D ?ns] by simp
    next
      case (2 m p)
      then show ?thesis using line_message [OF l] by simp
    qed
    moreover have "comparer_send x = [n]" using executor_effect [OF execute(5)] execute(6) o by simp
    ultimately show ?thesis using inv o execute by (simp add: flow_inv_def tokens_def)
  next
    case (execute_dies n q e x)
    note o = one(1) [OF execute_dies(4)]
    then have "line D ?ns [] []" using inv execute_dies(4) by (auto simp: flow_inv_def intro: line_drop)
    with executor_effect [OF execute_dies(5)] o inv execute_dies show ?thesis by (simp add: flow_inv_def tokens_def)
  next
    case (archive m p q r w)
    have "0 \<le> sint (bm_spec_version m)" using fit archive(4) by simp
    from notifier_stored_exactly [OF _ rel this, of "world s" p] archive(5) inv
    have "dom (block_rows (db w)) = D \<union> {n \<in> set (archived_numbers as). n < 10000000} \<union> {n. n = bm_block_num m \<and> n < 10000000}"
      by (simp add: flow_inv_def)
    then have "dom (block_rows (db w)) = D \<union> {n \<in> set (archived_numbers (as @ [a])). n < 10000000}"
      using archive(1) by auto
    moreover have "schema_inv (tables (db w))"
      using preservesD [OF notifier_archive_schema, of "world s" ne m p] inv archive(5) by (simp add: flow_inv_def)
    moreover have "\<not> initializer_pending s" using inv archive(4) by (auto simp: flow_inv_def)
    ultimately show ?thesis using inv archive by (simp add: flow_inv_def tokens_def)
  next
    case (archive_dies m p q e w)
    then show ?thesis using notifier_reliable_no_panic [OF rel, of m p "world s"] by simp
  next
    case (initialize n d)
    from flow_inv_initialize [OF inv initialize(3,4) pg] one(3) [OF initialize(3)] inv initialize
      initializer_run_rows [OF initialize(4)] show ?thesis
      by (simp add: flow_inv_def tokens_def line_start)
  next
    case (initialize_dies w d)
    from flow_inv_initialize [OF inv initialize_dies(3,4) pg] show ?thesis by simp
  next
    case (compare_next n q)
    note o = one(2) [OF compare_next(3)]
    then have "line D ?ns [] [n]" using inv compare_next(3) by (simp add: flow_inv_def)
    from line_compare [OF this, of "best s"] o inv compare_next show ?thesis by (simp add: flow_inv_def tokens_def)
  next
    case (import_block b)
    with inv show ?thesis by (simp add: flow_inv_def tokens_def)
  qed
qed

interpretation flow: trace_invariant "pipeline_step xe ne"
  "\<lambda>s. \<exists>f k w b. s = pipeline_start f k w b \<and> (f \<longrightarrow> D = {}) \<and> dom (block_rows (db w)) = D \<and>
     schema_inv (tables (db w)) \<and> faithful_db xe (db w)"
  "\<lambda>as s. collision_free (xe_version xe) \<and> reliable ne \<and> versions_fit (xe_version xe) \<longrightarrow>
     faithful_inv xe s \<and> flow_inv D as s" for xe ne D
proof unfold_locales
  show "collision_free (xe_version xe) \<and> reliable ne \<and> versions_fit (xe_version xe) \<longrightarrow>
      faithful_inv xe s \<and> flow_inv D [] s"
    if "\<exists>f k w b. s = pipeline_start f k w b \<and> (f \<longrightarrow> D = {}) \<and> dom (block_rows (db w)) = D \<and>
       schema_inv (tables (db w)) \<and> faithful_db xe (db w)" for s
    using that by (auto simp: faithful_inv_def flow_inv_def tokens_def pipeline_start_def cache_inv_new resumes_def
        intro!: line_start)
  show "collision_free (xe_version xe) \<and> reliable ne \<and> versions_fit (xe_version xe) \<longrightarrow>
      faithful_inv xe t \<and> flow_inv D (as @ [a]) t"
    if "collision_free (xe_version xe) \<and> reliable ne \<and> versions_fit (xe_version xe) \<longrightarrow>
        faithful_inv xe s \<and> flow_inv D as s" "pipeline_step xe ne s a t" for as s a t
    using that faithful_inv_step [of xe s ne a t] flow_inv_step [of D as s xe ne a t]
      faithful_version [of "xe"] by (simp add: faithful_inv_def)
qed

section \<open>Numbers without a gap\<close>

lemma chain_between:
  assumes "successively follows ns" and "i \<in> set ns" and "j \<in> set ns" and "i \<le> x" and "x \<le> j"
  shows "x \<in> set ns"
proof -
  have "ns \<noteq> []" using assms(2) by auto
  note all = contiguous_interval [OF assms(1) this]
  then have "unat (hd ns) \<le> unat i" "unat j \<le> unat (last ns)" using assms(2,3) by auto
  with assms(4,5) have "unat x \<in> {unat (hd ns)..unat (last ns)}" by (auto simp: word_le_nat_alt)
  with all have "unat x \<in> unat ` set ns" by simp
  then show ?thesis by (metis imageE word_unat_eq_iff)
qed

lemma line_prefix: "line D (xs @ ys) recv sent \<Longrightarrow> line D xs [] []"
  unfolding line_def by (auto simp flip: append_Cons simp: successively_append_iff)

lemma line_no_gaps:
  assumes "line D ns recv sent" and "no_gaps D"
  shows "no_gaps (D \<union> {n \<in> set ns. n < 10000000})"
proof -
  obtain k where k: "resumes D k" "successively follows (k # ns)"
    using line_prefix [of D ns "[]" recv sent] assms(1) unfolding line_def [of D ns "[]" "[]"] by auto
  have ns: "successively follows ns" using k(2) by (cases ns) simp_all
  have ge: "k \<le> n" if "n \<in> set ns" for n
    using contiguous_interval [OF k(2)] that by (auto simp: word_le_nat_alt)
  show ?thesis
    unfolding no_gaps_def
  proof (intro ballI subsetI)
    fix i j x assume i: "i \<in> D \<union> {n \<in> set ns. n < 10000000}" and j: "j \<in> D \<union> {n \<in> set ns. n < 10000000}"
      and "x \<in> {i..j}"
    then have x: "i \<le> x" "x \<le> j" by simp_all
    show "x \<in> D \<union> {n \<in> set ns. n < 10000000}"
    proof (cases "D = {}")
      case True
      with i j have "i \<in> set ns" "j \<in> set ns" "j < 10000000" by auto
      with chain_between [OF ns this(1,2) x] x(2) show ?thesis by (auto intro: le_less_trans)
    next
      case False
      with k(1) have d: "k \<in> D" "\<And>e. e \<in> D \<Longrightarrow> e \<le> k" by (auto simp: resumes_def)
      show ?thesis
      proof (cases "x \<le> k")
        case True
        have "i \<in> D \<or> x = k" using i True x(1) ge [of i] by auto
        with True d(1) x(1) have "x \<in> D" using no_gapsD [OF assms(2)] by blast
        then show ?thesis by simp
      next
        case gt: False
        with d x j have "j \<in> set ns" "j < 10000000" by (auto dest: order.trans)
        moreover have "k \<le> x" using gt by simp
        ultimately have "x \<in> set (k # ns)" using chain_between [OF k(2), of k j x] x(2) by simp
        with gt \<open>j < 10000000\<close> x(2) show ?thesis by (auto intro: le_less_trans)
      qed
    qed
  qed
qed

section \<open>Blocks that were announced\<close>

text \<open>A record on Kafka that carries the block which the chain has under a number.\<close>

definition announced :: "('st, 'api) exec_env \<Rightarrow> notify_env \<Rightarrow> archive_world \<Rightarrow> u32 \<Rightarrow> bool" where
  "announced xe ne w n \<longleftrightarrow> (\<exists>x\<in>set (delivered (producer w)). \<exists>mp. message_of xe mp \<and>
     bm_block_num (fst mp) = n \<and> published ne x mp)"

text \<open>Only the greatest stored number may lack its record.\<close>

definition told :: "(u32 \<Rightarrow> bool) \<Rightarrow> u32 set \<Rightarrow> bool" where
  "told T D \<longleftrightarrow> (\<forall>n\<in>D. n = 0 \<or> T n \<or> (\<forall>k\<in>D. k \<le> n))"

lemma chain_last_max:
  assumes "successively follows (ns @ [m])" and "n \<in> set ns"
  shows "n \<le> m"
  using contiguous_interval [OF assms(1)] assms(2) by (auto simp: word_le_nat_alt)

lemma line_told:
  assumes line: "line D ns [] []" and ns: "ns = A \<or> ns = A @ [m]"
    and A: "\<And>n. n \<in> set A \<Longrightarrow> n < 10000000 \<Longrightarrow> T n"
    and D: "told T D" "\<And>n. n \<in> D \<Longrightarrow> n < 10000000"
  shows "told T (D \<union> {n \<in> set ns. n < 10000000})"
  unfolding told_def
proof (rule ballI, rule ccontr)
  obtain k where k: "resumes D k" "successively follows (k # ns)" "k \<noteq> 0 \<Longrightarrow> ns \<noteq> [] \<Longrightarrow> hd ns = k"
    using line by (auto simp: line_def split: if_splits)
  fix n assume n: "n \<in> D \<union> {n \<in> set ns. n < 10000000}"
    and "\<not> (n = 0 \<or> T n \<or> (\<forall>j\<in>D \<union> {n \<in> set ns. n < 10000000}. j \<le> n))"
  then have no: "n \<noteq> 0" "\<not> T n" and less: "\<not> (\<forall>j\<in>D \<union> {n \<in> set ns. n < 10000000}. j \<le> n)" by simp_all
  have small: "n < 10000000" using n D(2) by auto
  then have nA: "n \<notin> set A" using A no(2) by blast
  show False
  proof (cases "n \<in> D")
    case True
    with D(1) no have "\<forall>j\<in>D. j \<le> n" unfolding told_def by blast
    have "k \<in> D" "n \<le> k" using True k(1) by (auto simp: resumes_def)
    with \<open>\<forall>j\<in>D. j \<le> n\<close> have nk: "n = k" by (blast intro: order.antisym)
    with \<open>\<forall>j\<in>D. j \<le> n\<close> less have "ns \<noteq> []" by auto
    moreover from this k(3) no(1) nk have "hd ns = n" by simp
    ultimately have "ns = [n]" using nA ns by (cases A) auto
    with less \<open>\<forall>j\<in>D. j \<le> n\<close> show False by auto
  next
    case False
    with n nA ns have m: "ns = A @ [n]" by auto
    have "j \<le> n" if "j \<in> D" for j
    proof -
      have "j \<le> k" using that k(1) by (auto simp: resumes_def)
      also have "k \<le> n" using chain_last_max [of "k # A" n k] k(2) m by simp
      finally show ?thesis .
    qed
    moreover have "j \<le> n" if "j \<in> set ns" for j
      using chain_last_max [of "k # A" n j] k(2) m that by auto
    ultimately show False using less by blast
  qed
qed

text \<open>Records are never taken back.\<close>

lemma notifier_delivered:
  "set (delivered (producer w)) \<subseteq> set (delivered (producer (snd (notifier_archive ne m p w))))"
  using notifier_records [of ne m p w] by auto

lemma announced_mono:
  "announced xe ne w n \<Longrightarrow> set (delivered (producer w)) \<subseteq> set (delivered (producer w')) \<Longrightarrow> announced xe ne w' n"
  by (auto simp: announced_def)

definition told_inv ::
  "('st, 'api) exec_env \<Rightarrow> notify_env \<Rightarrow> archive_world \<Rightarrow> event list \<Rightarrow> pipeline \<Rightarrow> bool" where
  "told_inv xe ne w as s \<longleftrightarrow> set (delivered (producer w)) \<subseteq> set (delivered (producer (world s))) \<and>
     (\<forall>mp\<in>set (archiver_send (exec_task s)). message_of xe mp) \<and>
     (\<forall>n\<in>set (archived_numbers as). n < 10000000 \<longrightarrow> announced xe ne (world s) n)"

lemma told_inv_step:
  assumes inv: "told_inv xe ne w as s" and faith: "faithful_inv xe s" and step: "pipeline_step xe ne s a t"
    and free: "collision_free (xe_version xe)" and rel: "reliable ne" and fit: "versions_fit (xe_version xe)"
  shows "told_inv xe ne w (as @ [a]) t"
  using step
proof cases
  case (execute n q r x)
  have cache: "cache_inv (xe_version xe) (version_cache (exec_task s))"
    using faith execute(3) by (simp add: faithful_inv_def)
  from executor_message_over [OF execute(5,6) cache order.refl] free
  have "\<forall>mp\<in>set (archiver_send x). mp \<in> set (archiver_send (exec_task s)) \<or> message_of xe mp"
    by (auto simp: collision_free_def)
  with inv execute show ?thesis by (auto simp: told_inv_def)
next
  case (execute_dies n q e x)
  with executor_effect [OF execute_dies(5)] inv show ?thesis by (simp add: told_inv_def)
next
  case (archive m p q r v)
  have msg: "message_of xe (m, p)" using inv archive(4) by (simp add: told_inv_def)
  then have "0 \<le> sint (bm_spec_version m)" using faithful_version [OF fit] message_of_faithful by fastforce
  note total = notifier_archive_total [OF rel _ this, of p "world s"]
  have mono: "set (delivered (producer (world s))) \<subseteq> set (delivered (producer v))"
    using notifier_delivered [of "world s" ne m p] archive(5) by simp
  have "announced xe ne v (bm_block_num m)" if "bm_block_num m < 10000000"
  proof -
    from total [OF that] archive(5) have "notifier_archive ne m p (world s) = (Ok (), v)" by auto
    from notifier_archive_ok(2) [OF this] obtain rs x where
      "delivered (producer v) = delivered (producer (world s)) @ rs @ [x]" "published ne x (m, p)"
      by (auto simp: published_def)
    with msg show ?thesis unfolding announced_def by fastforce
  qed
  moreover have "announced xe ne v n" if "announced xe ne (world s) n" for n
    using that mono by (rule announced_mono)
  ultimately show ?thesis using inv mono archive by (auto simp: told_inv_def)
next
  case (archive_dies m p q e v)
  then show ?thesis using notifier_reliable_no_panic [OF rel, of m p "world s"] by simp
qed (use inv in \<open>auto simp: told_inv_def announced_def\<close>)

interpretation telling: trace_invariant "pipeline_step xe ne"
  "\<lambda>s. started s \<and> faithful_db xe (db (world s)) \<and> world s = w"
  "\<lambda>as s. collision_free (xe_version xe) \<and> reliable ne \<and> versions_fit (xe_version xe) \<longrightarrow>
     faithful_inv xe s \<and> told_inv xe ne w as s" for xe ne w
proof unfold_locales
  show "collision_free (xe_version xe) \<and> reliable ne \<and> versions_fit (xe_version xe) \<longrightarrow>
      faithful_inv xe s \<and> told_inv xe ne w [] s"
    if "started s \<and> faithful_db xe (db (world s)) \<and> world s = w" for s
    using that by (auto simp: started_def faithful_inv_def told_inv_def pipeline_start_def cache_inv_new)
qed (blast intro: faithful_inv_step told_inv_step)

section \<open>One life and many\<close>

text \<open>What a life needs of the world it starts on, and keeps.\<close>

definition sound_world :: "('st, 'api) exec_env \<Rightarrow> notify_env \<Rightarrow> archive_world \<Rightarrow> bool" where
  "sound_world xe ne w \<longleftrightarrow> schema_inv (tables (db w)) \<and> faithful_db xe (db w) \<and>
     no_gaps (dom (block_rows (db w))) \<and> told (announced xe ne w) (dom (block_rows (db w)))"

text \<open>The stored numbers of a stopped process: those of completed rounds of the notifier, and perhaps that
  of the round that was cut off.\<close>

lemma stopped_rows:
  assumes flow: "flow_inv D as t" and stop: "stopped t w'" and D: "no_gaps D" "told (announced xe ne w) D"
    "\<And>n. n \<in> D \<Longrightarrow> n < 10000000" and tell: "told_inv xe ne w as t"
  shows "no_gaps (dom (block_rows (db w'))) \<and> told (announced xe ne w') (dom (block_rows (db w'))) \<and>
    D \<subseteq> dom (block_rows (db w'))"
proof -
  let ?A = "archived_numbers as"
  have rows: "schema_inv (tables (db (world t)))" "dom (block_rows (db (world t))) = D \<union> {n \<in> set ?A. n < 10000000}"
    using flow by (simp_all add: flow_inv_def)
  have keep: "set (delivered (producer (world t))) \<subseteq> set (delivered (producer w'))"
    using stop notifier_delivered [of "world t"] unfolding stopped_def by blast
  have A: "announced xe ne w' n" if "n \<in> set ?A" "n < 10000000" for n
    using tell that announced_mono [OF _ keep, of xe ne n] unfolding told_inv_def by blast
  have "set (delivered (producer w)) \<subseteq> set (delivered (producer w'))"
    using tell keep by (auto simp: told_inv_def)
  then have old: "told (announced xe ne w') D"
    using D(2) announced_mono [of xe ne w _ w'] unfolding told_def by blast
  consider "dom (block_rows (db w')) = D" "?A = []"
    | ns where "line D ns [] []" "ns = ?A \<or> (\<exists>m. ns = ?A @ [m])" "dom (block_rows (db w')) = D \<union> {n \<in> set ns. n < 10000000}"
  proof (cases "w' = world t")
    case True
    show ?thesis
    proof (cases "initializer_pending t")
      case True
      with flow rows(2) \<open>w' = world t\<close> show ?thesis by (intro that(1)) (auto simp: flow_inv_def)
    next
      case False
      with flow rows(2) \<open>w' = world t\<close> show ?thesis
        by (intro that(2) [of ?A]) (auto simp: flow_inv_def intro: line_prefix)
    qed
  next
    case False
    with stop obtain ne' m p q where msg: "archiver_send (exec_task t) = (m, p) # q"
      and w': "w' = snd (notifier_archive ne' m p (world t))" by (auto simp: stopped_def)
    have "line D ((?A @ [bm_block_num m]) @ numbers q) (executor_recv t) (comparer_send (exec_task t))"
      using flow msg by (auto simp: flow_inv_def split: if_splits)
    note l = line_prefix [OF this]
    from notifier_stored_numbers [OF rows(1), of ne' m p] show ?thesis
    proof
      assume "dom (block_rows (db (snd (notifier_archive ne' m p (world t))))) = dom (block_rows (db (world t)))"
      then show ?thesis using rows(2) w' line_prefix [OF l] by (intro that(2) [of ?A]) simp_all
    next
      assume "dom (block_rows (db (snd (notifier_archive ne' m p (world t))))) =
        dom (block_rows (db (world t))) \<union> {n. n = bm_block_num m \<and> n < 10000000}"
      then show ?thesis using rows(2) w' l by (intro that(2) [of "?A @ [bm_block_num m]"]) auto
    qed
  qed
  then show ?thesis
  proof cases
    case 1
    with D(1) old show ?thesis by simp
  next
    case (2 ns)
    from 2(2) obtain m where "ns = ?A \<or> ns = ?A @ [m]" by blast
    from line_told [OF 2(1) this A old D(3)] line_no_gaps [OF 2(1) D(1)] 2(3) show ?thesis by simp
  qed
qed

lemma session_sound:
  assumes run: "session xe ne f k w w'" and "f \<longrightarrow> dom (block_rows (db w)) = {}" and good: "sound_world xe ne w"
    and env: "collision_free (xe_version xe)" "reliable ne" "versions_fit (xe_version xe)"
  shows "sound_world xe ne w' \<and> dom (block_rows (db w)) \<subseteq> dom (block_rows (db w'))"
proof -
  let ?D = "dom (block_rows (db w))"
  obtain b as t where t: "runs (pipeline_step xe ne) (pipeline_start f k w b) as t" and stop: "stopped t w'"
    using run by (auto simp: session_def)
  have "faithful_inv xe t \<and> flow_inv ?D as t"
    using flow.inv_runs [OF t, of ?D] assms unfolding sound_world_def by blast
  then have faith: "faithful_inv xe t" and flow: "flow_inv ?D as t" by simp_all
  have tell: "told_inv xe ne w as t"
    using telling.inv_runs [OF t, of w] good env by (simp add: sound_world_def)
  have "schema_inv (tables (db w'))"
    using stop flow preservesD [OF notifier_archive_schema] by (auto simp: stopped_def flow_inv_def)
  moreover have "faithful_db xe (db w')"
    using stop faith faithful_notifier by (fastforce simp: stopped_def faithful_inv_def)
  moreover have "n \<in> ?D \<Longrightarrow> n < 10000000" for n
    using good schema_bound by (auto simp: sound_world_def)
  ultimately show ?thesis
    using stopped_rows [OF flow stop _ _ _ tell] good by (simp add: sound_world_def)
qed

lemma restarts_sound:
  assumes "restarts xe ne w w'" and "sound_world xe ne w"
    and env: "collision_free (xe_version xe)" "reliable ne" "versions_fit (xe_version xe)"
  shows "sound_world xe ne w' \<and> dom (block_rows (db w)) \<subseteq> dom (block_rows (db w'))"
  using assms(1,2)
proof (induction rule: restarts.induct)
  case (restarts_again w w1 k w2)
  then have "sound_world xe ne w1 \<and> dom (block_rows (db w)) \<subseteq> dom (block_rows (db w1))" by simp
  then show ?case
    using session_sound [OF restarts_again.hyps(2) _ _ env] by (meson subset_trans)
qed simp

lemma empty_sound: "dom (block_rows (db w)) = {} \<Longrightarrow> schema_inv (tables (db w)) \<Longrightarrow> sound_world xe ne w"
  by (auto simp: sound_world_def faithful_db_def no_gaps_def told_def)

section \<open>Properties\<close>

text \<open>C4: stopping the archive leaves no hole. When the services answer while the process runs, the
  process may be stopped at any moment, between two steps of its tasks or in the middle of writing a
  message, and restarted without the reset flag any number of times: from an empty database on, the
  numbers stored are without a gap, no row is lost, and every row is what executing its block gives.\<close>

theorem restarts_leave_no_gap:
  assumes "session xe ne f k w w1" and "restarts xe ne w1 w2" and "dom (block_rows (db w)) = {}"
    and "schema_inv (tables (db w))"
    and "collision_free (xe_version xe)" and "reliable ne" and "versions_fit (xe_version xe)"
  shows "no_gaps (dom (block_rows (db w2))) \<and> faithful_db xe (db w2) \<and>
    dom (block_rows (db w1)) \<subseteq> dom (block_rows (db w2))"
proof -
  have "sound_world xe ne w1"
    using session_sound [OF assms(1) _ _ assms(5-7)] empty_sound [OF assms(3,4)] assms(3) by blast
  from restarts_sound [OF assms(2) this assms(5-7)] show ?thesis by (simp add: sound_world_def)
qed

text \<open>C5: delivery is at least once, also across restarts. Under the same conditions every block that is
  stored has a record on Kafka with the block that the chain has under its number (genesis apart), except
  perhaps the greatest one, the one a stopped process may have been writing.\<close>

theorem stored_blocks_are_announced:
  assumes "session xe ne f k w w1" and "restarts xe ne w1 w2" and "dom (block_rows (db w)) = {}"
    and "schema_inv (tables (db w))"
    and "collision_free (xe_version xe)" and "reliable ne" and "versions_fit (xe_version xe)"
    and "{i, j} \<subseteq> dom (block_rows (db w2))" and "i \<noteq> 0" and "i < j"
  shows "announced xe ne w2 i"
proof -
  have "sound_world xe ne w1"
    using session_sound [OF assms(1) _ _ assms(5-7)] empty_sound [OF assms(3,4)] assms(3) by blast
  from restarts_sound [OF assms(2) this assms(5-7)] have "told (announced xe ne w2) (dom (block_rows (db w2)))"
    by (simp add: sound_world_def)
  then have "i = 0 \<or> announced xe ne w2 i \<or> (\<forall>k\<in>dom (block_rows (db w2)). k \<le> i)"
    using assms(8) unfolding told_def by blast
  with assms(8-10) show ?thesis by (auto dest!: bspec [of _ _ j])
qed

section \<open>The concrete chain\<close>

text \<open>A process that archived blocks 3 and 4 is stopped; the next one asks the database where to go on.\<close>

lemma demo_first_life:
  obtains w where "session demo_exec_env (demo_notify_env no_faults) True 3 empty_world w"
    "{3, 4} \<subseteq> dom (block_rows (db w))" "schema_inv (tables (db w))"
proof -
  obtain t where t: "runs (pipeline_step demo_exec_env (demo_notify_env no_faults)) (pipeline_start True 3 empty_world 9) demo_trace t"
    "archiver_send (exec_task t) = []"
    by (rule demo_reliable_run)
  have "executed_numbers demo_trace \<noteq> []" by simp
  note sub = executed_rows_stored [OF t(1) demo_chain_facts(1,3) demo_notify_reliable demo_chain_facts(2) t(2) this]
  have "3 \<in> dom (block_rows (db (world t)))" "4 \<in> dom (block_rows (db (world t)))"
    by (rule subsetD [OF sub], simp)+
  moreover have "schema_inv (tables (db (world t)))"
    using schema.inv_runs [OF t(1)] demo_chain_facts(4) by simp
  moreover have "session demo_exec_env (demo_notify_env no_faults) True 3 empty_world (world t)"
    using t(1) by (auto simp: session_def stopped_def)
  ultimately show ?thesis by (intro that [of "world t"]) simp_all
qed

lemma demo_second_life:
  obtains w2 where "restarts demo_exec_env (demo_notify_env no_faults) w w2"
    "session demo_exec_env (demo_notify_env no_faults) False 0 w w2"
proof -
  let ?s = "pipeline_start False 0 w 9"
  have "is_ok (fst (max_block_num pg_ok (db w)))"
    by (simp add: max_block_num_def call_no_faults [OF pg_ok_no_faults] max_block_num_stmt_def)
  then obtain m d where "max_block_num pg_ok (db w) = (Ok m, d)"
    by (cases "max_block_num pg_ok (db w)") (auto elim: is_okE)
  then obtain n where "initializer_run (ne_pg (demo_notify_env no_faults)) (db (world ?s)) = (Ok n, d)"
    by (simp add: demo_notify_env_def initializer_run_def)
  then obtain t where "pipeline_step demo_exec_env (demo_notify_env no_faults) ?s (Initialized n) t"
    using initialize [of ?s "demo_notify_env no_faults" n d] by (auto simp: pipeline_start_def)
  then have "runs (pipeline_step demo_exec_env (demo_notify_env no_faults)) ?s [Initialized n] t"
    by (rule runs_step [OF runs_Nil]) simp
  then have life: "session demo_exec_env (demo_notify_env no_faults) False 0 w (world t)"
    by (auto simp: session_def stopped_def)
  from restarts_again [OF restarts_none life] life show ?thesis by (rule that)
qed

lemma demo_empty: "dom (block_rows (db empty_world)) = {}"
  by (simp add: empty_world_def block_rows_def create_tables_def rows_by_def)

theorem restarts_leave_no_gap_witness:
  "\<exists>w1 w2. session demo_exec_env (demo_notify_env no_faults) True 3 empty_world w1 \<and>
     restarts demo_exec_env (demo_notify_env no_faults) w1 w2 \<and>
     no_gaps (dom (block_rows (db w2))) \<and> {3, 4} \<subseteq> dom (block_rows (db w2))"
proof -
  obtain w1 where w1: "session demo_exec_env (demo_notify_env no_faults) True 3 empty_world w1"
    "{3, 4} \<subseteq> dom (block_rows (db w1))"
    by (rule demo_first_life)
  obtain w2 where w2: "restarts demo_exec_env (demo_notify_env no_faults) w1 w2"
    by (rule demo_second_life)
  from restarts_leave_no_gap [OF w1(1) w2 demo_empty demo_chain_facts(4) demo_chain_facts(1) demo_notify_reliable demo_chain_facts(2)]
    w1 w2 show ?thesis by blast
qed

theorem stored_blocks_are_announced_witness:
  "\<exists>w1. session demo_exec_env (demo_notify_env no_faults) True 3 empty_world w1 \<and>
     announced demo_exec_env (demo_notify_env no_faults) w1 3"
proof -
  obtain w1 where w1: "session demo_exec_env (demo_notify_env no_faults) True 3 empty_world w1"
    "{3, 4} \<subseteq> dom (block_rows (db w1))"
    by (rule demo_first_life)
  have "(3::u32) \<noteq> 0" "(3::u32) < 4" by simp_all
  from stored_blocks_are_announced [OF w1(1) restarts_none demo_empty demo_chain_facts(4) demo_chain_facts(1)
      demo_notify_reliable demo_chain_facts(2) w1(2) this] w1(1) show ?thesis by blast
qed

end
