(* ===== verification/Task_Loops.thy ===== *)
theory Task_Loops
  imports Pipeline
begin

text \<open>
  The receive loops of the tasks (\<open>run\<close> of the executor, the notifier and the comparer) as programs over
  the items of their channel, and their place in the pipeline: a task that works through its channel is
  a run of the step relation.
\<close>

section \<open>Receive loops\<close>

text \<open>\<open>loop { match recv.next().await { Some(item) => handle(item), None => return } }\<close> over the items that
  arrive before the channel is closed: errors are dropped, a panic ends the task.\<close>

definition receive_all :: "('a \<Rightarrow> ('s, 'e, unit) prog) \<Rightarrow> 'a list \<Rightarrow> ('s, 'e, unit) prog" where
  "receive_all handle = for_each_prog (\<lambda>x. ignore_result (handle x))"

definition executor_loop :: "('st, 'api) exec_env \<Rightarrow> u32 list \<Rightarrow> (executor, blockchain_error, unit) prog" where
  "executor_loop xe = receive_all (executor_archive xe)"

definition notifier_loop :: "notify_env \<Rightarrow> ArchiveSendMsg list \<Rightarrow> (archive_world, blockchain_error, unit) prog" where
  "notifier_loop ne = receive_all (\<lambda>(m, p). notifier_archive ne m p)"

text \<open>The comparer asks the backend for the best block each time; here between two imports.\<close>

definition comparer_loop :: "u32 \<Rightarrow> u32 list \<Rightarrow> (u32 list, 'e, unit) prog" where
  "comparer_loop best_num = receive_all (\<lambda>n. modify_prog (\<lambda>q. q @ [compare best_num n]))"

section \<open>A task in a system\<close>

text \<open>The contract of a task: while it is alive, taking one item from its channel is a step of the
  system that changes the task's part of the state as its handler does, and it survives unless the
  handler panics.\<close>

locale receiving_task =
  fixes step :: "'s \<Rightarrow> 'l \<Rightarrow> 's \<Rightarrow> bool"
    and queue :: "'s \<Rightarrow> 'a list"
    and part :: "'s \<Rightarrow> 'p"
    and alive :: "'s \<Rightarrow> bool"
    and handle :: "'a \<Rightarrow> ('p, 'e, unit) prog"
  assumes receive: "alive s \<Longrightarrow> queue s = x # q \<Longrightarrow> handle x (part s) = (r, p) \<Longrightarrow>
    \<exists>l t. step s l t \<and> queue t = q \<and> part t = p \<and> (alive t \<longleftrightarrow> \<not> is_panic r)"
begin

lemma runs_Cons: "runs step t as u \<Longrightarrow> step s a t \<Longrightarrow> runs step s (a # as) u"
proof (induction rule: runs.induct)
  case (runs_Nil t)
  then show ?case using runs_snoc [OF runs.runs_Nil] by fastforce
next
  case (runs_snoc t as u b v)
  then show ?case using runs.runs_snoc by fastforce
qed

lemma loop_is_run:
  "alive s \<Longrightarrow> queue s = xs \<Longrightarrow> receive_all handle xs (part s) = (r, p) \<Longrightarrow>
   \<exists>as t. runs step s as t \<and> part t = p \<and> (alive t \<longleftrightarrow> \<not> is_panic r) \<and> (alive t \<longrightarrow> queue t = [])"
proof (induction xs arbitrary: s)
  case Nil
  then show ?case by (intro exI [of _ "[]"] exI [of _ s]) (auto simp: receive_all_def runs_Nil)
next
  case (Cons x xs)
  obtain r1 p1 where h: "handle x (part s) = (r1, p1)" by (cases "handle x (part s)")
  obtain l t where t: "step s l t" "queue t = xs" "part t = p1" "alive t \<longleftrightarrow> \<not> is_panic r1"
    using receive [OF Cons.prems(1,2) h] by blast
  show ?case
  proof (cases "is_panic r1")
    case True
    with h Cons.prems(3) have "is_panic r" "p = p1"
      by (cases r1; auto simp: receive_all_def ignore_result_def pbind_def)+
    with t True runs_Cons [OF runs_Nil t(1)] show ?thesis by blast
  next
    case False
    with h Cons.prems(3) have "receive_all handle xs (part t) = (r, p)"
      by (cases r1) (auto simp: receive_all_def ignore_result_def pbind_def t(3))
    from Cons.IH [OF _ t(2) this] t(4) False runs_Cons [OF _ t(1)] show ?thesis by blast
  qed
qed

end

section \<open>The tasks of the archive\<close>

interpretation executor_task: receiving_task "pipeline_step xe ne" executor_recv exec_task executor_alive
  "executor_archive xe" for xe ne
proof unfold_locales
  fix s :: pipeline and x q r p
  assume a: "executor_alive s" "executor_recv s = x # q" "executor_archive xe x (exec_task s) = (r, p)"
  show "\<exists>l t. pipeline_step xe ne s l t \<and> executor_recv t = q \<and> exec_task t = p \<and> (executor_alive t \<longleftrightarrow> \<not> is_panic r)"
  proof (cases r)
    case (Panic w)
    from execute_dies [OF a(1,2) a(3) [unfolded Panic]] Panic show ?thesis by fastforce
  qed (use execute [OF a, of ne] a(1) in fastforce)+
qed

interpretation notifier_task: receiving_task "pipeline_step xe ne" "\<lambda>s. archiver_send (exec_task s)" world
  notifier_alive "\<lambda>(m, p). notifier_archive ne m p" for xe ne
proof unfold_locales
  fix s :: pipeline and x q r w
  assume a: "notifier_alive s" "archiver_send (exec_task s) = x # q" "(case x of (m, p) \<Rightarrow> notifier_archive ne m p) (world s) = (r, w)"
  obtain m p where x: "x = (m, p)" by (cases x)
  show "\<exists>l t. pipeline_step xe ne s l t \<and> archiver_send (exec_task t) = q \<and> world t = w \<and> (notifier_alive t \<longleftrightarrow> \<not> is_panic r)"
  proof (cases r)
    case (Panic e)
    with a x have "notifier_archive ne m p (world s) = (Panic e, w)" by simp
    from archive_dies [OF a(1) a(2) [unfolded x] this, of xe] Panic show ?thesis by fastforce
  qed (use archive [OF a(1) a(2) [unfolded x], of ne r w xe] a x in fastforce)+
qed

interpretation comparer_task: receiving_task "pipeline_step xe ne" "\<lambda>s. comparer_send (exec_task s)" executor_recv
  "\<lambda>s. best s = b" "\<lambda>n. modify_prog (\<lambda>q. q @ [compare b n])" for xe ne b
proof unfold_locales
  fix s :: pipeline and x q p and r :: "('e, unit) result"
  assume a: "best s = b" "comparer_send (exec_task s) = x # q" "modify_prog (\<lambda>q. q @ [compare b x]) (executor_recv s) = (r, p)"
  from compare_next [OF a(2), of xe ne] a(1,3)
  show "\<exists>l t. pipeline_step xe ne s l t \<and> comparer_send (exec_task t) = q \<and> executor_recv t = p \<and> (best t = b \<longleftrightarrow> \<not> is_panic r)"
    by fastforce
qed

text \<open>The notifier that works through what the executor sent.\<close>

lemma notifier_loop_is_run:
  assumes "notifier_alive s" and "notifier_loop ne (archiver_send (exec_task s)) (world s) = (r, w)"
  shows "\<exists>as t. runs (pipeline_step xe ne) s as t \<and> world t = w \<and> (notifier_alive t \<longleftrightarrow> \<not> is_panic r)"
  using notifier_task.loop_is_run [OF assms(1) refl, of ne r w xe] assms(2) unfolding notifier_loop_def by blast

lemma executor_loop_is_run:
  assumes "executor_alive s" and "executor_loop xe (executor_recv s) (exec_task s) = (r, x)"
  shows "\<exists>as t. runs (pipeline_step xe ne) s as t \<and> exec_task t = x \<and> (executor_alive t \<longleftrightarrow> \<not> is_panic r)"
  using executor_task.loop_is_run [OF assms(1) refl, of xe r x ne] assms(2) unfolding executor_loop_def by blast

lemma comparer_loop_is_run:
  assumes "comparer_loop (best s) (comparer_send (exec_task s)) (executor_recv s) = (r, q)"
  shows "\<exists>as t. runs (pipeline_step xe ne) s as t \<and> executor_recv t = q"
  using comparer_task.loop_is_run [OF refl refl, of s r q xe ne] assms unfolding comparer_loop_def by blast

end
