(* ===== verification/Archive_Runtime.thy ===== *)
theory Archive_Runtime
  imports Version_Cache Complex_Main
begin

text \<open>
  The runtime of the archive node (\<open>runtime/src/lib.rs\<close>, \<open>runtime/src/constants.rs\<close>): its constants of
  money, time and weight with the integer types they have, its version, and its runtime APIs over the
  pallets, which belong to other packages.
\<close>

section \<open>Model\<close>

subsection \<open>Money\<close>

definition DOTS :: Balance where
  "DOTS = 1000000000000"

definition DOLLARS :: Balance where
  "DOLLARS = DOTS div 100"

definition CENTS :: Balance where
  "CENTS = DOLLARS div 100"

definition MILLICENTS :: Balance where
  "MILLICENTS = CENTS div 1000"

definition deposit :: "u32 \<Rightarrow> u32 \<Rightarrow> Balance" where
  "deposit items bytes = ucast items * 20 * DOLLARS + ucast bytes * 100 * MILLICENTS"

definition archive_deposit :: "u32 \<Rightarrow> u32 \<Rightarrow> Balance" where
  "archive_deposit items bytes = ucast items * 10 * CENTS + ucast bytes * 10 * MILLICENTS"

subsection \<open>Time\<close>

definition MILLISECS_PER_BLOCK :: Moment where
  "MILLISECS_PER_BLOCK = 3000"

definition SECS_PER_BLOCK :: Moment where
  "SECS_PER_BLOCK = MILLISECS_PER_BLOCK div 1000"

definition SLOT_DURATION :: Moment where
  "SLOT_DURATION = MILLISECS_PER_BLOCK"

definition PRIMARY_PROBABILITY :: "u64 \<times> u64" where
  "PRIMARY_PROBABILITY = (1, 4)"

datatype AllowedSlots = PrimarySlots | PrimaryAndSecondaryPlainSlots | PrimaryAndSecondaryVRFSlots

record BabeEpochConfiguration =
  epoch_c :: "u64 \<times> u64"
  allowed_slots :: AllowedSlots

definition BABE_GENESIS_EPOCH_CONFIG :: BabeEpochConfiguration where
  "BABE_GENESIS_EPOCH_CONFIG = \<lparr>epoch_c = PRIMARY_PROBABILITY, allowed_slots = PrimaryAndSecondaryPlainSlots\<rparr>"

definition MINUTES :: BlockNumber where
  "MINUTES = 60 div ucast SECS_PER_BLOCK"

definition HOURS :: BlockNumber where
  "HOURS = MINUTES * 60"

definition DAYS :: BlockNumber where
  "DAYS = HOURS * 24"

definition EPOCH_DURATION_IN_BLOCKS :: BlockNumber where
  "EPOCH_DURATION_IN_BLOCKS = 10 * MINUTES"

text \<open>The slot fill rate is a quotient of equal numbers, so the floating point product is exact.\<close>

definition EPOCH_DURATION_IN_SLOTS :: u64 where
  "EPOCH_DURATION_IN_SLOTS =
     (let SLOT_FILL_RATE = real (unat MILLISECS_PER_BLOCK) / real (unat SLOT_DURATION) in
      of_nat (nat \<lfloor>real (unat EPOCH_DURATION_IN_BLOCKS) * SLOT_FILL_RATE\<rfloor>))"

definition EpochDuration :: u64 where
  "EpochDuration = EPOCH_DURATION_IN_SLOTS"

definition ExpectedBlockTime :: Moment where
  "ExpectedBlockTime = MILLISECS_PER_BLOCK"

definition MinimumPeriod :: Moment where
  "MinimumPeriod = SLOT_DURATION div 2"

subsection \<open>Weights\<close>

text \<open>Parts per billion. Making a ratio from a percentage and its product with a weight are the
  library's, parameters of what uses them.\<close>

type_synonym Perbill = u32
type_synonym Weight = u64

definition AVERAGE_ON_INITIALIZE_RATIO :: "(u32 \<Rightarrow> Perbill) \<Rightarrow> Perbill" where
  "AVERAGE_ON_INITIALIZE_RATIO from_percent = from_percent 10"

definition NORMAL_DISPATCH_RATIO :: "(u32 \<Rightarrow> Perbill) \<Rightarrow> Perbill" where
  "NORMAL_DISPATCH_RATIO from_percent = from_percent 75"

definition MAXIMUM_BLOCK_WEIGHT :: "Weight \<Rightarrow> Weight" where
  "MAXIMUM_BLOCK_WEIGHT weight_per_second = 2 * weight_per_second"

datatype DispatchClass = Normal_class | Operational_class | Mandatory_class

text \<open>\<open>DispatchClass::all()\<close> lists the classes in the order of their declaration.\<close>

lemma UNIV_DispatchClass: "UNIV = {Normal_class, Operational_class, Mandatory_class}"
  by (auto intro: DispatchClass.exhaust)

instantiation DispatchClass :: enum
begin

definition enum_DispatchClass :: "DispatchClass list" where
  "enum_DispatchClass = [Normal_class, Operational_class, Mandatory_class]"

definition enum_all_DispatchClass :: "(DispatchClass \<Rightarrow> bool) \<Rightarrow> bool" where
  "enum_all_DispatchClass P \<longleftrightarrow> P Normal_class \<and> P Operational_class \<and> P Mandatory_class"

definition enum_ex_DispatchClass :: "(DispatchClass \<Rightarrow> bool) \<Rightarrow> bool" where
  "enum_ex_DispatchClass P \<longleftrightarrow> P Normal_class \<or> P Operational_class \<or> P Mandatory_class"

instance
  by standard (simp_all add: UNIV_DispatchClass enum_DispatchClass_def enum_all_DispatchClass_def enum_ex_DispatchClass_def)

end

record WeightsPerClass =
  wc_base_extrinsic :: Weight
  wc_max_total :: "Weight option"
  wc_reserved :: "Weight option"

record BlockWeights =
  bw_base_block :: Weight
  bw_per_class :: "DispatchClass \<Rightarrow> WeightsPerClass"
  bw_avg_block_initialization :: Perbill

text \<open>The builder of the library changes the limits of the listed classes; \<open>library_default\<close> is what it
  starts from.\<close>

definition for_class ::
  "DispatchClass list \<Rightarrow> (WeightsPerClass \<Rightarrow> WeightsPerClass) \<Rightarrow> (DispatchClass \<Rightarrow> WeightsPerClass) \<Rightarrow>
     DispatchClass \<Rightarrow> WeightsPerClass" where
  "for_class classes f per_class = (\<lambda>c. if c \<in> set classes then f (per_class c) else per_class c)"

definition RuntimeBlockWeights ::
  "(u32 \<Rightarrow> Perbill) \<Rightarrow> (Perbill \<Rightarrow> Weight \<Rightarrow> Weight) \<Rightarrow> Weight \<Rightarrow> Weight \<Rightarrow> Weight \<Rightarrow>
     (DispatchClass \<Rightarrow> WeightsPerClass) \<Rightarrow> BlockWeights" where
  "RuntimeBlockWeights from_percent mul weight_per_second block_execution extrinsic_base library_default =
     (let maximum = MAXIMUM_BLOCK_WEIGHT weight_per_second;
          per_class1 = for_class Enum.enum (\<lambda>w. w\<lparr>wc_base_extrinsic := extrinsic_base\<rparr>) library_default;
          per_class2 = for_class [Normal_class]
            (\<lambda>w. w\<lparr>wc_max_total := Some (mul (NORMAL_DISPATCH_RATIO from_percent) maximum)\<rparr>) per_class1;
          per_class3 = for_class [Operational_class]
            (\<lambda>w. w\<lparr>wc_max_total := Some maximum,
               wc_reserved := Some (maximum - mul (NORMAL_DISPATCH_RATIO from_percent) maximum)\<rparr>) per_class2 in
      \<lparr>bw_base_block = block_execution, bw_per_class = per_class3,
       bw_avg_block_initialization = AVERAGE_ON_INITIALIZE_RATIO from_percent\<rparr>)"

subsection \<open>Version\<close>

definition VERSION :: "(bytes \<times> u32) list \<Rightarrow> RuntimeVersion" where
  "VERSION runtime_api_versions = \<lparr>spec_name = ''archive'', impl_name = ''patracts-archive'', authoring_version = 10,
     spec_version = 265, impl_version = 1, apis = runtime_api_versions, transaction_version = 2\<rparr>"

subsection \<open>Runtime APIs\<close>

record BabeGenesisConfiguration =
  bg_slot_duration :: u64
  bg_epoch_length :: u64
  bg_c :: "u64 \<times> u64"
  bg_genesis_authorities :: "bytes list"
  bg_randomness :: bytes
  bg_allowed_slots :: AllowedSlots

text \<open>The pallets, as programs over the state of the runtime.\<close>

record 's pallets =
  executive_execute_block :: "Block \<Rightarrow> 's \<Rightarrow> 's"
  executive_initialize_block :: "Header \<Rightarrow> 's \<Rightarrow> 's"
  executive_apply_extrinsic :: "Extrinsic \<Rightarrow> 's \<Rightarrow> bytes \<times> 's"
  executive_finalize_block :: "'s \<Rightarrow> Header \<times> 's"
  runtime_metadata :: bytes
  create_inherents :: "bytes \<Rightarrow> Extrinsic list"
  check_inherent_data :: "bytes \<Rightarrow> Block \<Rightarrow> bytes"
  runtime_api_versions :: "(bytes \<times> u32) list"
  grandpa_authority_list :: "'s \<Rightarrow> bytes"
  decode_key_owner_proof :: "bytes \<Rightarrow> bytes option"
  grandpa_submit :: "bytes \<Rightarrow> bytes \<Rightarrow> 's \<Rightarrow> unit option \<times> 's"
  babe_submit :: "bytes \<Rightarrow> bytes \<Rightarrow> 's \<Rightarrow> unit option \<times> 's"
  babe_slot_duration :: "'s \<Rightarrow> u64"
  babe_authorities :: "'s \<Rightarrow> bytes list"
  babe_randomness :: "'s \<Rightarrow> bytes"
  babe_current_epoch_start :: "'s \<Rightarrow> u64"
  babe_current_epoch :: "'s \<Rightarrow> bytes"
  babe_next_epoch :: "'s \<Rightarrow> bytes"
  session_keys_generate :: "bytes option \<Rightarrow> bytes"
  session_keys_decode :: "bytes \<Rightarrow> (bytes \<times> bytes) list option"

datatype runtime_call =
    Core_version
  | Core_execute_block Block
  | Core_initialize_block Header
  | Metadata_metadata
  | BlockBuilder_apply_extrinsic Extrinsic
  | BlockBuilder_finalize_block
  | BlockBuilder_inherent_extrinsics bytes
  | BlockBuilder_check_inherents Block bytes
  | GrandpaApi_grandpa_authorities
  | GrandpaApi_submit_report bytes bytes
  | GrandpaApi_generate_key_ownership_proof u64 bytes
  | BabeApi_configuration
  | BabeApi_current_epoch_start
  | BabeApi_current_epoch
  | BabeApi_next_epoch
  | BabeApi_generate_key_ownership_proof u64 bytes
  | BabeApi_submit_report bytes bytes
  | SessionKeys_generate_session_keys "bytes option"
  | SessionKeys_decode_session_keys bytes

datatype runtime_answer =
    Version_answer RuntimeVersion
  | Unit_answer
  | Metadata_answer bytes
  | Apply_answer bytes
  | Header_answer Header
  | Extrinsics_answer "Extrinsic list"
  | Inherents_answer bytes
  | Authorities_answer bytes
  | Report_answer "unit option"
  | Ownership_answer "bytes option"
  | Babe_answer BabeGenesisConfiguration
  | Slot_answer u64
  | Epoch_answer bytes
  | Keys_answer bytes
  | Decoded_keys_answer "(bytes \<times> bytes) list option"

definition babe_configuration :: "'s pallets \<Rightarrow> 's \<Rightarrow> BabeGenesisConfiguration" where
  "babe_configuration p s = \<lparr>bg_slot_duration = babe_slot_duration p s, bg_epoch_length = EpochDuration,
     bg_c = epoch_c BABE_GENESIS_EPOCH_CONFIG, bg_genesis_authorities = babe_authorities p s, bg_randomness = babe_randomness p s,
     bg_allowed_slots = allowed_slots BABE_GENESIS_EPOCH_CONFIG\<rparr>"

definition submit_report ::
  "'s pallets \<Rightarrow> (bytes \<Rightarrow> bytes \<Rightarrow> 's \<Rightarrow> unit option \<times> 's) \<Rightarrow> bytes \<Rightarrow> bytes \<Rightarrow> 's \<Rightarrow> unit option \<times> 's" where
  "submit_report p submit equivocation_proof key_owner_proof s =
     (case decode_key_owner_proof p key_owner_proof of
        None \<Rightarrow> (None, s)
      | Some proof \<Rightarrow> submit equivocation_proof proof s)"

fun runtime_api :: "'s pallets \<Rightarrow> runtime_call \<Rightarrow> 's \<Rightarrow> runtime_answer \<times> 's" where
  "runtime_api p Core_version s = (Version_answer (VERSION (runtime_api_versions p)), s)"
| "runtime_api p (Core_execute_block b) s = (Unit_answer, executive_execute_block p b s)"
| "runtime_api p (Core_initialize_block h) s = (Unit_answer, executive_initialize_block p h s)"
| "runtime_api p Metadata_metadata s = (Metadata_answer (runtime_metadata p), s)"
| "runtime_api p (BlockBuilder_apply_extrinsic x) s = map_prod Apply_answer (\<lambda>t. t) (executive_apply_extrinsic p x s)"
| "runtime_api p BlockBuilder_finalize_block s = map_prod Header_answer (\<lambda>t. t) (executive_finalize_block p s)"
| "runtime_api p (BlockBuilder_inherent_extrinsics data) s = (Extrinsics_answer (create_inherents p data), s)"
| "runtime_api p (BlockBuilder_check_inherents b data) s = (Inherents_answer (check_inherent_data p data b), s)"
| "runtime_api p GrandpaApi_grandpa_authorities s = (Authorities_answer (grandpa_authority_list p s), s)"
| "runtime_api p (GrandpaApi_submit_report e k) s = map_prod Report_answer (\<lambda>t. t) (submit_report p (grandpa_submit p) e k s)"
| "runtime_api p (GrandpaApi_generate_key_ownership_proof set_id authority) s = (Ownership_answer None, s)"
| "runtime_api p BabeApi_configuration s = (Babe_answer (babe_configuration p s), s)"
| "runtime_api p BabeApi_current_epoch_start s = (Slot_answer (babe_current_epoch_start p s), s)"
| "runtime_api p BabeApi_current_epoch s = (Epoch_answer (babe_current_epoch p s), s)"
| "runtime_api p BabeApi_next_epoch s = (Epoch_answer (babe_next_epoch p s), s)"
| "runtime_api p (BabeApi_generate_key_ownership_proof slot authority) s = (Ownership_answer None, s)"
| "runtime_api p (BabeApi_submit_report e k) s = map_prod Report_answer (\<lambda>t. t) (submit_report p (babe_submit p) e k s)"
| "runtime_api p (SessionKeys_generate_session_keys seed) s = (Keys_answer (session_keys_generate p seed), s)"
| "runtime_api p (SessionKeys_decode_session_keys encoded) s = (Decoded_keys_answer (session_keys_decode p encoded), s)"

section \<open>Lemmas\<close>

lemmas money_defs = DOTS_def DOLLARS_def CENTS_def MILLICENTS_def
lemmas time_defs = MILLISECS_PER_BLOCK_def SECS_PER_BLOCK_def SLOT_DURATION_def MINUTES_def HOURS_def DAYS_def
  EPOCH_DURATION_IN_BLOCKS_def

lemma unat_money: "unat DOLLARS = 10000000000" "unat CENTS = 100000000" "unat MILLICENTS = 100000"
  by (simp_all add: money_defs unat_div)

lemma unat_u32_ucast: "unat (ucast (x :: u32) :: Balance) = unat x"
proof -
  have "unat x < 2 ^ 128" using unsigned_less [of x, where ?'a = nat] by simp
  then show ?thesis by (simp add: unsigned_ucast_eq take_bit_nat_eq_self_iff unsigned_take_bit_eq take_bit_nat_eq_self)
qed

text \<open>A sum of products of 32-bit counts with prices stays far below the 128-bit range.\<close>

lemma unat_charge:
  fixes x y :: u32 and a b :: Balance
  assumes "unat a \<le> 2 ^ 64" and "unat b \<le> 2 ^ 64"
  shows "unat (ucast x * a + ucast y * b :: Balance) = unat x * unat a + unat y * unat b"
proof -
  have x: "unat (ucast x :: Balance) = unat x" and y: "unat (ucast y :: Balance) = unat y"
    by (simp_all add: unat_u32_ucast)
  have "unat x < 2 ^ 32" "unat y < 2 ^ 32" using unsigned_less [of x, where ?'a = nat] unsigned_less [of y, where ?'a = nat] by simp_all
  then have lex: "unat x * unat a \<le> 2 ^ 32 * 2 ^ 64" and ley: "unat y * unat b \<le> 2 ^ 32 * 2 ^ 64"
    using assms by (intro mult_mono; simp)+
  then show ?thesis by (simp add: unat_word_ariths x y)
qed

section \<open>Properties\<close>

text \<open>A deposit is the exact sum of the prices of its items and bytes, for every pair of 32-bit
  counts: no multiplication or addition wraps.\<close>

lemma deposit_exact:
  "unat (deposit items bytes) = unat items * 20 * 10000000000 + unat bytes * 100 * 100000 \<and>
   unat (archive_deposit items bytes) = unat items * 10 * 100000000 + unat bytes * 10 * 100000"
proof -
  have p: "unat (20 * DOLLARS) = 200000000000" "unat (100 * MILLICENTS) = 10000000"
      "unat (10 * CENTS) = 1000000000" "unat (10 * MILLICENTS) = 1000000"
    by (simp_all add: money_defs unat_div)
  show ?thesis
    using unat_charge [of "20 * DOLLARS" "100 * MILLICENTS" items bytes]
      unat_charge [of "10 * CENTS" "10 * MILLICENTS" items bytes]
    by (simp add: deposit_def archive_deposit_def p mult.assoc)
qed

text \<open>The units of time agree with the length of a block: a minute, an hour and a day of blocks last
  exactly that long, an epoch of ten minutes has as many slots as blocks, and the minimum period
  between blocks is half a slot.\<close>

lemma time_units_agree:
  "unat MINUTES * unat MILLISECS_PER_BLOCK = 60 * 1000 \<and>
   unat HOURS * unat MILLISECS_PER_BLOCK = 60 * 60 * 1000 \<and>
   unat DAYS * unat MILLISECS_PER_BLOCK = 24 * 60 * 60 * 1000 \<and>
   unat EPOCH_DURATION_IN_SLOTS = unat EPOCH_DURATION_IN_BLOCKS \<and>
   unat EPOCH_DURATION_IN_SLOTS * unat SLOT_DURATION = 10 * 60 * 1000 \<and>
   2 * unat MinimumPeriod = unat SLOT_DURATION"
  by (simp add: time_defs EPOCH_DURATION_IN_SLOTS_def MinimumPeriod_def unat_div)

text \<open>An equivocation report whose ownership proof does not decode is refused before any pallet sees it,
  and the node never generates such a proof.\<close>

lemma undecodable_report_refused:
  assumes "decode_key_owner_proof p k = None"
  shows "runtime_api p (GrandpaApi_submit_report e k) s = (Report_answer None, s)"
    and "runtime_api p (BabeApi_submit_report e k) s = (Report_answer None, s)"
  using assms by (simp_all add: submit_report_def)

text \<open>What normal extrinsics may use and what is reserved for operational ones add up to the whole block,
  whatever the library's product of a ratio and a weight, as long as it is not above the weight.\<close>

lemma normal_and_reserved_fill_block:
  assumes "mul (NORMAL_DISPATCH_RATIO fp) (MAXIMUM_BLOCK_WEIGHT w) \<le> MAXIMUM_BLOCK_WEIGHT w"
  shows "\<exists>n r. wc_max_total (bw_per_class (RuntimeBlockWeights fp mul w b e d) Normal_class) = Some n \<and>
    wc_reserved (bw_per_class (RuntimeBlockWeights fp mul w b e d) Operational_class) = Some r \<and>
    unat n + unat r = unat (MAXIMUM_BLOCK_WEIGHT w)"
  using assms by (simp add: RuntimeBlockWeights_def for_class_def Let_def unat_sub word_le_nat_alt)

end
