(* ===== verification/Mock_Runtime.thy ===== *)
theory Mock_Runtime
  imports Block_Executor
begin

text \<open>
  The runtime API without a native runtime (\<open>archive/runtime/src/mock.rs\<close>): every API method is a
  call into the wasm runtime of the block, wrapped in a transaction of the overlay, or is not
  implemented. The overlay, the storage cache and the call itself belong to the client library;
  \<open>overlay_laws\<close> and \<open>balanced_call\<close> name what the code relies on.
\<close>

section \<open>Model\<close>

datatype ApiError = FailedToDecodeReturnValue string | ApiApplication string

datatype 'a NativeOrEncoded = Native 'a | Encoded bytes

datatype ExecutionContext = OffchainCall | OtherContext nat

datatype InitializeBlockMode = Do_init | Skip_init

record CallApiAtParams =
  cp_at :: BlockId
  cp_function :: string
  cp_arguments :: bytes
  cp_initialize_block :: InitializeBlockMode
  cp_context :: ExecutionContext

text \<open>The changes trie at a block, as the client hands it on.\<close>

type_synonym ChangesTrieState = bytes

text \<open>The state of an API instance; \<open>call\<close> and the phantom field carry no data of their own.\<close>

record ('ov, 'c) MockRuntimeApiImpl =
  initialized_block :: "BlockId option"
  changes :: 'ov
  storage :: 'c

text \<open>The transactional overlay, and the overlay below its innermost open transaction.\<close>

record 'ov overlay_ops =
  start_transaction :: "'ov \<Rightarrow> 'ov"
  commit_transaction :: "'ov \<Rightarrow> 'ov option"
  rollback_transaction :: "'ov \<Rightarrow> 'ov option"
  default_overlay :: 'ov
  below :: "'ov \<Rightarrow> 'ov option"

record ('ov, 'c, 'st, 'a) mock_env =
  overlay :: "'ov overlay_ops"
  default_cache :: 'c
  call_api_at :: "CallApiAtParams \<Rightarrow> (('ov, 'c) MockRuntimeApiImpl, ApiError, 'a NativeOrEncoded) prog"
  runtime_version_at :: "BlockId \<Rightarrow> (ApiError, RuntimeVersion) result"
  version_has_api_with :: "RuntimeVersion \<Rightarrow> bytes \<Rightarrow> (u32 \<Rightarrow> bool) \<Rightarrow> bool"
  decode_value :: "bytes \<Rightarrow> 'a option"
  encode_unit :: bytes
  encode_block :: "Block \<Rightarrow> bytes"
  encode_header :: "Header \<Rightarrow> bytes"
  overlay_into_storage_changes :: "'ov \<Rightarrow> 'st \<Rightarrow> ChangesTrieState option \<Rightarrow> H256 \<Rightarrow> 'c \<Rightarrow> (string, StorageChanges) result"

definition construct_runtime_api :: "('ov, 'c, 'st, 'a) mock_env \<Rightarrow> ('ov, 'c) MockRuntimeApiImpl" where
  "construct_runtime_api env =
     \<lparr>initialized_block = None, changes = default_overlay (overlay env), storage = default_cache env\<rparr>"

definition api_start_transaction :: "('ov, 'c, 'st, 'a) mock_env \<Rightarrow> (('ov, 'c) MockRuntimeApiImpl, 'e, unit) prog" where
  "api_start_transaction env = modify_prog (\<lambda>s. s\<lparr>changes := start_transaction (overlay env) (changes s)\<rparr>)"

definition commit_or_rollback ::
  "('ov, 'c, 'st, 'a) mock_env \<Rightarrow> bool \<Rightarrow> (('ov, 'c) MockRuntimeApiImpl, 'e, unit) prog" where
  "commit_or_rollback env commit s =
     (case (if commit then commit_transaction (overlay env) (changes s)
            else rollback_transaction (overlay env) (changes s)) of
        Some ov \<Rightarrow> (Ok (), s\<lparr>changes := ov\<rparr>)
      | None \<Rightarrow> (Panic ''We only close a transaction when we opened one ourself.'', s))"

text \<open>The wrapped call; the transaction is committed if and only if the call succeeded.\<close>

definition call_params ::
  "string \<Rightarrow> ExecutionContext option \<Rightarrow> bool \<Rightarrow> BlockId \<Rightarrow> bytes \<Rightarrow> CallApiAtParams" where
  "call_params meth context init_block at args =
     \<lparr>cp_at = at, cp_function = meth, cp_arguments = args,
      cp_initialize_block = (if \<not> init_block then Skip_init else Do_init),
      cp_context = (case context of Some c \<Rightarrow> c | None \<Rightarrow> OffchainCall)\<rparr>"

definition call_api_at_native_code ::
  "('ov, 'c, 'st, 'a) mock_env \<Rightarrow> string \<Rightarrow> ExecutionContext option \<Rightarrow> bool \<Rightarrow> BlockId \<Rightarrow> bytes \<Rightarrow>
     (('ov, 'c) MockRuntimeApiImpl, ApiError, 'a NativeOrEncoded) prog" where
  "call_api_at_native_code env meth context init_block at args =
     pbind (api_start_transaction env) (\<lambda>_ s.
       case call_api_at env (call_params meth context init_block at args) s of
         (Ok r, s') \<Rightarrow>
           (case commit_transaction (overlay env) (changes s') of
              Some ov \<Rightarrow> (Ok r, s'\<lparr>changes := ov\<rparr>) | None \<Rightarrow> (Panic ''commit error!'', s'))
       | (Err e, s') \<Rightarrow>
           (case rollback_transaction (overlay env) (changes s') of
              Some ov \<Rightarrow> (Err e, s'\<lparr>changes := ov\<rparr>) | None \<Rightarrow> (Panic ''rollback error!'', s'))
       | (Panic w, s') \<Rightarrow> (Panic w, s'))"

definition call_api_at_decoded ::
  "('ov, 'c, 'st, 'a) mock_env \<Rightarrow> string \<Rightarrow> ExecutionContext option \<Rightarrow> bool \<Rightarrow> BlockId \<Rightarrow> bytes \<Rightarrow>
     (('ov, 'c) MockRuntimeApiImpl, ApiError, 'a) prog" where
  "call_api_at_decoded env meth context init_block at args =
     pbind (api_start_transaction env) (\<lambda>_ s.
       case call_api_at env (call_params meth context init_block at args) s of
         (Ok r, s') \<Rightarrow>
           (case commit_transaction (overlay env) (changes s') of
              None \<Rightarrow> (Panic ''commit error!'', s')
            | Some ov \<Rightarrow>
                (case r of
                   Native n \<Rightarrow> Ok n
                 | Encoded b \<Rightarrow> ok_or (FailedToDecodeReturnValue meth) (decode_value env b),
                 s'\<lparr>changes := ov\<rparr>))
       | (Err e, s') \<Rightarrow>
           (case rollback_transaction (overlay env) (changes s') of
              Some ov \<Rightarrow> (Err e, s'\<lparr>changes := ov\<rparr>) | None \<Rightarrow> (Panic ''rollback error!'', s'))
       | (Panic w, s') \<Rightarrow> (Panic w, s'))"

section \<open>\<open>ApiExt\<close>\<close>

datatype 'r TransactionOutcome = Commit 'r | Rollback 'r

fun into_inner :: "'r TransactionOutcome \<Rightarrow> 'r" where
  "into_inner (Commit r) = r"
| "into_inner (Rollback r) = r"

fun is_commit :: "'r TransactionOutcome \<Rightarrow> bool" where
  "is_commit (Commit r) \<longleftrightarrow> True"
| "is_commit (Rollback r) \<longleftrightarrow> False"

definition execute_in_transaction ::
  "('ov, 'c, 'st, 'a) mock_env \<Rightarrow> (('ov, 'c) MockRuntimeApiImpl, 'e, 'r TransactionOutcome) prog \<Rightarrow>
     (('ov, 'c) MockRuntimeApiImpl, 'e, 'r) prog" where
  "execute_in_transaction env call =
     pbind (api_start_transaction env) (\<lambda>_.
     pbind call (\<lambda>res.
     pbind (commit_or_rollback env (is_commit res)) (\<lambda>_.
       ret (into_inner res))))"

definition has_api_with ::
  "('ov, 'c, 'st, 'a) mock_env \<Rightarrow> bytes \<Rightarrow> BlockId \<Rightarrow> (u32 \<Rightarrow> bool) \<Rightarrow> (ApiError, bool) result" where
  "has_api_with env api_id at pred =
     map_ok (\<lambda>v. version_has_api_with env v api_id pred) (runtime_version_at env at)"

definition has_api ::
  "('ov, 'c, 'st, 'a) mock_env \<Rightarrow> bytes \<Rightarrow> u32 \<Rightarrow> BlockId \<Rightarrow> (ApiError, bool) result" where
  "has_api env api_id version at = has_api_with env api_id at (\<lambda>v. v = version)"

definition into_storage_changes ::
  "('ov, 'c, 'st, 'a) mock_env \<Rightarrow> 'st \<Rightarrow> ChangesTrieState option \<Rightarrow> H256 \<Rightarrow>
     (('ov, 'c) MockRuntimeApiImpl, string, StorageChanges) prog" where
  "into_storage_changes env backend changes_trie_state parent s =
     (overlay_into_storage_changes env (changes s) backend changes_trie_state parent (storage s),
      s\<lparr>initialized_block := None, changes := default_overlay (overlay env), storage := default_cache env\<rparr>)"

text \<open>Proof recording is not implemented.\<close>

definition record_proof :: "('s, 'e, 'b) prog" where
  "record_proof = return_prog (Panic ''not implemented'')"

definition extract_proof :: "('s, 'e, 'b) prog" where
  "extract_proof = return_prog (Panic ''not implemented'')"

definition proof_recorder :: "('s, 'e, 'b) prog" where
  "proof_recorder = return_prog (Panic ''not implemented'')"

section \<open>\<open>Core\<close> and \<open>Metadata\<close>\<close>

definition CORE_ID :: bytes where
  "CORE_ID = [223, 106, 203, 104, 153, 7, 96, 155]"

definition core_version ::
  "('ov, 'c, 'st, 'a) mock_env \<Rightarrow> BlockId \<Rightarrow> (('ov, 'c) MockRuntimeApiImpl, ApiError, 'a) prog" where
  "core_version env at = call_api_at_decoded env ''Core_version'' None True at (encode_unit env)"

definition api_execute_block ::
  "('ov, 'c, 'st, 'a) mock_env \<Rightarrow> BlockId \<Rightarrow> Block \<Rightarrow> (('ov, 'c) MockRuntimeApiImpl, ApiError, 'a) prog" where
  "api_execute_block env at b = call_api_at_decoded env ''Core_execute_block'' None False at (encode_block env b)"

text \<open>The method was renamed with version 2 of the core API.\<close>

definition initialize_method :: "RuntimeVersion \<Rightarrow> string" where
  "initialize_method version =
     (if \<exists>(s, v) \<in> set (apis version). s = CORE_ID \<and> v < 2 then ''Core_initialise_block''
      else ''Core_initialize_block'')"

definition api_initialize_block ::
  "('ov, 'c, 'st, 'a) mock_env \<Rightarrow> BlockId \<Rightarrow> Header \<Rightarrow> (('ov, 'c) MockRuntimeApiImpl, ApiError, 'a) prog" where
  "api_initialize_block env at hdr =
     pbind (return_prog (runtime_version_at env at)) (\<lambda>version s.
       case call_api_at_decoded env (initialize_method version) None False at (encode_header env hdr) s of
         (Panic w, s') \<Rightarrow> (Panic w, s')
       | (res, s') \<Rightarrow> (res, s'\<lparr>initialized_block := Some at\<rparr>))"

definition core_version_impl :: "('s, ApiError, 'a NativeOrEncoded) prog" where
  "core_version_impl = return_prog (Panic ''not implemented'')"

definition core_initialize_block_impl :: "('s, ApiError, 'a NativeOrEncoded) prog" where
  "core_initialize_block_impl = return_prog (Panic ''not implemented'')"

definition core_execute_block_impl ::
  "('ov, 'c, 'st, 'a) mock_env \<Rightarrow> BlockId \<Rightarrow> ExecutionContext \<Rightarrow> Block option \<Rightarrow>
     (('ov, 'c) MockRuntimeApiImpl, ApiError, 'a NativeOrEncoded) prog" where
  "core_execute_block_impl env at context params =
     pbind (return_prog (expect_some ''unwrap on None'' params)) (\<lambda>b.
       call_api_at_native_code env ''Core_execute_block'' (Some context) False at (encode_block env b))"

definition api_metadata ::
  "('ov, 'c, 'st, 'a) mock_env \<Rightarrow> BlockId \<Rightarrow> (('ov, 'c) MockRuntimeApiImpl, ApiError, 'a) prog" where
  "api_metadata env at = call_api_at_decoded env ''Metadata_metadata'' None True at (encode_unit env)"

definition metadata_impl ::
  "('ov, 'c, 'st, 'a) mock_env \<Rightarrow> BlockId \<Rightarrow> ExecutionContext \<Rightarrow>
     (('ov, 'c) MockRuntimeApiImpl, ApiError, 'a NativeOrEncoded) prog" where
  "metadata_impl env at context =
     call_api_at_native_code env ''Metadata_metadata'' (Some context) True at (encode_unit env)"

section \<open>The other API traits\<close>

text \<open>Of each trait a few methods are routed to the wasm runtime (with their encoded arguments), the
  rest panic.\<close>

datatype BlockBuilderMethod =
    Apply_extrinsic | Finalize_block | Inherent_extrinsics | Check_inherents
  | Apply_extrinsic_impl | Finalize_block_impl | Inherent_extrinsics_impl | Check_inherents_impl

fun block_builder_api ::
  "('ov, 'c, 'st, 'a) mock_env \<Rightarrow> BlockBuilderMethod \<Rightarrow> BlockId \<Rightarrow> bytes \<Rightarrow>
     (('ov, 'c) MockRuntimeApiImpl, ApiError, 'a) prog" where
  "block_builder_api env Apply_extrinsic at args = return_prog (Panic ''not implemented'')"
| "block_builder_api env Finalize_block at args = return_prog (Panic ''not implemented'')"
| "block_builder_api env Inherent_extrinsics at args = return_prog (Panic ''not implemented'')"
| "block_builder_api env Check_inherents at args =
     call_api_at_decoded env ''BlockBuilder_check_inherents'' None False at args"
| "block_builder_api env Apply_extrinsic_impl at args = return_prog (Panic ''not implemented'')"
| "block_builder_api env Finalize_block_impl at args = return_prog (Panic ''not implemented'')"
| "block_builder_api env Inherent_extrinsics_impl at args = return_prog (Panic ''not implemented'')"
| "block_builder_api env Check_inherents_impl at args = return_prog (Panic ''not implemented'')"

datatype GrandpaMethod =
    Grandpa_authorities | Grandpa_submit_report | Grandpa_key_ownership
  | Grandpa_authorities_impl | Grandpa_submit_report_impl | Grandpa_key_ownership_impl

fun grandpa_api :: "GrandpaMethod \<Rightarrow> ('s, ApiError, 'a) prog" where
  "grandpa_api Grandpa_authorities = return_prog (Panic ''not implemented'')"
| "grandpa_api Grandpa_submit_report = return_prog (Panic ''not implemented'')"
| "grandpa_api Grandpa_key_ownership = return_prog (Panic ''not implemented'')"
| "grandpa_api Grandpa_authorities_impl = return_prog (Panic ''not yet implemented'')"
| "grandpa_api Grandpa_submit_report_impl = return_prog (Panic ''not yet implemented'')"
| "grandpa_api Grandpa_key_ownership_impl = return_prog (Panic ''not yet implemented'')"

datatype BabeMethod =
    Configuration | Current_epoch_start | Current_epoch | Next_epoch | Babe_key_ownership | Babe_submit_report
  | Current_epoch_start_impl | Current_epoch_impl | Next_epoch_impl | Babe_key_ownership_impl | Babe_submit_report_impl

fun babe_api ::
  "('ov, 'c, 'st, 'a) mock_env \<Rightarrow> BabeMethod \<Rightarrow> BlockId \<Rightarrow> (('ov, 'c) MockRuntimeApiImpl, ApiError, 'a) prog" where
  "babe_api env Configuration at = call_api_at_decoded env ''BabeApi_configuration'' None False at (encode_unit env)"
| "babe_api env Current_epoch_start at = return_prog (Panic ''not implemented'')"
| "babe_api env Current_epoch at = return_prog (Panic ''not implemented'')"
| "babe_api env Next_epoch at = return_prog (Panic ''not implemented'')"
| "babe_api env Babe_key_ownership at = return_prog (Panic ''not implemented'')"
| "babe_api env Babe_submit_report at = return_prog (Panic ''not implemented'')"
| "babe_api env Current_epoch_start_impl at = return_prog (Panic ''not yet implemented'')"
| "babe_api env Current_epoch_impl at = return_prog (Panic ''not yet implemented'')"
| "babe_api env Next_epoch_impl at = return_prog (Panic ''not yet implemented'')"
| "babe_api env Babe_key_ownership_impl at = return_prog (Panic ''not yet implemented'')"
| "babe_api env Babe_submit_report_impl at = return_prog (Panic ''not yet implemented'')"

definition babe_configuration_impl ::
  "('ov, 'c, 'st, 'a) mock_env \<Rightarrow> BlockId \<Rightarrow> ExecutionContext \<Rightarrow>
     (('ov, 'c) MockRuntimeApiImpl, ApiError, 'a NativeOrEncoded) prog" where
  "babe_configuration_impl env at context =
     call_api_at_native_code env ''BabeApi_configuration'' (Some context) False at (encode_unit env)"

datatype SessionKeysMethod =
    Generate_session_keys | Decode_session_keys | Generate_session_keys_impl | Decode_session_keys_impl

fun session_keys_api ::
  "('ov, 'c, 'st, 'a) mock_env \<Rightarrow> SessionKeysMethod \<Rightarrow> BlockId \<Rightarrow> bytes \<Rightarrow>
     (('ov, 'c) MockRuntimeApiImpl, ApiError, 'a) prog" where
  "session_keys_api env Generate_session_keys at args =
     call_api_at_decoded env ''SessionKeys_generate_session_keys'' None False at args"
| "session_keys_api env Decode_session_keys at args = return_prog (Panic ''not implemented'')"
| "session_keys_api env Generate_session_keys_impl at args = return_prog (Panic ''not yet implemented'')"
| "session_keys_api env Decode_session_keys_impl at args = return_prog (Panic ''not yet implemented'')"

text \<open>Any use of an API instance: the methods of the APIs, the extraction of the storage changes, and a
  transaction whose closure makes further requests, whatever each of them returns, and then decides
  whether to commit. (Whether a version has an API only asks for the version.)\<close>

datatype 'st api_request =
    Version_request BlockId
  | Version_impl_request
  | Initialize_impl_request
  | Execute_request BlockId Block
  | Initialize_request BlockId Header
  | Execute_impl_request BlockId ExecutionContext "Block option"
  | Metadata_request BlockId
  | Metadata_impl_request BlockId ExecutionContext
  | Builder_request BlockBuilderMethod BlockId bytes
  | Grandpa_request GrandpaMethod
  | Babe_request BabeMethod BlockId
  | Babe_impl_request BlockId ExecutionContext
  | Session_request SessionKeysMethod BlockId bytes
  | Changes_request 'st "ChangesTrieState option" H256
  | Transaction_request "'st api_request list" bool

fun api_request_run ::
  "('ov, 'c, 'st, 'a) mock_env \<Rightarrow> 'st api_request \<Rightarrow> (('ov, 'c) MockRuntimeApiImpl, ApiError, unit) prog" where
  "api_request_run env (Version_request at) = discard (core_version env at)"
| "api_request_run env Version_impl_request =
     discard (core_version_impl :: (('ov, 'c) MockRuntimeApiImpl, ApiError, 'a NativeOrEncoded) prog)"
| "api_request_run env Initialize_impl_request =
     discard (core_initialize_block_impl :: (('ov, 'c) MockRuntimeApiImpl, ApiError, 'a NativeOrEncoded) prog)"
| "api_request_run env (Execute_request at b) = discard (api_execute_block env at b)"
| "api_request_run env (Initialize_request at h) = discard (api_initialize_block env at h)"
| "api_request_run env (Execute_impl_request at c b) = discard (core_execute_block_impl env at c b)"
| "api_request_run env (Metadata_request at) = discard (api_metadata env at)"
| "api_request_run env (Metadata_impl_request at c) = discard (metadata_impl env at c)"
| "api_request_run env (Builder_request m at args) = discard (block_builder_api env m at args)"
| "api_request_run env (Grandpa_request m) = grandpa_api m"
| "api_request_run env (Babe_request m at) = discard (babe_api env m at)"
| "api_request_run env (Babe_impl_request at c) = discard (babe_configuration_impl env at c)"
| "api_request_run env (Session_request m at args) = discard (session_keys_api env m at args)"
| "api_request_run env (Changes_request backend trie parent) =
     discard (map_err_prog ApiApplication (into_storage_changes env backend trie parent))"
| "api_request_run env (Transaction_request qs commit) =
     execute_in_transaction env
       (pbind (for_each_prog (\<lambda>q. ignore_result (api_request_run env q)) qs) (\<lambda>_.
          ret (if commit then Commit () else Rollback ())))"

section \<open>What is relied on\<close>

text \<open>
  The documented behaviour of the overlay's transactions: opening one keeps what was there below it,
  rolling back returns to that, committing closes it, and both fail only when none is open.
\<close>

definition overlay_laws :: "'ov overlay_ops \<Rightarrow> bool" where
  "overlay_laws ops \<longleftrightarrow>
     (\<forall>o'. below ops (start_transaction ops o') = Some o') \<and>
     (\<forall>o'. rollback_transaction ops o' = below ops o') \<and>
     (\<forall>o'. commit_transaction ops o' = None \<longleftrightarrow> below ops o' = None) \<and>
     (\<forall>o' o''. commit_transaction ops o' = Some o'' \<longrightarrow>
        below ops o'' = Option.bind (below ops o') (below ops))"

text \<open>A runtime call balances its own transactions and cannot close those of the client.\<close>

definition balanced_call :: "('ov, 'c, 'st, 'a) mock_env \<Rightarrow> bool" where
  "balanced_call env \<longleftrightarrow>
     (\<forall>p s r s'. call_api_at env p s = (r, s') \<and> \<not> is_panic r \<longrightarrow>
        below (overlay env) (changes s') = below (overlay env) (changes s))"

section \<open>Lemmas\<close>

lemma overlay_lawsD:
  assumes "overlay_laws ops"
  shows "below ops (start_transaction ops o') = Some o'" "rollback_transaction ops o' = below ops o'"
    "commit_transaction ops o' = None \<longleftrightarrow> below ops o' = None"
    "commit_transaction ops o' = Some o'' \<Longrightarrow> below ops o'' = Option.bind (below ops o') (below ops)"
  using assms by (auto simp: overlay_laws_def)

text \<open>A program that leaves no transaction open that it opened, unless it panics.\<close>

definition keeps_below :: "'ov overlay_ops \<Rightarrow> (('ov, 'c) MockRuntimeApiImpl, 'e, 'b) prog \<Rightarrow> bool" where
  "keeps_below ops m \<longleftrightarrow>
     (\<forall>s r s'. m s = (r, s') \<and> \<not> is_panic r \<longrightarrow> below ops (changes s') = below ops (changes s))"

lemma keeps_belowD: "keeps_below ops m \<Longrightarrow> m s = (r, s') \<Longrightarrow> \<not> is_panic r \<Longrightarrow>
    below ops (changes s') = below ops (changes s)"
  by (auto simp: keeps_below_def)

lemma keeps_return [intro]: "keeps_below ops (return_prog r)"
  by (simp add: keeps_below_def)

lemma keeps_pbind [intro]:
  assumes "keeps_below ops m" "\<And>x. keeps_below ops (f x)"
  shows "keeps_below ops (pbind m f)"
  unfolding keeps_below_def
proof (intro allI impI, elim conjE)
  fix s r s' assume run: "pbind m f s = (r, s')" and ok: "\<not> is_panic r"
  obtain q t where q: "m s = (q, t)" by (cases "m s")
  show "below ops (changes s') = below ops (changes s)"
  proof (cases q)
    case (Ok x)
    with q run have "f x t = (r, s')" by (simp add: pbind_def)
    with assms q Ok ok show ?thesis using keeps_belowD by (metis is_panic.simps(1))
  next
    case (Err e)
    with q run have "m s = (Err e, s')" by (simp add: pbind_def)
    from keeps_belowD [OF assms(1) this] show ?thesis by simp
  next
    case (Panic w)
    with q run ok show ?thesis by (auto simp: pbind_def)
  qed
qed

lemma keeps_discard [intro]: "keeps_below ops m \<Longrightarrow> keeps_below ops (discard m)"
  by (auto simp: discard_def)

lemma keeps_ignore [intro]: "keeps_below ops m \<Longrightarrow> keeps_below ops (ignore_result m)"
  by (fastforce simp: keeps_below_def ignore_result_def split: prod.splits result.splits)

lemma keeps_for_each [intro]: "(\<And>x. keeps_below ops (f x)) \<Longrightarrow> keeps_below ops (for_each_prog f xs)"
  by (induction xs) auto

text \<open>The transaction around a call.\<close>

lemma call_effect:
  assumes laws: "overlay_laws (overlay env)" and bal: "balanced_call env"
    and call: "call_api_at env p (s\<lparr>changes := start_transaction (overlay env) (changes s)\<rparr>) = (r, s1)"
    and ok: "\<not> is_panic r"
  shows "below (overlay env) (changes s1) = Some (changes s)"
    "rollback_transaction (overlay env) (changes s1) = Some (changes s)"
    "\<exists>ov. commit_transaction (overlay env) (changes s1) = Some ov \<and>
       below (overlay env) ov = below (overlay env) (changes s)"
proof -
  show b: "below (overlay env) (changes s1) = Some (changes s)"
    using bal call ok overlay_lawsD(1) [OF laws, of "changes s"] by (auto simp: balanced_call_def)
  then show "rollback_transaction (overlay env) (changes s1) = Some (changes s)"
    using overlay_lawsD(2) [OF laws] by simp
  obtain ov where "commit_transaction (overlay env) (changes s1) = Some ov"
    using b overlay_lawsD(3) [OF laws, of "changes s1"] by auto
  with overlay_lawsD(4) [OF laws this] b
  show "\<exists>ov. commit_transaction (overlay env) (changes s1) = Some ov \<and>
      below (overlay env) ov = below (overlay env) (changes s)" by simp
qed

lemma decoded_call_cases:
  assumes laws: "overlay_laws (overlay env)" and bal: "balanced_call env"
    and run: "call_api_at_decoded env meth ctx ib at args s = (r, s')"
  obtains (called) v where "below (overlay env) (changes s') = below (overlay env) (changes s)"
      "r = Ok v \<or> r = Err (FailedToDecodeReturnValue meth)"
  | (failed) e where "r = Err e" "changes s' = changes s"
  | (died) w where "r = Panic w"
proof -
  let ?s = "s\<lparr>changes := start_transaction (overlay env) (changes s)\<rparr>"
  obtain q s1 where q: "call_api_at env (call_params meth ctx ib at args) ?s = (q, s1)"
    by (cases "call_api_at env (call_params meth ctx ib at args) ?s")
  show ?thesis
  proof (cases q)
    case (Ok x)
    with call_effect(3) [OF laws bal q] obtain ov where
      "commit_transaction (overlay env) (changes s1) = Some ov"
      "below (overlay env) ov = below (overlay env) (changes s)" by auto
    with run q Ok show ?thesis
      by (cases x) (auto simp: call_api_at_decoded_def api_start_transaction_def ok_or_case
          split: option.splits intro: called)
  next
    case (Err e)
    with call_effect(2) [OF laws bal q] run q show ?thesis
      by (intro failed [of e]) (auto simp: call_api_at_decoded_def api_start_transaction_def)
  next
    case (Panic w)
    with run q show ?thesis
      by (intro died [of w]) (auto simp: call_api_at_decoded_def api_start_transaction_def)
  qed
qed

lemma keeps_decoded:
  assumes "overlay_laws (overlay env)" "balanced_call env"
  shows "keeps_below (overlay env) (call_api_at_decoded env meth ctx ib at args)"
  unfolding keeps_below_def
  by (intro allI impI, elim conjE, erule decoded_call_cases [OF assms]) auto

lemma keeps_native:
  assumes laws: "overlay_laws (overlay env)" and bal: "balanced_call env"
  shows "keeps_below (overlay env) (call_api_at_native_code env meth ctx ib at args)"
  unfolding keeps_below_def
proof (intro allI impI, elim conjE)
  fix s r s'
  assume run: "call_api_at_native_code env meth ctx ib at args s = (r, s')" and ok: "\<not> is_panic r"
  let ?s = "s\<lparr>changes := start_transaction (overlay env) (changes s)\<rparr>"
  obtain q s1 where q: "call_api_at env (call_params meth ctx ib at args) ?s = (q, s1)"
    by (cases "call_api_at env (call_params meth ctx ib at args) ?s")
  show "below (overlay env) (changes s') = below (overlay env) (changes s)"
    using call_effect [OF laws bal q] run q ok
    by (cases q) (auto simp: call_api_at_native_code_def api_start_transaction_def)
qed

lemma keeps_method:
  assumes "overlay_laws (overlay env)" "balanced_call env"
    and "case req of Changes_request _ _ _ \<Rightarrow> False | Transaction_request _ _ \<Rightarrow> False | _ \<Rightarrow> True"
  shows "keeps_below (overlay env) (api_request_run env req)"
proof -
  note c = keeps_decoded [OF assms(1,2)] keeps_native [OF assms(1,2)]
  have ini: "keeps_below (overlay env) (api_initialize_block env at h)" for at h
    unfolding api_initialize_block_def
  proof (rule keeps_pbind)
    show "keeps_below (overlay env) (return_prog (runtime_version_at env at))" by (rule keeps_return)
    show "keeps_below (overlay env) (\<lambda>s. case call_api_at_decoded env (initialize_method v) None False at
        (encode_header env h) s of (Panic w, s') \<Rightarrow> (Panic w, s')
       | (res, s') \<Rightarrow> (res, s'\<lparr>initialized_block := Some at\<rparr>))" for v
      using c(1) [of "initialize_method v" None False at "encode_header env h"]
      by (fastforce simp: keeps_below_def split: prod.splits result.splits)
  qed
  have "keeps_below (overlay env) (block_builder_api env m at args)" for m at args
    by (cases m) (auto simp: c)
  moreover have "keeps_below (overlay env) (grandpa_api m)" for m
    by (cases m) auto
  moreover have "keeps_below (overlay env) (babe_api env m at)" for m at
    by (cases m) (auto simp: c)
  moreover have "keeps_below (overlay env) (session_keys_api env m at args)" for m at args
    by (cases m) (auto simp: c)
  ultimately show ?thesis
    using assms(3)
    by (cases req) (auto intro!: keeps_discard ini simp: c core_version_def core_version_impl_def core_initialize_block_impl_def api_execute_block_def
        core_execute_block_impl_def api_metadata_def metadata_impl_def babe_configuration_impl_def)
qed

text \<open>A program that leaves no transaction of its own open, or has dropped all transactions, as taking the
  storage changes does.\<close>

definition settles :: "'ov overlay_ops \<Rightarrow> (('ov, 'c) MockRuntimeApiImpl, 'e, 'b) prog \<Rightarrow> bool" where
  "settles ops m \<longleftrightarrow> (\<forall>s r s'. m s = (r, s') \<and> \<not> is_panic r \<longrightarrow>
     below ops (changes s') = below ops (changes s) \<or> below ops (changes s') = None)"

lemma settlesD: "settles ops m \<Longrightarrow> m s = (r, s') \<Longrightarrow> \<not> is_panic r \<Longrightarrow>
    below ops (changes s') = below ops (changes s) \<or> below ops (changes s') = None"
  by (auto simp: settles_def)

lemma settles_keeps: "keeps_below ops m \<Longrightarrow> settles ops m"
  by (auto simp: settles_def dest: keeps_belowD)

lemma settles_pbind:
  assumes "settles ops m" "\<And>x. settles ops (f x)"
  shows "settles ops (pbind m f)"
  unfolding settles_def
proof (intro allI impI, elim conjE)
  fix s r s' assume run: "pbind m f s = (r, s')" and ok: "\<not> is_panic r"
  obtain q t where q: "m s = (q, t)" by (cases "m s")
  show "below ops (changes s') = below ops (changes s) \<or> below ops (changes s') = None"
  proof (cases q)
    case (Ok x)
    with q run have "f x t = (r, s')" by (simp add: pbind_def)
    from settlesD [OF assms(2) this ok] settlesD [OF assms(1) q] Ok show ?thesis by auto
  next
    case (Err e)
    with q run have "m s = (Err e, s')" by (simp add: pbind_def)
    from settlesD [OF assms(1) this] show ?thesis by simp
  next
    case (Panic w)
    with q run ok show ?thesis by (auto simp: pbind_def)
  qed
qed

lemma settles_ignore: "settles ops m \<Longrightarrow> settles ops (ignore_result m)"
  by (fastforce simp: settles_def ignore_result_def split: prod.splits result.splits)

lemma settles_for_each: "(\<And>x. x \<in> set xs \<Longrightarrow> settles ops (f x)) \<Longrightarrow> settles ops (for_each_prog f xs)"
  by (induction xs) (auto intro: settles_pbind settles_keeps)

lemma settles_changes:
  assumes "below (overlay env) (default_overlay (overlay env)) = None"
  shows "settles (overlay env) (discard (map_err_prog f (into_storage_changes env backend trie parent)))"
  using assms by (auto simp: settles_def discard_def pbind_def map_err_prog_def into_storage_changes_def
      split: prod.splits result.splits)

lemma settles_transaction:
  assumes laws: "overlay_laws (overlay env)" and call: "settles (overlay env) call"
    and no_err: "\<And>s e. fst (call s) \<noteq> Err e"
  shows "settles (overlay env) (execute_in_transaction env call)"
  unfolding settles_def
proof (intro allI impI, elim conjE)
  fix s r s' assume run: "execute_in_transaction env call s = (r, s')" and ok: "\<not> is_panic r"
  let ?s = "s\<lparr>changes := start_transaction (overlay env) (changes s)\<rparr>"
  obtain q t where q: "call ?s = (q, t)" by (cases "call ?s")
  have run': "execute_in_transaction env call s =
      (case q of Ok res \<Rightarrow> pbind (commit_or_rollback env (is_commit res)) (\<lambda>_. ret (into_inner res)) t
         | Err e \<Rightarrow> (Err e, t) | Panic w \<Rightarrow> (Panic w, t))"
    using q by (simp add: execute_in_transaction_def api_start_transaction_def pbind_def split: result.split)
  with run ok no_err [of ?s] q obtain res where res: "q = Ok res" by (cases q) auto
  have below: "below (overlay env) (changes t) = Some (changes s) \<or> below (overlay env) (changes t) = None"
    using settlesD [OF call q] res overlay_lawsD(1) [OF laws, of "changes s"] by simp
  from run run' res ok obtain ov where ov: "(if is_commit res then commit_transaction (overlay env) (changes t)
      else rollback_transaction (overlay env) (changes t)) = Some ov" "changes s' = ov"
    by (auto simp: pbind_def commit_or_rollback_def split: option.splits)
  then have "below (overlay env) (changes t) = Some (changes s)"
    using below overlay_lawsD(2,3) [OF laws, of "changes t"] by (auto split: if_splits)
  with ov overlay_lawsD(2) [OF laws, of "changes t"] overlay_lawsD(4) [OF laws, of "changes t" ov]
  show "below (overlay env) (changes s') = below (overlay env) (changes s) \<or> below (overlay env) (changes s') = None"
    by (auto split: if_splits)
qed

lemma for_each_ignore_no_err: "fst (for_each_prog (\<lambda>x. ignore_result (f x)) xs s) \<noteq> Err e"
  by (induction xs arbitrary: s) (auto simp: pbind_def ignore_result_def split: prod.splits result.splits)

lemma settles_request:
  fixes env :: "('ov, 'c, 'st, 'a) mock_env"
  assumes "overlay_laws (overlay env)" "balanced_call env"
    and "below (overlay env) (default_overlay (overlay env)) = None"
  shows "settles (overlay env) (api_request_run env req)"
proof (induction req)
  case (Changes_request backend trie parent)
  show ?case using settles_changes [OF assms(3)] by simp
next
  case (Transaction_request qs commit)
  let ?body = "pbind (for_each_prog (\<lambda>q. ignore_result (api_request_run env q)) qs) (\<lambda>_.
    ret (if commit then Commit () else Rollback ())) :: (('ov, 'c) MockRuntimeApiImpl, ApiError, unit TransactionOutcome) prog"
  have "settles (overlay env) ?body"
    by (intro settles_pbind settles_for_each settles_ignore Transaction_request settles_keeps keeps_return)
  moreover have "fst (?body s) \<noteq> Err e" for s e
  proof -
    have "fst (for_each_prog (\<lambda>q. ignore_result (api_request_run env q)) qs s ::
        (ApiError, unit) result \<times> ('ov, 'c) MockRuntimeApiImpl) \<noteq> Err e'" for e'
      by (rule for_each_ignore_no_err)
    then show ?thesis by (auto simp: pbind_def split: prod.splits result.splits) (metis fst_conv)
  qed
  ultimately show ?case unfolding api_request_run.simps by (rule settles_transaction [OF assms(1)])
qed (rule settles_keeps [OF keeps_method [OF assms(1,2)]]; simp)+

section \<open>Properties\<close>

text \<open>C30: whatever sequence of API methods is used on a fresh instance, closures in transactions and the
  extraction of storage changes included, and whatever each of them returns, no transaction is left
  open: the storage changes are always taken from a settled overlay.\<close>

theorem api_requests_balanced:
  fixes env :: "('ov, 'c, 'st, 'a) mock_env"
  assumes "overlay_laws (overlay env)" and "balanced_call env"
    and "below (overlay env) (default_overlay (overlay env)) = None"
    and "for_each_prog (\<lambda>q. ignore_result (api_request_run env q)) qs (construct_runtime_api env) = (r :: (ApiError, unit) result, s)"
    and "\<not> is_panic r"
  shows "below (overlay env) (changes s) = None"
proof -
  have "settles (overlay env) (for_each_prog (\<lambda>q. ignore_result (api_request_run env q)) qs
      :: (('ov, 'c) MockRuntimeApiImpl, ApiError, unit) prog)"
    by (intro settles_for_each settles_ignore settles_request assms(1-3))
  from settlesD [OF this assms(4,5)] assms(3) show ?thesis
    by (simp add: construct_runtime_api_def)
qed

text \<open>An API call that fails inside the runtime leaves the overlay exactly as it was. The only
  error that can leave changes behind is one of decoding the value of a successful call.\<close>

lemma failed_call_rolls_back:
  assumes "overlay_laws (overlay env)" and "balanced_call env"
    and "call_api_at_decoded env meth ctx ib at args s = (Err e, s')"
    and "e \<noteq> FailedToDecodeReturnValue meth"
  shows "changes s' = changes s"
  using assms(4) by (cases rule: decoded_call_cases [OF assms(1-3)]) auto

text \<open>Running a closure in a transaction returns what the closure returned, undoes every change of
  the closure when it asks for a rollback, and closes the transaction in either case.\<close>

lemma execute_in_transaction_outcome:
  assumes laws: "overlay_laws (overlay env)" and "keeps_below (overlay env) call"
    and call: "call (s\<lparr>changes := start_transaction (overlay env) (changes s)\<rparr>) = (Ok res, s1)"
  shows "\<exists>s'. execute_in_transaction env call s = (Ok (into_inner res), s') \<and>
    below (overlay env) (changes s') = below (overlay env) (changes s) \<and>
    (\<not> is_commit res \<longrightarrow> changes s' = changes s)"
proof -
  have b: "below (overlay env) (changes s1) = Some (changes s)"
    using keeps_belowD [OF assms(2) call] overlay_lawsD(1) [OF laws, of "changes s"] by simp
  then obtain ov where c: "commit_transaction (overlay env) (changes s1) = Some ov"
    using overlay_lawsD(3) [OF laws, of "changes s1"] by auto
  from overlay_lawsD(4) [OF laws c] b
  have "below (overlay env) ov = below (overlay env) (changes s)" by simp
  with b c call overlay_lawsD(2) [OF laws, of "changes s1"] show ?thesis
    by (cases res) (simp_all add: execute_in_transaction_def api_start_transaction_def pbind_def
        commit_or_rollback_def)
qed

text \<open>Initialising a block marks the instance as initialised at that block even when the runtime's
  initialisation failed; a later call at the block will then skip it.\<close>

lemma initialize_block_marks_on_failure:
  assumes "api_initialize_block env at h s = (r, s')" and "\<not> is_panic r"
    and "runtime_version_at env at = Ok v"
  shows "initialized_block s' = Some at"
  using assms by (auto simp: api_initialize_block_def pbind_def split: prod.splits result.splits)

section \<open>A concrete overlay\<close>

text \<open>An overlay that holds one number and the values saved by its open transactions.\<close>

definition demo_overlay :: "(nat \<times> nat list) overlay_ops" where
  "demo_overlay =
     \<lparr>start_transaction = (\<lambda>(v, st). (v, v # st)),
      commit_transaction = (\<lambda>(v, st). case st of [] \<Rightarrow> None | x # xs \<Rightarrow> Some (v, xs)),
      rollback_transaction = (\<lambda>(v, st). case st of [] \<Rightarrow> None | x # xs \<Rightarrow> Some (x, xs)),
      default_overlay = (0, []),
      below = (\<lambda>(v, st). case st of [] \<Rightarrow> None | x # xs \<Rightarrow> Some (x, xs))\<rparr>"

text \<open>Calls add one to the number; initialising fails after that.\<close>

definition demo_mock_env :: "(nat \<times> nat list, unit, unit, unit) mock_env" where
  "demo_mock_env =
     \<lparr>overlay = demo_overlay, default_cache = (),
      call_api_at = (\<lambda>p s. (if cp_function p = ''Core_initialize_block'' then Err (ApiApplication ''failed'')
         else Ok (Encoded []), s\<lparr>changes := (Suc (fst (changes s)), snd (changes s))\<rparr>)),
      runtime_version_at = (\<lambda>_. Ok (demo_version 265)), version_has_api_with = (\<lambda>_ _ _. True),
      decode_value = (\<lambda>_. Some ()), encode_unit = [], encode_block = (\<lambda>_. []), encode_header = (\<lambda>_. []),
      overlay_into_storage_changes = (\<lambda>_ _ _ _ _. Ok demo_changes)\<rparr>"

lemma demo_overlay_laws: "overlay_laws (overlay demo_mock_env)"
  by (auto simp: overlay_laws_def demo_mock_env_def demo_overlay_def split: list.splits)

lemma demo_balanced_call: "balanced_call demo_mock_env"
  by (auto simp: balanced_call_def demo_mock_env_def demo_overlay_def split: prod.splits list.splits)

lemma demo_initialize:
  "api_initialize_block demo_mock_env (Number 1) (demo_header 1) (construct_runtime_api demo_mock_env) =
   (Err (ApiApplication ''failed''), (construct_runtime_api demo_mock_env)\<lparr>initialized_block := Some (Number 1)\<rparr>)"
  by (simp add: api_initialize_block_def call_api_at_decoded_def api_start_transaction_def call_params_def
      construct_runtime_api_def demo_mock_env_def demo_overlay_def initialize_method_def demo_version_def pbind_def)

lemma demo_metadata_call:
  "api_metadata demo_mock_env at s = (Ok (), s\<lparr>changes := (Suc (fst (changes s)), snd (changes s))\<rparr>)"
  by (cases "changes s")
     (simp add: api_metadata_def call_api_at_decoded_def api_start_transaction_def call_params_def
        demo_mock_env_def demo_overlay_def)

lemma demo_rolled_back:
  "api_request_run demo_mock_env (Transaction_request [Metadata_request at] False) s = (Ok (), s)"
proof -
  have ov: "start_transaction (overlay demo_mock_env) (v, st) = (v, v # st)"
    "rollback_transaction (overlay demo_mock_env) (v, x # st) = Some (x, st)" for v x st
    by (simp_all add: demo_mock_env_def demo_overlay_def)
  show ?thesis
    by (cases "changes s") (simp add: execute_in_transaction_def api_start_transaction_def commit_or_rollback_def
        pbind_def ignore_result_def discard_def demo_metadata_call ov)
qed

lemma demo_changes_taken:
  "api_request_run demo_mock_env (Changes_request st trie parent) s = (Ok (), construct_runtime_api demo_mock_env)"
  by (simp add: discard_def pbind_def map_err_prog_def into_storage_changes_def construct_runtime_api_def)
     (simp add: demo_mock_env_def)

theorem api_requests_balanced_witness:
  "\<exists>s. for_each_prog (\<lambda>q. ignore_result (api_request_run demo_mock_env q))
       [Initialize_request (Number 1) (demo_header 1), Metadata_request (Number 1),
        Transaction_request [Metadata_request (Number 1)] False, Changes_request () None 0]
       (construct_runtime_api demo_mock_env) = (Ok () :: (ApiError, unit) result, s) \<and>
     below demo_overlay (changes s) = None"
proof -
  obtain s where s: "for_each_prog (\<lambda>q. ignore_result (api_request_run demo_mock_env q))
       [Initialize_request (Number 1) (demo_header 1), Metadata_request (Number 1),
        Transaction_request [Metadata_request (Number 1)] False, Changes_request () None 0]
       (construct_runtime_api demo_mock_env) = (Ok () :: (ApiError, unit) result, s)"
    by (simp add: pbind_def ignore_result_def demo_rolled_back demo_changes_taken discard_def demo_initialize
        demo_metadata_call del: api_request_run.simps(14,15))
  have "below (overlay demo_mock_env) (default_overlay (overlay demo_mock_env)) = None"
    by (simp add: demo_mock_env_def demo_overlay_def)
  from api_requests_balanced [OF demo_overlay_laws demo_balanced_call this s] s show ?thesis
    by (simp add: demo_mock_env_def)
qed

end
