(* ===== verification/Runtime_Composition.thy ===== *)
theory Runtime_Composition
  imports Archive_Runtime Mock_Runtime
begin

text \<open>
  The composition of the runtime (\<open>construct_runtime!\<close> and the parameters in \<open>runtime/src/lib.rs\<close>), the
  native executor that dispatches to it (\<open>executor/src/lib.rs\<close>), and the names under which the runtime
  API of the archive calls it.
\<close>

section \<open>Model\<close>

subsection \<open>Pallets\<close>

datatype pallet = System | Babe | Timestamp | Grandpa | Sudo

lemma UNIV_pallet: "UNIV = {System, Babe, Timestamp, Grandpa, Sudo}"
  by (auto intro: pallet.exhaust)

text \<open>The pallets in the order of \<open>construct_runtime!\<close>, which numbers them.\<close>

instantiation pallet :: enum
begin

definition enum_pallet :: "pallet list" where
  "enum_pallet = [System, Babe, Timestamp, Grandpa, Sudo]"

definition enum_all_pallet :: "(pallet \<Rightarrow> bool) \<Rightarrow> bool" where
  "enum_all_pallet P \<longleftrightarrow> P System \<and> P Babe \<and> P Timestamp \<and> P Grandpa \<and> P Sudo"

definition enum_ex_pallet :: "(pallet \<Rightarrow> bool) \<Rightarrow> bool" where
  "enum_ex_pallet P \<longleftrightarrow> P System \<or> P Babe \<or> P Timestamp \<or> P Grandpa \<or> P Sudo"

instance
  by standard (simp_all add: UNIV_pallet enum_pallet_def enum_all_pallet_def enum_ex_pallet_def)

end

datatype pallet_part =
    Pallet_part | Call_part | Config_part | Storage_part | Event_part | ValidateUnsigned_part | Inherent_part

fun construct_runtime :: "pallet \<Rightarrow> pallet_part list" where
  "construct_runtime System = [Pallet_part, Call_part, Config_part, Storage_part, Event_part]"
| "construct_runtime Babe = [Pallet_part, Call_part, Storage_part, Config_part, ValidateUnsigned_part]"
| "construct_runtime Timestamp = [Pallet_part, Call_part, Storage_part, Inherent_part]"
| "construct_runtime Grandpa = [Pallet_part, Call_part, Storage_part, Config_part, Event_part, ValidateUnsigned_part]"
| "construct_runtime Sudo = [Pallet_part, Call_part, Config_part, Storage_part, Event_part]"

definition pallets_with :: "pallet_part \<Rightarrow> pallet list" where
  "pallets_with part = filter (\<lambda>p. part \<in> set (construct_runtime p)) Enum.enum"

definition pallet_index :: "pallet \<Rightarrow> nat" where
  "pallet_index p = length (takeWhile (\<lambda>q. q \<noteq> p) Enum.enum)"

subsection \<open>Parameters\<close>

definition BlockHashCount :: BlockNumber where
  "BlockHashCount = 2400"

definition SS58Prefix :: u8 where
  "SS58Prefix = 42"

text \<open>The argument of \<open>BlockLength::max_with_normal_ratio\<close>.\<close>

definition RuntimeBlockLength :: "(u32 \<Rightarrow> Perbill) \<Rightarrow> u32 \<times> Perbill" where
  "RuntimeBlockLength from_percent = (5 * 1024 * 1024, NORMAL_DISPATCH_RATIO from_percent)"

text \<open>\<open>const_assert!\<close> over the two ratios, checked when the runtime is compiled.\<close>

definition ratios_asserted :: "(u32 \<Rightarrow> Perbill) \<Rightarrow> bool" where
  "ratios_asserted from_percent \<longleftrightarrow> AVERAGE_ON_INITIALIZE_RATIO from_percent \<le> NORMAL_DISPATCH_RATIO from_percent"

datatype signed_extension =
    CheckSpecVersion | CheckTxVersion | CheckGenesis | CheckEra | CheckNonce | CheckWeight

definition SignedExtra :: "signed_extension list" where
  "SignedExtra = [CheckSpecVersion, CheckTxVersion, CheckGenesis, CheckEra, CheckNonce, CheckWeight]"

record NativeVersion =
  nv_runtime_version :: RuntimeVersion
  nv_can_author_with :: "u32 set"

definition native_version :: "(bytes \<times> u32) list \<Rightarrow> NativeVersion" where
  "native_version api_versions =
     \<lparr>nv_runtime_version = VERSION api_versions, nv_can_author_with = {}\<rparr>"

subsection \<open>Native dispatch\<close>

text \<open>The exported name of a method is its trait and its function.\<close>

fun method_name :: "runtime_call \<Rightarrow> string" where
  "method_name Core_version = ''Core_version''"
| "method_name (Core_execute_block b) = ''Core_execute_block''"
| "method_name (Core_initialize_block h) = ''Core_initialize_block''"
| "method_name Metadata_metadata = ''Metadata_metadata''"
| "method_name (BlockBuilder_apply_extrinsic x) = ''BlockBuilder_apply_extrinsic''"
| "method_name BlockBuilder_finalize_block = ''BlockBuilder_finalize_block''"
| "method_name (BlockBuilder_inherent_extrinsics d) = ''BlockBuilder_inherent_extrinsics''"
| "method_name (BlockBuilder_check_inherents b d) = ''BlockBuilder_check_inherents''"
| "method_name GrandpaApi_grandpa_authorities = ''GrandpaApi_grandpa_authorities''"
| "method_name (GrandpaApi_submit_report e k) = ''GrandpaApi_submit_report_equivocation_unsigned_extrinsic''"
| "method_name (GrandpaApi_generate_key_ownership_proof n a) = ''GrandpaApi_generate_key_ownership_proof''"
| "method_name BabeApi_configuration = ''BabeApi_configuration''"
| "method_name BabeApi_current_epoch_start = ''BabeApi_current_epoch_start''"
| "method_name BabeApi_current_epoch = ''BabeApi_current_epoch''"
| "method_name BabeApi_next_epoch = ''BabeApi_next_epoch''"
| "method_name (BabeApi_generate_key_ownership_proof n a) = ''BabeApi_generate_key_ownership_proof''"
| "method_name (BabeApi_submit_report e k) = ''BabeApi_submit_report_equivocation_unsigned_extrinsic''"
| "method_name (SessionKeys_generate_session_keys s) = ''SessionKeys_generate_session_keys''"
| "method_name (SessionKeys_decode_session_keys e) = ''SessionKeys_decode_session_keys''"

text \<open>\<open>native_executor_instance!\<close>: the executor runs \<open>api::dispatch\<close> and reports the native version. The
  codecs of arguments and answers are parameters; arguments that do not decode end the call.\<close>

record dispatch_codec =
  dc_decode :: "string \<Rightarrow> bytes \<Rightarrow> runtime_call option"
  dc_encode :: "runtime_answer \<Rightarrow> bytes"

definition runtime_methods :: "string list" where
  "runtime_methods =
     [''Core_version'', ''Core_execute_block'',
      ''Core_initialize_block'', ''Metadata_metadata'',
      ''BlockBuilder_apply_extrinsic'', ''BlockBuilder_finalize_block'',
      ''BlockBuilder_inherent_extrinsics'', ''BlockBuilder_check_inherents'',
      ''GrandpaApi_grandpa_authorities'', ''GrandpaApi_submit_report_equivocation_unsigned_extrinsic'',
      ''GrandpaApi_generate_key_ownership_proof'', ''BabeApi_configuration'',
      ''BabeApi_current_epoch_start'', ''BabeApi_current_epoch'',
      ''BabeApi_next_epoch'', ''BabeApi_generate_key_ownership_proof'',
      ''BabeApi_submit_report_equivocation_unsigned_extrinsic'', ''SessionKeys_generate_session_keys'',
      ''SessionKeys_decode_session_keys'']"

definition native_dispatch ::
  "'s pallets \<Rightarrow> dispatch_codec \<Rightarrow> string \<Rightarrow> bytes \<Rightarrow> 's \<Rightarrow> (string, bytes option) result \<times> 's" where
  "native_dispatch p codec meth args s =
     (if meth \<notin> set runtime_methods then (Ok None, s)
      else case dc_decode codec meth args of
          None \<Rightarrow> (Panic ''Bad input data provided'', s)
        | Some call \<Rightarrow> map_prod (\<lambda>a. Ok (Some (dc_encode codec a))) (\<lambda>t. t) (runtime_api p call s))"

section \<open>Lemmas\<close>

lemma pallet_indices:
  "map pallet_index Enum.enum = [0..<length (Enum.enum :: pallet list)]"
  by (simp add: pallet_index_def enum_pallet_def upt_rec)

text \<open>The pallets with a genesis configuration are those that the chain specification configures.\<close>

lemma genesis_pallets: "pallets_with Config_part = [System, Babe, Grandpa, Sudo]"
  by (simp add: pallets_with_def enum_pallet_def)

text \<open>Equivocation reports are the only calls that may come unsigned, and time is the only inherent.\<close>

lemma unsigned_pallets:
  "pallets_with ValidateUnsigned_part = [Babe, Grandpa]" "pallets_with Inherent_part = [Timestamp]"
  by (simp_all add: pallets_with_def enum_pallet_def)

lemma ratios_hold: "mono from_percent \<Longrightarrow> ratios_asserted from_percent"
  by (simp add: ratios_asserted_def AVERAGE_ON_INITIALIZE_RATIO_def NORMAL_DISPATCH_RATIO_def monoD)

lemma method_name_exported: "method_name c \<in> set runtime_methods"
  by (cases c) (simp_all add: runtime_methods_def)

text \<open>A call goes to the method it names, or to none.\<close>

lemma native_dispatch_answers:
  assumes "dc_decode codec (method_name call) args = Some call"
  shows "native_dispatch p codec (method_name call) args s =
    map_prod (\<lambda>a. Ok (Some (dc_encode codec a))) (\<lambda>t. t) (runtime_api p call s)"
  using assms by (simp add: native_dispatch_def method_name_exported)

text \<open>The name of the first version of the core API is not among them.\<close>

lemma not_a_method: "''Core_initialise_block'' \<notin> set runtime_methods"
  by (simp add: runtime_methods_def)

section \<open>The calls of the archive's runtime API\<close>

text \<open>A client that has only some methods, and panics on a call of any other.\<close>

definition calls_only ::
  "('ov, 'c, 'st, 'a) mock_env \<Rightarrow> string set \<Rightarrow> ('ov, 'c, 'st, 'a) mock_env" where
  "calls_only env allowed = env
     \<lparr>call_api_at := (\<lambda>p s. if cp_function p \<in> allowed then call_api_at env p s else (Panic ''no such method'', s))\<rparr>"

lemma calls_only_fields [simp]:
  "overlay (calls_only env allowed) = overlay env" "default_cache (calls_only env allowed) = default_cache env"
  "runtime_version_at (calls_only env allowed) = runtime_version_at env"
  "encode_unit (calls_only env allowed) = encode_unit env" "encode_block (calls_only env allowed) = encode_block env"
  "encode_header (calls_only env allowed) = encode_header env"
  "decode_value (calls_only env allowed) = decode_value env"
  by (simp_all add: calls_only_def)

lemma calls_only_call:
  "m \<in> allowed \<Longrightarrow> call_api_at (calls_only env allowed) (call_params m context ini bid args) =
     call_api_at env (call_params m context ini bid args)"
  by (rule ext) (simp add: calls_only_def call_params_def)

lemma calls_only_decoded:
  "m \<in> allowed \<Longrightarrow> call_api_at_decoded (calls_only env allowed) m = call_api_at_decoded env m"
  unfolding call_api_at_decoded_def api_start_transaction_def calls_only_fields
  by (intro ext) (simp add: calls_only_call)

lemma calls_only_native:
  "m \<in> allowed \<Longrightarrow> call_api_at_native_code (calls_only env allowed) m = call_api_at_native_code env m"
  unfolding call_api_at_native_code_def api_start_transaction_def calls_only_fields
  by (intro ext) (simp add: calls_only_call)

lemma forwarded_methods:
  "''Core_version'' \<in> set runtime_methods" "''Core_execute_block'' \<in> set runtime_methods"
  "''Core_initialize_block'' \<in> set runtime_methods" "''Metadata_metadata'' \<in> set runtime_methods"
  "''BlockBuilder_check_inherents'' \<in> set runtime_methods" "''BabeApi_configuration'' \<in> set runtime_methods"
  "''SessionKeys_generate_session_keys'' \<in> set runtime_methods"
  by (simp_all add: runtime_methods_def)

text \<open>A version whose core API is not older than version 2.\<close>

definition modern_core :: "RuntimeVersion \<Rightarrow> bool" where
  "modern_core v \<longleftrightarrow> (\<forall>(s, n) \<in> set (apis v). s = CORE_ID \<longrightarrow> 2 \<le> n)"

lemma modern_initialize: "modern_core v \<Longrightarrow> initialize_method v = ''Core_initialize_block''"
  by (auto simp: modern_core_def initialize_method_def)

lemma calls_only_close [simp]: "commit_or_rollback (calls_only env allowed) b = commit_or_rollback env b"
  by (rule ext) (simp add: commit_or_rollback_def)

lemma calls_only_transaction [simp]:
  "execute_in_transaction (calls_only env allowed) = execute_in_transaction env"
  "into_storage_changes (calls_only env allowed) = into_storage_changes env"
proof -
  show "execute_in_transaction (calls_only env allowed) = execute_in_transaction env"
    by (intro ext) (simp add: execute_in_transaction_def api_start_transaction_def)
  show "into_storage_changes (calls_only env allowed) = into_storage_changes env"
    by (intro ext) (simp add: into_storage_changes_def calls_only_def)
qed

lemma initialize_calls_only:
  assumes "\<And>v. runtime_version_at env bid = Ok v \<Longrightarrow> modern_core v"
  shows "api_initialize_block (calls_only env (set runtime_methods)) bid h s = api_initialize_block env bid h s"
  using assms forwarded_methods(3)
  by (cases "runtime_version_at env bid")
     (simp_all add: api_initialize_block_def modern_initialize calls_only_decoded pbind_def)

lemma calls_only_requests:
  fixes env :: "('ov, 'c, 'st, 'a) mock_env"
  assumes "\<And>bid v. runtime_version_at env bid = Ok v \<Longrightarrow> modern_core v"
  shows "core_version (calls_only env (set runtime_methods)) bid = core_version env bid"
    "api_execute_block (calls_only env (set runtime_methods)) bid b = api_execute_block env bid b"
    "api_initialize_block (calls_only env (set runtime_methods)) bid h = api_initialize_block env bid h"
    "core_execute_block_impl (calls_only env (set runtime_methods)) bid ctx ob = core_execute_block_impl env bid ctx ob"
    "api_metadata (calls_only env (set runtime_methods)) bid = api_metadata env bid"
    "metadata_impl (calls_only env (set runtime_methods)) bid ctx = metadata_impl env bid ctx"
    "block_builder_api (calls_only env (set runtime_methods)) m bid args = block_builder_api env m bid args"
    "babe_api (calls_only env (set runtime_methods)) bm bid = babe_api env bm bid"
    "babe_configuration_impl (calls_only env (set runtime_methods)) bid ctx = babe_configuration_impl env bid ctx"
    "session_keys_api (calls_only env (set runtime_methods)) sm bid args = session_keys_api env sm bid args"
proof -
  note calls = calls_only_decoded [of _ "set runtime_methods" env] calls_only_native [of _ "set runtime_methods" env]
  show "block_builder_api (calls_only env (set runtime_methods)) m bid args = block_builder_api env m bid args"
    by (cases m) (simp_all add: calls forwarded_methods)
  show "babe_api (calls_only env (set runtime_methods)) bm bid = babe_api env bm bid"
    by (cases bm) (simp_all add: calls forwarded_methods)
  show "session_keys_api (calls_only env (set runtime_methods)) sm bid args = session_keys_api env sm bid args"
    by (cases sm) (simp_all add: calls forwarded_methods)
  show "api_initialize_block (calls_only env (set runtime_methods)) bid h = api_initialize_block env bid h"
    using initialize_calls_only [of env, OF assms] by (intro ext)
qed (simp_all add: calls_only_decoded calls_only_native forwarded_methods core_version_def
        api_execute_block_def core_execute_block_impl_def api_metadata_def metadata_impl_def babe_configuration_impl_def)

section \<open>Properties\<close>

text \<open>C40: the runtime API of the archive and the runtime agree on names: on a chain whose runtimes have
  version 2 of the core API or a later one, every method that any use of the API calls is one that the
  runtime exports, with the name under which it exports it.\<close>

theorem api_calls_are_methods:
  fixes env :: "('ov, 'c, 'st, 'a) mock_env"
  assumes "\<And>bid v. runtime_version_at env bid = Ok v \<Longrightarrow> modern_core v"
  shows "api_request_run (calls_only env (set runtime_methods)) q s = api_request_run env q s"
proof (induction q arbitrary: s)
  case (Transaction_request qs commit)
  then have "for_each_prog (\<lambda>q. ignore_result (api_request_run (calls_only env (set runtime_methods)) q)) qs =
      (for_each_prog (\<lambda>q. ignore_result (api_request_run env q)) qs :: (('ov, 'c) MockRuntimeApiImpl, ApiError, unit) prog)"
    by (intro for_each_prog_cong refl ext) (simp add: ignore_result_def)
  then show ?case by simp
qed (simp_all add: calls_only_requests [OF assms] discard_def pbind_def map_err_prog_def)

theorem api_calls_are_methods_witness:
  "fst (api_request_run (calls_only demo_mock_env (set runtime_methods)) (Metadata_request (Number 1))
     (construct_runtime_api demo_mock_env)) = Ok ()"
proof -
  have "modern_core v" if "runtime_version_at demo_mock_env bid = Ok v" for bid v
    using that by (auto simp: demo_mock_env_def demo_version_def modern_core_def)
  from api_calls_are_methods [of demo_mock_env "Metadata_request (Number 1)", OF this] show ?thesis
    by (simp add: discard_def pbind_def demo_metadata_call)
qed

end
