(* ===== verification/Runtime_Config.thy ===== *)
theory Runtime_Config
  imports Runtime_Composition
begin

text \<open>
  How the runtime configures its pallets (the \<open>Config\<close> implementations of \<open>runtime/src/lib.rs\<close>): the values
  the pallets are given, and what each of their hooks is bound to. The types that only name a
  representation (hashes, headers, events, weights of calls) carry no behaviour here.
\<close>

section \<open>Model\<close>

text \<open>What a hook is bound to: the unit type, the trigger for epoch changes from outside, or a pallet.\<close>

datatype hook = Unit_hook | External_trigger | Pallet_hook pallet

record system_config =
  sys_base_call_filter :: hook
  sys_block_weights :: BlockWeights
  sys_block_length :: "u32 \<times> Perbill"
  sys_block_hash_count :: BlockNumber
  sys_version :: RuntimeVersion
  sys_on_new_account :: hook
  sys_on_killed_account :: hook
  sys_ss58_prefix :: u8
  sys_on_set_code :: hook

definition system_config_of :: "BlockWeights \<Rightarrow> (u32 \<Rightarrow> Perbill) \<Rightarrow> (bytes \<times> u32) list \<Rightarrow> system_config" where
  "system_config_of block_weights from_percent api_versions =
     \<lparr>sys_base_call_filter = Unit_hook, sys_block_weights = block_weights,
      sys_block_length = RuntimeBlockLength from_percent, sys_block_hash_count = BlockHashCount,
      sys_version = VERSION api_versions, sys_on_new_account = Unit_hook, sys_on_killed_account = Unit_hook,
      sys_ss58_prefix = SS58Prefix, sys_on_set_code = Unit_hook\<rparr>"

record babe_config =
  babe_epoch_duration :: u64
  babe_expected_block_time :: Moment
  babe_epoch_change_trigger :: hook
  babe_key_owner_proof_system :: hook
  babe_handle_equivocation :: hook
  babe_weight_info :: hook

definition babe_config :: babe_config where
  "babe_config =
     \<lparr>babe_epoch_duration = EpochDuration, babe_expected_block_time = ExpectedBlockTime,
      babe_epoch_change_trigger = External_trigger, babe_key_owner_proof_system = Unit_hook,
      babe_handle_equivocation = Unit_hook, babe_weight_info = Unit_hook\<rparr>"

record timestamp_config =
  ts_on_timestamp_set :: hook
  ts_minimum_period :: Moment

definition timestamp_config :: timestamp_config where
  "timestamp_config = \<lparr>ts_on_timestamp_set = Pallet_hook Babe, ts_minimum_period = MinimumPeriod\<rparr>"

text \<open>\<open>impl_opaque_keys!\<close> lists the keys of a session; there are none.\<close>

definition SessionKeys :: "pallet list" where
  "SessionKeys = []"

record grandpa_config =
  gp_key_owner_proof_system :: hook
  gp_handle_equivocation :: hook
  gp_weight_info :: hook

definition grandpa_config :: grandpa_config where
  "grandpa_config =
     \<lparr>gp_key_owner_proof_system = Unit_hook, gp_handle_equivocation = Unit_hook, gp_weight_info = Unit_hook\<rparr>"

text \<open>The executive runs all pallets, in the order of their declaration, and has no upgrade hook.\<close>

record executive =
  ex_all_pallets :: "pallet list"
  ex_on_runtime_upgrade :: hook

definition Executive :: executive where
  "Executive = \<lparr>ex_all_pallets = Enum.enum, ex_on_runtime_upgrade = Unit_hook\<rparr>"

section \<open>Lemmas\<close>

text \<open>The pieces fit: twice the least distance between two timestamps, the block time that Babe expects and
  the duration of a slot are one number, and the timestamp is handed to a pallet that the executive
  runs.\<close>

lemma timing_fits:
  "2 * ts_minimum_period timestamp_config = babe_expected_block_time babe_config"
  "babe_expected_block_time babe_config = SLOT_DURATION"
  "ts_on_timestamp_set timestamp_config = Pallet_hook Babe \<and> Babe \<in> set (ex_all_pallets Executive)"
  by (simp_all add: timestamp_config_def babe_config_def MinimumPeriod_def ExpectedBlockTime_def SLOT_DURATION_def
      MILLISECS_PER_BLOCK_def Executive_def enum_pallet_def)

end
