(* ===== verification/Block_Rules.thy ===== *)
theory Block_Rules
  imports Archive_Prelude
begin

text \<open>
  The block filtering rules of \<open>client/service/src/client/block_rules.rs\<close>: known bad blocks and
  canonical hashes at given heights, and the interface (\<open>block_filter\<close>) through which the client
  consults and extends them.
\<close>

section \<open>Model\<close>

type_synonym ForkBlocks = "(BlockNumber \<times> H256) list option"
type_synonym BadBlocks = "H256 set option"

datatype LookupResult = NotSpecial | KnownBad | Expected H256

record BlockRules =
  bad :: "H256 set"
  forks :: "BlockNumber \<rightharpoonup> H256"

text \<open>Collecting a vector of pairs into a \<open>HashMap\<close> keeps the last value of a key.\<close>

definition rules_new :: "ForkBlocks \<Rightarrow> BadBlocks \<Rightarrow> BlockRules" where
  "rules_new fork_blocks bad_blocks =
     \<lparr>bad = (case bad_blocks of None \<Rightarrow> {} | Some b \<Rightarrow> b),
      forks = map_of (rev (case fork_blocks of None \<Rightarrow> [] | Some f \<Rightarrow> f))\<rparr>"

definition mark_bad :: "H256 \<Rightarrow> BlockRules \<Rightarrow> BlockRules" where
  "mark_bad h r = r\<lparr>bad := insert h (bad r)\<rparr>"

definition rules_lookup :: "BlockRules \<Rightarrow> BlockNumber \<Rightarrow> H256 \<Rightarrow> LookupResult" where
  "rules_lookup r n h =
     (case forks r n of
        Some hash_for_height \<Rightarrow>
          if hash_for_height \<noteq> h then Expected hash_for_height
          else if h \<in> bad r then KnownBad else NotSpecial
      | None \<Rightarrow> if h \<in> bad r then KnownBad else NotSpecial)"

section \<open>The interface the client relies on\<close>

text \<open>
  A filter gives a verdict on a block and can be told to reject a block from now on. Rejecting is
  final for that block and does not change the verdict on any other.
\<close>

locale block_filter =
  fixes verdict :: "'r \<Rightarrow> BlockNumber \<Rightarrow> H256 \<Rightarrow> LookupResult"
    and reject :: "H256 \<Rightarrow> 'r \<Rightarrow> 'r"
  assumes reject_rejects: "verdict (reject h r) n h \<noteq> NotSpecial"
    and reject_frame: "h' \<noteq> h \<Longrightarrow> verdict (reject h r) n h' = verdict r n h'"
begin

lemma fold_reject_frame: "h' \<notin> set hs \<Longrightarrow> verdict (fold reject hs r) n h' = verdict r n h'"
  by (induction hs arbitrary: r) (auto simp: reject_frame)

lemma reject_keeps_rejected:
  "verdict r n h \<noteq> NotSpecial \<Longrightarrow> verdict (reject h' r) n h \<noteq> NotSpecial"
  by (cases "h' = h") (auto simp: reject_rejects reject_frame)

lemma fold_reject_keeps_rejected:
  "verdict r n h \<noteq> NotSpecial \<Longrightarrow> verdict (fold reject hs r) n h \<noteq> NotSpecial"
  by (induction hs arbitrary: r) (auto simp: reject_keeps_rejected)

lemma fold_reject_rejects: "h \<in> set hs \<Longrightarrow> verdict (fold reject hs r) n h \<noteq> NotSpecial"
proof (induction hs arbitrary: r)
  case (Cons a hs)
  then show ?case
    by (cases "h \<in> set hs") (auto simp: fold_reject_keeps_rejected reject_rejects)
qed simp

end

lemma mark_bad_simps [simp]:
  "bad (mark_bad h r) = insert h (bad r)" "forks (mark_bad h r) = forks r"
  by (simp_all add: mark_bad_def)

interpretation rules: block_filter rules_lookup mark_bad
  by unfold_locales (auto simp: rules_lookup_def split: option.splits)

section \<open>Properties\<close>

lemma rules_lookup_NotSpecial:
  "rules_lookup r n h = NotSpecial \<longleftrightarrow> h \<notin> bad r \<and> (\<forall>f. forks r n = Some f \<longrightarrow> f = h)"
  by (auto simp: rules_lookup_def split: option.splits)

lemma map_of_rev_last: "k \<notin> fst ` set ys \<Longrightarrow> map_of (rev (xs @ (k, v) # ys)) k = Some v"
  using map_of_eq_None_iff [of "rev ys" k] by (simp add: map_add_def)

text \<open>The rules of a chain specification. When the last entry of the fork list for a height
  names the hash \<open>f\<close>, every other block at that height is answered with \<open>Expected f\<close>, even a block
  that is also listed as bad, and the named block itself is rejected exactly when it is listed as
  bad.\<close>

lemma chain_spec_rules:
  assumes "n \<notin> fst ` set later"
  shows "rules_lookup (rules_new (Some (earlier @ (n, f) # later)) bads) n h =
    (if h \<noteq> f then Expected f
     else if h \<in> (case bads of None \<Rightarrow> {} | Some b \<Rightarrow> b) then KnownBad else NotSpecial)"
  using map_of_rev_last [OF assms, of earlier f] by (simp add: rules_lookup_def rules_new_def)

end
