(* ===== verification/Client_Notifies.thy ===== *)
theory Client_Notifies
  imports Archive_Prelude
begin

text \<open>
  The notification sinks of the client (\<open>client/service/src/notifies.rs\<close>): subscribers to finality
  and import notifications, the pruning of closed ones and the order of deliveries.
\<close>

section \<open>Model\<close>

text \<open>A subscriber: whether its receiver is gone, and what it was sent.\<close>

record 'n sink =
  is_closed :: bool
  inbox :: "'n list"

record FinalityNotification =
  fn_header :: Header
  fn_hash :: H256

datatype BlockOrigin = Genesis | NetworkInitialSync | NetworkBroadcast | ConsensusBroadcast | Own | File

text \<open>A route between two blocks, as the block chain library computes it.\<close>

record TreeRoute =
  retracted :: "H256 list"
  common_block :: H256
  enacted :: "H256 list"

type_synonym StorageCollection = "(bytes \<times> bytes option) list"
type_synonym ChildStorageCollection = "(bytes \<times> StorageCollection) list"

record ImportSummary =
  is_hash :: H256
  is_origin :: BlockOrigin
  is_header :: Header
  is_is_new_best :: bool
  is_storage_changes :: "(StorageCollection \<times> ChildStorageCollection) option"
  is_tree_route :: "TreeRoute option"

record BlockImportNotification =
  bn_hash :: H256
  bn_origin :: BlockOrigin
  bn_header :: Header
  bn_is_new_best :: bool
  bn_tree_route :: "TreeRoute option"

record notifies =
  storage_triggers :: "(H256 \<times> StorageCollection \<times> ChildStorageCollection) list"
  import_notification_sinks :: "BlockImportNotification sink list"
  finality_notification_sinks :: "FinalityNotification sink list"

definition notifies_new :: notifies where
  "notifies_new = \<lparr>storage_triggers = [], import_notification_sinks = [], finality_notification_sinks = []\<rparr>"

text \<open>\<open>unbounded_send\<close> fails exactly when the receiver is gone.\<close>

definition unbounded_send :: "'n \<Rightarrow> 'n sink \<Rightarrow> 'n sink option" where
  "unbounded_send n s = (if is_closed s then None else Some (s\<lparr>inbox := inbox s @ [n]\<rparr>))"

definition retain_send :: "'n \<Rightarrow> 'n sink list \<Rightarrow> 'n sink list" where
  "retain_send n sinks = List.map_filter (unbounded_send n) sinks"

definition retain_open :: "'n sink list \<Rightarrow> 'n sink list" where
  "retain_open sinks = filter (\<lambda>s. \<not> is_closed s) sinks"

fun notify_each ::
  "(H256 \<Rightarrow> (blockchain_error, Header option) result) \<Rightarrow> H256 list \<Rightarrow> (notifies, blockchain_error, unit) prog" where
  "notify_each hdr [] = ret ()"
| "notify_each hdr (finalized_hash # hs) =
     pbind (return_prog (hdr finalized_hash)) (\<lambda>found.
     pbind (return_prog (expect_some ''Header already known to exist in DB because it is indicated in the tree route; qed'' found)) (\<lambda>h.
     pbind (modify_prog (\<lambda>n. n\<lparr>finality_notification_sinks :=
         retain_send \<lparr>fn_header = h, fn_hash = finalized_hash\<rparr> (finality_notification_sinks n)\<rparr>)) (\<lambda>_.
       notify_each hdr hs)))"

definition notify_finalized ::
  "(H256 \<Rightarrow> (blockchain_error, Header option) result) \<Rightarrow> H256 list \<Rightarrow> (notifies, blockchain_error, unit) prog" where
  "notify_finalized hdr hs =
     (if hs = []
      then modify_prog (\<lambda>n. n\<lparr>finality_notification_sinks := retain_open (finality_notification_sinks n)\<rparr>)
      else notify_each hdr hs)"

definition notify_imported :: "ImportSummary option \<Rightarrow> (notifies, blockchain_error, unit) prog" where
  "notify_imported notify_import =
     (case notify_import of
        None \<Rightarrow> modify_prog (\<lambda>n. n\<lparr>import_notification_sinks := retain_open (import_notification_sinks n)\<rparr>)
      | Some i \<Rightarrow>
          pbind (case is_storage_changes i of
                   Some (main, child) \<Rightarrow> modify_prog (\<lambda>n. n\<lparr>storage_triggers := storage_triggers n @ [(is_hash i, main, child)]\<rparr>)
                 | None \<Rightarrow> ret ()) (\<lambda>_.
          modify_prog (\<lambda>n. n\<lparr>import_notification_sinks :=
            retain_send \<lparr>bn_hash = is_hash i, bn_origin = is_origin i, bn_header = is_header i,
              bn_is_new_best = is_is_new_best i, bn_tree_route = is_tree_route i\<rparr> (import_notification_sinks n)\<rparr>)))"

section \<open>Lemmas\<close>

lemma retain_send_open: "retain_send n sinks = map (\<lambda>s. s\<lparr>inbox := inbox s @ [n]\<rparr>) (retain_open sinks)"
  by (induction sinks) (auto simp: retain_send_def retain_open_def unbounded_send_def List.map_filter_def)

lemma retain_open_map: "retain_open (map (\<lambda>s. s\<lparr>inbox := f s\<rparr>) sinks) = map (\<lambda>s. s\<lparr>inbox := f s\<rparr>) (retain_open sinks)"
  by (induction sinks) (auto simp: retain_open_def)

lemma retain_open_idem [simp]: "retain_open (retain_open sinks) = retain_open sinks"
  by (simp add: retain_open_def)

lemma notify_each_ok:
  assumes "notify_each hdr hs n = (Ok (), n')" "retain_open (finality_notification_sinks n) = finality_notification_sinks n"
  shows "finality_notification_sinks n' = map (\<lambda>s. s\<lparr>inbox := inbox s @
      map (\<lambda>h. \<lparr>fn_header = the (case hdr h of Ok x \<Rightarrow> x | _ \<Rightarrow> None), fn_hash = h\<rparr>) hs\<rparr>)
    (finality_notification_sinks n)"
  using assms
proof (induction hs arbitrary: n)
  case (Cons h hs)
  from Cons.prems(1) obtain x where x: "hdr h = Ok (Some x)"
    by (auto simp: pbind_def expect_some_case split: result.splits option.splits)
  let ?n = "n\<lparr>finality_notification_sinks :=
      retain_send \<lparr>fn_header = x, fn_hash = h\<rparr> (finality_notification_sinks n)\<rparr>"
  have "notify_each hdr hs ?n = (Ok (), n')" using Cons.prems(1) x by simp
  moreover have "retain_open (finality_notification_sinks ?n) = finality_notification_sinks ?n"
    by (simp add: retain_send_open retain_open_map)
  ultimately have "finality_notification_sinks n' = map (\<lambda>s. s\<lparr>inbox := inbox s @
      map (\<lambda>h. \<lparr>fn_header = the (case hdr h of Ok x \<Rightarrow> x | _ \<Rightarrow> None), fn_hash = h\<rparr>) hs\<rparr>)
    (finality_notification_sinks ?n)" by (rule Cons.IH)
  then show ?case using x Cons.prems(2) by (simp add: retain_send_open)
qed simp

section \<open>Properties\<close>

text \<open>After a finality notification round that returns, the subscribers left are exactly the open
  ones, in their order, and each has received one notification per finalized block, in the order of
  the list and with the header the database has for it.\<close>

lemma finality_notifications_in_order:
  assumes "notify_finalized hdr hs n = (Ok (), n')"
  shows "finality_notification_sinks n' = map (\<lambda>s. s\<lparr>inbox := inbox s @
      map (\<lambda>h. \<lparr>fn_header = the (case hdr h of Ok x \<Rightarrow> x | _ \<Rightarrow> None), fn_hash = h\<rparr>) hs\<rparr>)
    (retain_open (finality_notification_sinks n))"
proof (cases hs)
  case Nil
  with assms show ?thesis by (auto simp: notify_finalized_def)
next
  case (Cons h hs')
  from assms Cons obtain x where x: "hdr h = Ok (Some x)"
    by (auto simp: notify_finalized_def pbind_def expect_some_case split: result.splits option.splits)
  let ?n = "n\<lparr>finality_notification_sinks :=
      retain_send \<lparr>fn_header = x, fn_hash = h\<rparr> (finality_notification_sinks n)\<rparr>"
  have "notify_each hdr hs' ?n = (Ok (), n')" using assms Cons x by (simp add: notify_finalized_def)
  from notify_each_ok [OF this] x Cons show ?thesis by (simp add: retain_send_open retain_open_map)
qed

section \<open>A concrete round\<close>

end
