(* ===== verification/Client_Import.thy ===== *)
theory Client_Import
  imports Block_Rules Client_Notifies
begin

text \<open>
  Importing and finalizing blocks (\<open>client/service/src/client/client.rs\<close>): block status, the checks
  before an import, the preparation of storage changes, the application of a block and of finality to
  an operation, and the lock that commits an operation and sends its notifications. The block chain
  backend is \<open>client_backend\<close>; an operation is the list of the requests made to it.
\<close>

section \<open>Model\<close>

datatype chain_status = InChain | Unknown_in_chain
datatype BlockStatus = Queued | InChainWithState | InChainPruned | KnownBad_status | Unknown_status

record ImportStorageChanges =
  ic_main :: StorageCollection
  ic_child :: ChildStorageCollection
  ic_offchain :: bytes
  ic_transaction :: bytes
  transaction_storage_root :: H256
  ic_changes_trie :: "bytes option"
  ic_transaction_index :: bytes

datatype ForkChoiceStrategy = LongestChain | Custom bool
datatype NewBlockState = Normal | Best | Final

record BlockImportParams =
  ip_origin :: BlockOrigin
  ip_header :: Header
  ip_justifications :: "Justification list option"
  ip_post_digests :: "DigestItem list"
  ip_body :: "Extrinsic list option"
  ip_storage_changes :: "ImportStorageChanges option"
  ip_finalized :: bool
  ip_auxiliary :: "(bytes \<times> bytes option) list"
  ip_fork_choice :: "ForkChoiceStrategy option"
  ip_intermediates :: "bytes list"
  ip_import_existing :: bool
  ip_allow_missing_state :: bool

record BlockCheckParams =
  ck_hash :: H256
  ck_number :: BlockNumber
  ck_parent_hash :: H256
  ck_allow_missing_state :: bool
  ck_import_existing :: bool

datatype ImportResult =
    Imported bool
  | AlreadyInChain
  | KnownBad_result
  | UnknownParent
  | MissingState

text \<open>The storage a chain starts with, and the requests a block import operation can make to the
  backend.\<close>

record GenesisStorage =
  gs_top :: "(bytes \<times> bytes) list"
  gs_children_default :: "(bytes \<times> (bytes \<times> bytes) list) list"

datatype op_action =
    Begin_state_operation BlockId
  | Reset_storage GenesisStorage
  | Update_cache bytes
  | Update_offchain_storage bytes
  | Update_db_storage bytes
  | Update_storage StorageCollection ChildStorageCollection
  | Update_transaction_index bytes
  | Update_changes_trie bytes
  | Mark_head BlockId
  | Mark_finalized BlockId "Justification option"
  | Set_block_data Header "Extrinsic list option" "Justification list option" NewBlockState
  | Insert_aux "(bytes \<times> bytes option) list"

record chain_info =
  best_hash :: H256
  best_number :: BlockNumber
  finalized_number :: BlockNumber
  genesis_hash :: H256

text \<open>
  The backend while the import lock is held: chain queries, tree routes, whether it accepts a request
  of an operation and a commit, and the headers it has after a commit. \<open>execute_block\<close> is the runtime
  API of the client followed by \<open>into_storage_changes\<close>, in the order the code calls them.
\<close>

record client_backend =
  cb_status :: "H256 \<Rightarrow> (blockchain_error, chain_status) result"
  cb_number :: "H256 \<Rightarrow> (blockchain_error, BlockNumber option) result"
  cb_hash :: "BlockNumber \<Rightarrow> (blockchain_error, H256 option) result"
  cb_have_state_at :: "H256 \<Rightarrow> BlockNumber \<Rightarrow> bool"
  cb_info :: chain_info
  cb_last_finalized :: "(blockchain_error, H256) result"
  cb_tree_route :: "H256 \<Rightarrow> H256 \<Rightarrow> (blockchain_error, TreeRoute) result"
  cb_expect_block_hash_from_id :: "BlockId \<Rightarrow> (blockchain_error, H256) result"
  cb_begin_operation :: "(blockchain_error, unit) result"
  cb_accepts :: "op_action \<Rightarrow> (blockchain_error, unit) result"
  cb_commit_operation :: "op_action list \<Rightarrow> (blockchain_error, unit) result"
  cb_header_after :: "op_action list \<Rightarrow> H256 \<Rightarrow> (blockchain_error, Header option) result"
  cb_revert :: "BlockNumber \<Rightarrow> bool \<Rightarrow> (blockchain_error, BlockNumber \<times> H256 list) result"
  cb_header_hash :: "Header \<Rightarrow> H256"
  cb_execute_block :: "H256 \<Rightarrow> bool \<Rightarrow> Block \<Rightarrow> (blockchain_error, unit) result"
  cb_state_at :: "H256 \<Rightarrow> (blockchain_error, unit) result"
  cb_changes_trie_at :: "H256 \<Rightarrow> (blockchain_error, unit) result"
  cb_into_storage_changes :: "H256 \<Rightarrow> Block \<Rightarrow> (string, ImportStorageChanges) result"
  cb_offchain_indexing_api :: bool

text \<open>The operation being built, and the client around it.\<close>

record ClientImportOperation =
  op_actions :: "op_action list"
  op_notify_imported :: "ImportSummary option"
  op_notify_finalized :: "H256 list"

record client =
  importing_block :: "H256 option"
  block_rules :: BlockRules
  client_notifies :: notifies
  operation :: ClientImportOperation
  committed :: "op_action list list"

type_synonym 'a client_prog = "(client, blockchain_error, 'a) prog"

definition empty_operation :: ClientImportOperation where
  "empty_operation = \<lparr>op_actions = [], op_notify_imported = None, op_notify_finalized = []\<rparr>"

definition op_request :: "client_backend \<Rightarrow> op_action \<Rightarrow> unit client_prog" where
  "op_request be a =
     pbind (return_prog (cb_accepts be a)) (\<lambda>_.
     modify_prog (\<lambda>c. c\<lparr>operation := (operation c)\<lparr>op_actions := op_actions (operation c) @ [a]\<rparr>\<rparr>))"

subsection \<open>Status and checks\<close>

definition block_status :: "client_backend \<Rightarrow> client \<Rightarrow> BlockId \<Rightarrow> (blockchain_error, BlockStatus) result" where
  "block_status be c bid =
     (if (case bid of Hash h \<Rightarrow> importing_block c = Some h | Number _ \<Rightarrow> False) then Ok Queued
      else
        and_then (case bid of
            Hash h \<Rightarrow> map_ok (map_option (\<lambda>n. (h, n))) (cb_number be h)
          | Number n \<Rightarrow> map_ok (map_option (\<lambda>h. (h, n))) (cb_hash be n)) (\<lambda>hash_and_number.
          case hash_and_number of
            Some (h, n) \<Rightarrow> if cb_have_state_at be h n then Ok InChainWithState else Ok InChainPruned
          | None \<Rightarrow> Ok Unknown_status))"

definition check_block :: "client_backend \<Rightarrow> client \<Rightarrow> BlockCheckParams \<Rightarrow> (blockchain_error, ImportResult) result" where
  "check_block be c b =
     (case rules_lookup (block_rules c) (ck_number b) (ck_hash b) of
        KnownBad \<Rightarrow> Ok KnownBad_result
      | Expected expected_hash \<Rightarrow> Ok KnownBad_result
      | NotSpecial \<Rightarrow>
          and_then (block_status be c (Hash (ck_hash b))) (\<lambda>own.
            if own \<in> {InChainWithState, Queued} \<and> \<not> ck_import_existing b then Ok AlreadyInChain
            else if own = InChainPruned then Ok AlreadyInChain
            else if own = KnownBad_status then Ok KnownBad_result
            else
              and_then (block_status be c (Hash (ck_parent_hash b))) (\<lambda>parent.
                case parent of
                  InChainWithState \<Rightarrow> Ok (Imported False)
                | Queued \<Rightarrow> Ok (Imported False)
                | Unknown_status \<Rightarrow> Ok UnknownParent
                | InChainPruned \<Rightarrow> if ck_allow_missing_state b then Ok (Imported False) else Ok MissingState
                | KnownBad_status \<Rightarrow> Ok KnownBad_result)))"

subsection \<open>Preparing the storage changes\<close>

text \<open>Returns the verdict that ends the import, if any, and the parameters to go on with.\<close>

definition prepare_block_storage_changes ::
  "client_backend \<Rightarrow> client \<Rightarrow> BlockImportParams \<Rightarrow>
     (blockchain_error, ImportResult option \<times> BlockImportParams) result" where
  "prepare_block_storage_changes be c ib =
     (let parent = parent_hash (ip_header ib);
          enact = (\<lambda>enact_state.
            if \<not> enact_state then Ok (None, ib\<lparr>ip_storage_changes := None\<rparr>)
            else case (ip_storage_changes ib, ip_body ib) of
                (Some _, _) \<Rightarrow> Ok (None, ib)
              | (None, None) \<Rightarrow> Ok (None, ib)
              | (None, Some body) \<Rightarrow>
                  (let b = \<lparr>header = ip_header ib, extrinsics = body\<rparr> in
                   and_then (cb_execute_block be parent (ip_origin ib = NetworkInitialSync) b) (\<lambda>_.
                   and_then (cb_state_at be parent) (\<lambda>_.
                   and_then (cb_changes_trie_at be parent) (\<lambda>_.
                   and_then (map_err Storage (cb_into_storage_changes be parent b)) (\<lambda>sc.
                     if state_root (ip_header ib) \<noteq> transaction_storage_root sc
                     then Err InvalidStateRoot
                     else Ok (None, ib\<lparr>ip_storage_changes := Some sc\<rparr>)))))))
      in and_then (block_status be c (Hash parent)) (\<lambda>status.
           case status of
             Unknown_status \<Rightarrow> Ok (Some UnknownParent, ib)
           | InChainWithState \<Rightarrow> enact True
           | Queued \<Rightarrow> enact True
           | InChainPruned \<Rightarrow> if ip_allow_missing_state ib then enact False else Ok (Some MissingState, ib)
           | KnownBad_status \<Rightarrow> Ok (Some KnownBad_result, ib)))"

subsection \<open>Finality\<close>

definition MAX_TO_NOTIFY :: nat where
  "MAX_TO_NOTIFY = 256"

definition push_finalized :: "H256 list \<Rightarrow> unit client_prog" where
  "push_finalized hs =
     modify_prog (\<lambda>c. c\<lparr>operation := (operation c)\<lparr>op_notify_finalized := op_notify_finalized (operation c) @ hs\<rparr>\<rparr>)"

text \<open>Marking the blocks of a route as final, and choosing those to announce.\<close>

definition finalize_route :: "client_backend \<Rightarrow> H256 \<Rightarrow> Justification option \<Rightarrow> bool \<Rightarrow> H256 list \<Rightarrow> unit client_prog" where
  "finalize_route be blk justification notify ens =
     (if ens = [] then return_prog (Panic ''assertion failed: !enacted.is_empty()'')
      else
        pbind (for_each_prog (\<lambda>h. op_request be (Mark_finalized (Hash h) None)) (butlast ens)) (\<lambda>_.
        pbind (if last ens \<noteq> blk then return_prog (Panic ''assertion failed: enacted.last() == block'') else ret ()) (\<lambda>_.
        pbind (op_request be (Mark_finalized (Hash blk) justification)) (\<lambda>_.
          if notify then push_finalized (drop (length ens - min (length ens) MAX_TO_NOTIFY) ens)
          else ret ()))))"

definition apply_finality_with_block_hash ::
  "client_backend \<Rightarrow> H256 \<Rightarrow> Justification option \<Rightarrow> H256 \<Rightarrow> bool \<Rightarrow> unit client_prog" where
  "apply_finality_with_block_hash be blk justification best_block notify =
     pbind (return_prog (cb_last_finalized be)) (\<lambda>last_finalized.
       if blk = last_finalized then ret ()
       else
         pbind (return_prog (cb_tree_route be last_finalized blk)) (\<lambda>route_from_finalized.
           if retracted route_from_finalized \<noteq> [] then return_prog (Err NotInFinalizedChain)
           else
             pbind (return_prog (cb_tree_route be best_block blk)) (\<lambda>route_from_best.
             pbind (if common_block route_from_best \<noteq> blk then op_request be (Mark_head (Hash blk)) else ret ()) (\<lambda>_.
               finalize_route be blk justification notify (enacted route_from_finalized)))))"

definition apply_finality :: "client_backend \<Rightarrow> BlockId \<Rightarrow> Justification option \<Rightarrow> bool \<Rightarrow> unit client_prog" where
  "apply_finality be bid justification notify =
     pbind (return_prog (cb_expect_block_hash_from_id be bid)) (\<lambda>to_finalize_hash.
       apply_finality_with_block_hash be to_finalize_hash justification (best_hash (cb_info be)) notify)"

subsection \<open>Applying a block\<close>

datatype PrePostHeader = Same Header | Different Header Header

fun post :: "PrePostHeader \<Rightarrow> Header" where
  "post (Same h) = h"
| "post (Different _ h) = h"

definition make_notifications :: "BlockOrigin \<Rightarrow> bool" where
  "make_notifications origin \<longleftrightarrow>
     (case origin of
        NetworkBroadcast \<Rightarrow> True | Own \<Rightarrow> True | ConsensusBroadcast \<Rightarrow> True
      | Genesis \<Rightarrow> False | NetworkInitialSync \<Rightarrow> False | File \<Rightarrow> False)"

text \<open>Enacting storage changes on top of the parent; the parent is finalized first when the block is.\<close>

definition enact_storage_changes ::
  "client_backend \<Rightarrow> H256 \<Rightarrow> bool \<Rightarrow> bool \<Rightarrow> bytes \<Rightarrow> ImportStorageChanges option \<Rightarrow>
     (StorageCollection \<times> ChildStorageCollection) option client_prog" where
  "enact_storage_changes be parent finalized notify new_cache storage_changes =
     (case storage_changes of
        None \<Rightarrow> ret None
      | Some sc \<Rightarrow>
          pbind (op_request be (Begin_state_operation (Hash parent))) (\<lambda>_.
          pbind (if finalized
                 then apply_finality_with_block_hash be parent None (best_hash (cb_info be)) notify
                 else ret ()) (\<lambda>_.
          pbind (modify_prog (\<lambda>c. c\<lparr>operation := (operation c)\<lparr>op_actions :=
                   op_actions (operation c) @ [Update_cache new_cache]\<rparr>\<rparr>)) (\<lambda>_.
          pbind (if cb_offchain_indexing_api be then op_request be (Update_offchain_storage (ic_offchain sc)) else ret ()) (\<lambda>_.
          pbind (op_request be (Update_db_storage (ic_transaction sc))) (\<lambda>_.
          pbind (op_request be (Update_storage (ic_main sc) (ic_child sc))) (\<lambda>_.
          pbind (op_request be (Update_transaction_index (ic_transaction_index sc))) (\<lambda>_.
          pbind (case ic_changes_trie sc of
                   Some t \<Rightarrow> op_request be (Update_changes_trie t) | None \<Rightarrow> ret ()) (\<lambda>_.
            ret (Some (ic_main sc, ic_child sc)))))))))))"

definition is_new_best :: "bool \<Rightarrow> ForkChoiceStrategy \<Rightarrow> BlockNumber \<Rightarrow> BlockNumber \<Rightarrow> bool" where
  "is_new_best finalized fork_choice n best \<longleftrightarrow>
     finalized \<or> (case fork_choice of LongestChain \<Rightarrow> n > best | Custom v \<Rightarrow> v)"

definition leaf_state :: "bool \<Rightarrow> bool \<Rightarrow> NewBlockState" where
  "leaf_state finalized new_best = (if finalized then Final else if new_best then Best else Normal)"

text \<open>The second half of \<open>execute_and_import_block\<close>: the block's place in the chain, its data, and the
  notifications to make after the commit.\<close>

definition set_imported_block ::
  "client_backend \<Rightarrow> BlockImportParams \<Rightarrow> H256 \<Rightarrow> Header \<Rightarrow> ForkChoiceStrategy \<Rightarrow>
     (StorageCollection \<times> ChildStorageCollection) option \<Rightarrow> ImportResult client_prog" where
  "set_imported_block be ib h hdr fork_choice changed =
     (let info = cb_info be; notify = make_notifications (ip_origin ib);
          new_best = is_new_best (ip_finalized ib) fork_choice (number hdr) (best_number info) in
      pbind (if new_best \<and> best_hash info \<noteq> parent_hash hdr
             then return_prog (map_ok Some (cb_tree_route be (best_hash info) (parent_hash hdr))) else ret None) (\<lambda>tree_route.
      pbind (op_request be (Set_block_data hdr (ip_body ib) (ip_justifications ib)
               (leaf_state (ip_finalized ib) new_best))) (\<lambda>_.
      pbind (op_request be (Insert_aux (ip_auxiliary ib))) (\<lambda>_.
      pbind (if notify \<or> tree_route \<noteq> None
             then modify_prog (\<lambda>c. c\<lparr>operation := (operation c)
               \<lparr>op_notify_finalized := op_notify_finalized (operation c) @ (if ip_finalized ib then [h] else []),
                op_notify_imported := Some \<lparr>is_hash = h, is_origin = ip_origin ib, is_header = hdr,
                  is_is_new_best = new_best, is_storage_changes = changed, is_tree_route = tree_route\<rparr>\<rparr>\<rparr>)
             else ret ()) (\<lambda>_.
        ret (Imported new_best))))))"

definition execute_and_import_block ::
  "client_backend \<Rightarrow> BlockImportParams \<Rightarrow> H256 \<Rightarrow> PrePostHeader \<Rightarrow> ForkChoiceStrategy \<Rightarrow> bytes \<Rightarrow>
     ImportResult client_prog" where
  "execute_and_import_block be ib h import_headers fork_choice new_cache =
     (let hdr = post import_headers in
      pbind (return_prog (cb_status be h)) (\<lambda>status.
        if \<not> ip_import_existing ib \<and> status = InChain then ret AlreadyInChain
        else if ip_import_existing ib \<and> status = Unknown_in_chain then return_prog (Err (UnknownBlock h))
        else if number hdr \<le> finalized_number (cb_info be) then return_prog (Err NotInFinalizedChain)
        else
          pbind (enact_storage_changes be (parent_hash hdr) (ip_finalized ib) (make_notifications (ip_origin ib))
                   new_cache (ip_storage_changes ib)) (\<lambda>changed.
            set_imported_block be ib h hdr fork_choice changed)))"

definition apply_block :: "client_backend \<Rightarrow> BlockImportParams \<Rightarrow> bytes \<Rightarrow> ImportResult client_prog" where
  "apply_block be ib new_cache =
     (if \<not> (ip_justifications ib \<noteq> None \<and> ip_finalized ib \<or> ip_justifications ib = None)
      then return_prog (Panic ''assertion failed: justifications.is_some() && finalized || justifications.is_none()'')
      else if ip_intermediates ib \<noteq> [] then return_prog (Err IncompletePipeline)
      else
        pbind (return_prog (ok_or IncompletePipeline (ip_fork_choice ib))) (\<lambda>fork_choice.
          let import_headers =
                (if ip_post_digests ib = [] then Same (ip_header ib)
                 else Different (ip_header ib)
                   ((ip_header ib)\<lparr>digest := digest (ip_header ib) @ ip_post_digests ib\<rparr>));
              h = cb_header_hash be (post import_headers) in
          pbind (modify_prog (\<lambda>c. c\<lparr>importing_block := Some h\<rparr>)) (\<lambda>_.
            execute_and_import_block be ib h import_headers fork_choice new_cache)))"

subsection \<open>Running an operation\<close>

definition commit_operation :: "client_backend \<Rightarrow> unit client_prog" where
  "commit_operation be c =
     (case cb_commit_operation be (op_actions (operation c)) of
        Ok _ \<Rightarrow> (Ok (), c\<lparr>committed := committed c @ [op_actions (operation c)]\<rparr>)
      | Err e \<Rightarrow> (Err e, c)
      | Panic w \<Rightarrow> (Panic w, c))"

abbreviation on_notifies :: "(notifies, 'e, 'a) prog \<Rightarrow> (client, 'e, 'a) prog" where
  "on_notifies \<equiv> zoom client_notifies (\<lambda>n c. c\<lparr>client_notifies := n\<rparr>)"

definition send_notifications :: "client_backend \<Rightarrow> unit client_prog" where
  "send_notifications be =
     pbind (gets_prog operation) (\<lambda>op.
     pbind (on_notifies (notify_finalized (cb_header_after be (op_actions op)) (op_notify_finalized op))) (\<lambda>_.
       on_notifies (notify_imported (op_notify_imported op))))"

definition lock_import_and_run :: "client_backend \<Rightarrow> 'r client_prog \<Rightarrow> 'r client_prog" where
  "lock_import_and_run be f c =
     (case pbind (return_prog (cb_begin_operation be)) (\<lambda>_.
           pbind (modify_prog (\<lambda>c. c\<lparr>operation := empty_operation\<rparr>)) (\<lambda>_.
           pbind f (\<lambda>r.
           pbind (commit_operation be) (\<lambda>_.
           pbind (send_notifications be) (\<lambda>_.
             ret r))))) c of
        (Panic w, c') \<Rightarrow> (Panic w, c')
      | (r, c') \<Rightarrow> (r, c'\<lparr>importing_block := None\<rparr>))"

text \<open>Errors are turned into a consensus error that carries their text.\<close>

datatype ConsensusError = ClientImport blockchain_error

definition import_block :: "client_backend \<Rightarrow> BlockImportParams \<Rightarrow> bytes \<Rightarrow> (client, ConsensusError, ImportResult) prog" where
  "import_block be ib new_cache c =
     (case prepare_block_storage_changes be c ib of
        Err e \<Rightarrow> (Err (ClientImport e), c)
      | Panic w \<Rightarrow> (Panic w, c)
      | Ok (Some res, _) \<Rightarrow> (Ok res, c)
      | Ok (None, ib') \<Rightarrow> map_err_prog ClientImport (lock_import_and_run be (apply_block be ib' new_cache)) c)"

definition finalize_block :: "client_backend \<Rightarrow> BlockId \<Rightarrow> Justification option \<Rightarrow> bool \<Rightarrow> unit client_prog" where
  "finalize_block be bid justification notify = lock_import_and_run be (apply_finality be bid justification notify)"

subsection \<open>Reverting\<close>

definition revert :: "client_backend \<Rightarrow> BlockNumber \<Rightarrow> (blockchain_error, BlockNumber) result" where
  "revert be n = map_ok fst (cb_revert be n False)"

definition unsafe_revert :: "client_backend \<Rightarrow> BlockNumber \<Rightarrow> bool \<Rightarrow> BlockNumber client_prog" where
  "unsafe_revert be n blacklist =
     pbind (return_prog (cb_revert be n True)) (\<lambda>(k, reverted).
     pbind (if blacklist then modify_prog (\<lambda>c. c\<lparr>block_rules := fold mark_bad reverted (block_rules c)\<rparr>)
            else ret ()) (\<lambda>_.
       ret k))"

section \<open>Lemmas\<close>

text \<open>Building an operation commits nothing and notifies nobody.\<close>

definition only_operation :: "'a client_prog \<Rightarrow> bool" where
  "only_operation f \<longleftrightarrow> (\<forall>cs ns. preserves (\<lambda>c. committed c = cs \<and> client_notifies c = ns) f)"

lemma only_operationD:
  "only_operation f \<Longrightarrow> f c = (r, c') \<Longrightarrow> committed c' = committed c \<and> client_notifies c' = client_notifies c"
  unfolding only_operation_def preserves_def by (metis snd_conv)

lemma only_return [intro, simp]: "only_operation (return_prog r)"
  by (auto simp: only_operation_def)

lemma only_Pair [simp]: "only_operation (Pair r)"
  by (simp add: only_operation_def preserves_def)

lemma only_pbind [intro]: "only_operation m \<Longrightarrow> (\<And>x. only_operation (f x)) \<Longrightarrow> only_operation (pbind m f)"
  by (simp add: only_operation_def preserves_pbind)

lemma only_modify:
  "(\<And>c. committed (g c) = committed c \<and> client_notifies (g c) = client_notifies c) \<Longrightarrow> only_operation (modify_prog g)"
  by (simp add: only_operation_def preserves_def)

lemma only_for_each [intro]: "(\<And>x. only_operation (f x)) \<Longrightarrow> only_operation (for_each_prog f xs)"
  by (simp add: only_operation_def preserves_for_each)

lemma only_request [intro, simp]: "only_operation (op_request be a)"
  unfolding op_request_def by (intro only_pbind only_return only_modify) simp

lemma only_finality [intro, simp]: "only_operation (apply_finality_with_block_hash be blk j b n)"
  unfolding apply_finality_with_block_hash_def finalize_route_def push_finalized_def
  by (auto intro!: only_pbind only_for_each only_modify)

lemma only_enact [intro, simp]: "only_operation (enact_storage_changes be p f n k sc)"
  unfolding enact_storage_changes_def
  by (cases sc) (auto intro!: only_pbind only_modify simp del: pbind_modify split: option.splits)

lemma only_set_imported [intro, simp]: "only_operation (set_imported_block be ib h hdr fork sc)"
  unfolding set_imported_block_def Let_def
  by (auto intro!: only_pbind only_modify simp del: pbind_modify)

lemma only_apply_block: "only_operation (apply_block be ib k)"
  unfolding apply_block_def execute_and_import_block_def Let_def
  by (auto intro!: only_pbind only_modify simp del: pbind_modify)

lemma only_apply_finality: "only_operation (apply_finality be bid j n)"
  unfolding apply_finality_def by (intro only_pbind only_return only_finality)

lemma op_request_Ok:
  "op_request be a c = (Ok u, c') \<longleftrightarrow> cb_accepts be a = Ok () \<and>
     c' = c\<lparr>operation := (operation c)\<lparr>op_actions := op_actions (operation c) @ [a]\<rparr>\<rparr>"
  by (auto simp: op_request_def pbind_def split: result.splits)

lemma for_each_request_Ok:
  "for_each_prog (\<lambda>x. op_request be (f x)) xs c = (Ok u, c') \<Longrightarrow>
     c' = c\<lparr>operation := (operation c)\<lparr>op_actions := op_actions (operation c) @ map f xs\<rparr>\<rparr>"
proof (induction xs arbitrary: c)
  case (Cons x xs)
  from Cons.prems have "for_each_prog (\<lambda>x. op_request be (f x)) xs
      (c\<lparr>operation := (operation c)\<lparr>op_actions := op_actions (operation c) @ [f x]\<rparr>\<rparr>) = (Ok u, c')"
    by (auto simp: pbind_eq_Ok op_request_Ok)
  from Cons.IH [OF this] show ?case by simp
qed simp

lemma finalize_route_Ok:
  assumes "finalize_route be blk j notify ens c = (Ok (), c')"
  shows "ens \<noteq> [] \<and> last ens = blk \<and>
    op_actions (operation c') = op_actions (operation c) @
      map (\<lambda>h. Mark_finalized (Hash h) None) (butlast ens) @ [Mark_finalized (Hash blk) j] \<and>
    op_notify_finalized (operation c') = op_notify_finalized (operation c) @
      (if notify then drop (length ens - min (length ens) 256) ens else [])"
proof -
  from assms obtain c2 c3 where ens: "ens \<noteq> []" "last ens = blk"
    and each: "for_each_prog (\<lambda>h. op_request be (Mark_finalized (Hash h) None)) (butlast ens) c = (Ok (), c2)"
    and fin: "op_request be (Mark_finalized (Hash blk) j) c2 = (Ok (), c3)"
    and ann: "(if notify then push_finalized (drop (length ens - min (length ens) MAX_TO_NOTIFY) ens) else ret ()) c3 = (Ok (), c')"
    by (auto simp: finalize_route_def pbind_eq_Ok split: if_splits)
  from for_each_request_Ok [OF each] fin ann ens show ?thesis
    by (auto simp: op_request_Ok push_finalized_def MAX_TO_NOTIFY_def split: if_splits)
qed

text \<open>How a locked run ends.\<close>

lemma lock_run_cases:
  assumes run: "lock_import_and_run be f c = (r, c')" and only: "only_operation f"
  obtains (unchanged) e where "r = Err e" "committed c' = committed c" "client_notifies c' = client_notifies c"
      "importing_block c' = None"
  | (finished) x c1 where "f (c\<lparr>operation := empty_operation\<rparr>) = (Ok x, c1)" "r = Ok x"
      "cb_commit_operation be (op_actions (operation c1)) = Ok ()"
      "committed c' = committed c @ [op_actions (operation c1)]" "importing_block c' = None"
  | (unsent) x c1 e where "f (c\<lparr>operation := empty_operation\<rparr>) = (Ok x, c1)" "r = Err e"
      "cb_commit_operation be (op_actions (operation c1)) = Ok ()"
      "committed c' = committed c @ [op_actions (operation c1)]" "importing_block c' = None"
  | (died) w where "r = Panic w"
proof -
  let ?c0 = "c\<lparr>operation := empty_operation\<rparr>"
  obtain q c1 where q: "f ?c0 = (q, c1)" by (cases "f ?c0")
  note only1 = only_operationD [OF only q]
  obtain v c3 where n: "send_notifications be (c1\<lparr>committed := committed c1 @ [op_actions (operation c1)]\<rparr>) = (v, c3)"
    by (cases "send_notifications be (c1\<lparr>committed := committed c1 @ [op_actions (operation c1)]\<rparr>)")
  have sent: "preserves (\<lambda>d. committed d = X) (on_notifies m)" for X and m :: "(notifies, blockchain_error, unit) prog"
    by (rule preserves_zoom [where J = "\<lambda>_. True"]) (simp_all add: preserves_def)
  have "preserves (\<lambda>d. committed d = X) (send_notifications be)" for X
    unfolding send_notifications_def by (intro preserves_pbind preserves_gets sent)
  from preservesD [OF this, of "c1\<lparr>committed := committed c1 @ [op_actions (operation c1)]\<rparr>"] n only1
  have c3: "committed c3 = committed c @ [op_actions (operation c1)]" by simp
  show ?thesis
  proof (cases "cb_begin_operation be")
    case (Ok u)
    show ?thesis
    proof (cases q)
      case (Ok x)
      note q = q [unfolded Ok]
      show ?thesis
      proof (cases "cb_commit_operation be (op_actions (operation c1))")
        case (Ok u')
        with q n c3 run \<open>cb_begin_operation be = Ok u\<close> show ?thesis
          by (cases v)
             (auto simp: lock_import_and_run_def pbind_def commit_operation_def intro: finished unsent died)
      next
        case (Err e)
        with q run only1 \<open>cb_begin_operation be = Ok u\<close> show ?thesis
          by (intro unchanged [of e]) (auto simp: lock_import_and_run_def pbind_def commit_operation_def)
      next
        case (Panic w)
        with q run \<open>cb_begin_operation be = Ok u\<close> show ?thesis
          by (intro died [of w]) (auto simp: lock_import_and_run_def pbind_def commit_operation_def)
      qed
    next
      case (Err e)
      with q run only1 \<open>cb_begin_operation be = Ok u\<close> show ?thesis
        by (intro unchanged [of e]) (auto simp: lock_import_and_run_def pbind_def)
    next
      case (Panic w)
      with q run \<open>cb_begin_operation be = Ok u\<close> show ?thesis
        by (intro died [of w]) (auto simp: lock_import_and_run_def pbind_def)
    qed
  next
    case (Err e)
    with run show ?thesis by (intro unchanged [of e]) (auto simp: lock_import_and_run_def pbind_def)
  next
    case (Panic w)
    with run show ?thesis by (intro died [of w]) (auto simp: lock_import_and_run_def pbind_def)
  qed
qed

text \<open>What an acknowledged application of a block has put into the operation.\<close>

lemma set_imported_block_Ok:
  assumes "set_imported_block be ib h hdr fork sc c = (Ok r, c')"
  shows "r = Imported (is_new_best (ip_finalized ib) fork (number hdr) (best_number (cb_info be))) \<and>
    op_actions (operation c') = op_actions (operation c) @
      [Set_block_data hdr (ip_body ib) (ip_justifications ib)
         (leaf_state (ip_finalized ib) (is_new_best (ip_finalized ib) fork (number hdr) (best_number (cb_info be)))),
       Insert_aux (ip_auxiliary ib)]"
  using assms
  by (auto simp: set_imported_block_def Let_def pbind_eq_Ok op_request_Ok split: if_splits)

lemma execute_and_import_Ok:
  assumes "execute_and_import_block be ib h hs fork k c = (Ok (Imported b), c')"
  obtains c1 changed where "finalized_number (cb_info be) < number (post hs)"
    "set_imported_block be ib h (post hs) fork changed c1 = (Ok (Imported b), c')"
proof -
  from assms obtain status where
    "\<not> number (post hs) \<le> finalized_number (cb_info be)"
    "pbind (enact_storage_changes be (parent_hash (post hs)) (ip_finalized ib) (make_notifications (ip_origin ib))
       k (ip_storage_changes ib)) (set_imported_block be ib h (post hs) fork) c = (Ok (Imported b), c')"
    by (cases "cb_status be h")
       (auto simp: execute_and_import_block_def Let_def pbind_def [of "return_prog _"] split: if_splits)
  then show ?thesis by (auto simp: pbind_eq_Ok not_le intro: that)
qed

lemma apply_block_imported:
  assumes "apply_block be ib k c = (Ok (Imported b), c')"
  shows "\<exists>acts hdr st. op_actions (operation c') =
      acts @ [Set_block_data hdr (ip_body ib) (ip_justifications ib) st, Insert_aux (ip_auxiliary ib)] \<and>
    hdr = (ip_header ib)\<lparr>digest := digest (ip_header ib) @ ip_post_digests ib\<rparr> \<and>
    finalized_number (cb_info be) < number hdr \<and> (st = Normal \<longleftrightarrow> \<not> b) \<and> (st = Final \<longleftrightarrow> ip_finalized ib)"
proof -
  let ?h = "if ip_post_digests ib = [] then Same (ip_header ib)
     else Different (ip_header ib) ((ip_header ib)\<lparr>digest := digest (ip_header ib) @ ip_post_digests ib\<rparr>)"
  let ?hdr = "(ip_header ib)\<lparr>digest := digest (ip_header ib) @ ip_post_digests ib\<rparr>"
  have hdr: "post ?h = ?hdr" by simp
  from assms obtain fork c1 where run: "execute_and_import_block be ib (cb_header_hash be (post ?h)) ?h fork k c1 = (Ok (Imported b), c')"
    by (auto simp: apply_block_def pbind_eq_Ok Let_def split: if_splits)
  from execute_and_import_Ok [OF run] obtain c2 changed where num: "finalized_number (cb_info be) < number ?hdr"
    and set: "set_imported_block be ib (cb_header_hash be (post ?h)) ?hdr fork changed c2 = (Ok (Imported b), c')"
    unfolding hdr .
  let ?nb = "is_new_best (ip_finalized ib) fork (number ?hdr) (best_number (cb_info be))"
  have "leaf_state (ip_finalized ib) ?nb = Normal \<longleftrightarrow> \<not> ?nb" "leaf_state (ip_finalized ib) ?nb = Final \<longleftrightarrow> ip_finalized ib"
    by (auto simp: leaf_state_def is_new_best_def)
  with set_imported_block_Ok [OF set] num show ?thesis by blast
qed

lemma prepare_cases:
  assumes "prepare_block_storage_changes be c ib = Ok (None, ib')"
  shows "ib' = ib \<or> ib' = ib\<lparr>ip_storage_changes := None\<rparr> \<or>
    (\<exists>sc. ib' = ib\<lparr>ip_storage_changes := Some sc\<rparr> \<and> transaction_storage_root sc = state_root (ip_header ib))"
  using assms
  by (auto simp: prepare_block_storage_changes_def Let_def and_then_case
      split: result.splits BlockStatus.splits if_splits option.splits)

text \<open>What an acknowledged finalization has put into the operation.\<close>

lemma apply_finality_Ok:
  assumes "apply_finality_with_block_hash be blk j best notify c = (Ok (), c')"
    and "cb_last_finalized be = Ok lf" and "blk \<noteq> lf"
  shows "\<exists>route head announced. cb_tree_route be lf blk = Ok route \<and> retracted route = [] \<and>
    enacted route \<noteq> [] \<and> last (enacted route) = blk \<and> head \<in> {[], [Mark_head (Hash blk)]} \<and>
    op_actions (operation c') = op_actions (operation c) @ head @
      map (\<lambda>h. Mark_finalized (Hash h) None) (butlast (enacted route)) @ [Mark_finalized (Hash blk) j] \<and>
    op_notify_finalized (operation c') = op_notify_finalized (operation c) @ announced \<and>
    (if notify then (\<exists>older. enacted route = older @ announced) \<and>
       length announced = min (length (enacted route)) 256 else announced = [])"
proof -
  from assms obtain route where route: "cb_tree_route be lf blk = Ok route" "retracted route = []"
    by (cases "cb_tree_route be lf blk") (auto simp: apply_finality_with_block_hash_def pbind_def split: if_splits)
  let ?mark = "\<lambda>rb. if common_block rb \<noteq> blk then op_request be (Mark_head (Hash blk)) else ret ()"
  from assms route have run: "pbind (return_prog (cb_tree_route be best blk))
      (\<lambda>rb. pbind (?mark rb) (\<lambda>_. finalize_route be blk j notify (enacted route))) c = (Ok (), c')"
    by (simp add: apply_finality_with_block_hash_def)
  then obtain rb where "cb_tree_route be best blk = Ok rb"
    by (cases "cb_tree_route be best blk") (simp_all add: pbind_def [of "return_prog _"])
  with run have "pbind (?mark rb) (\<lambda>_. finalize_route be blk j notify (enacted route)) c = (Ok (), c')"
    by simp
  then obtain u c1 where head: "?mark rb c = (Ok u, c1)"
    and fin: "finalize_route be blk j notify (enacted route) c1 = (Ok (), c')"
    unfolding pbind_eq_Ok by blast
  let ?head = "if common_block rb \<noteq> blk then [Mark_head (Hash blk)] else []"
  have "op_actions (operation c1) = op_actions (operation c) @ ?head"
    "op_notify_finalized (operation c1) = op_notify_finalized (operation c)"
    using head by (auto simp: op_request_Ok split: if_splits)
  with finalize_route_Ok [OF fin] route show ?thesis
    by (intro exI [of _ route] exI [of _ ?head]
        exI [of _ "if notify then drop (length (enacted route) - min (length (enacted route)) 256) (enacted route) else []"])
       (auto intro: exI [of _ "take (length (enacted route) - min (length (enacted route)) 256) (enacted route)"])
qed

section \<open>Properties\<close>

text \<open>C18: importing a block never touches what is finalized. An import that reports success has
  committed exactly one operation, whose block is above the last finalized one and carries the given
  header with the post-digests appended; the block is marked as new best or final as reported.\<close>

theorem import_above_finalized:
  assumes "import_block be ib k c = (Ok (Imported b), c')"
  shows "\<exists>acts hdr st. committed c' = committed c @
      [acts @ [Set_block_data hdr (ip_body ib) (ip_justifications ib) st, Insert_aux (ip_auxiliary ib)]] \<and>
    hdr = (ip_header ib)\<lparr>digest := digest (ip_header ib) @ ip_post_digests ib\<rparr> \<and>
    finalized_number (cb_info be) < number hdr \<and> (st = Normal \<longleftrightarrow> \<not> b) \<and> (st = Final \<longleftrightarrow> ip_finalized ib) \<and>
    importing_block c' = None"
proof -
  from assms obtain ib' where prep: "prepare_block_storage_changes be c ib = Ok (None, ib')"
    and run: "lock_import_and_run be (apply_block be ib' k) c = (Ok (Imported b), c')"
    by (auto simp: import_block_def map_err_prog_def prepare_block_storage_changes_def Let_def and_then_case
      split: result.splits BlockStatus.splits if_splits option.splits prod.splits)
  have same: "ip_body ib' = ip_body ib" "ip_justifications ib' = ip_justifications ib" "ip_auxiliary ib' = ip_auxiliary ib"
    "ip_header ib' = ip_header ib" "ip_post_digests ib' = ip_post_digests ib" "ip_finalized ib' = ip_finalized ib"
    using prepare_cases [OF prep] by auto
  show ?thesis
  proof (cases rule: lock_run_cases [OF run only_apply_block])
    case (2 x c1)
    then have "apply_block be ib' k (c\<lparr>operation := empty_operation\<rparr>) = (Ok (Imported b), c1)" by simp
    from apply_block_imported [OF this] 2 show ?thesis unfolding same by auto
  qed auto
qed

text \<open>C33: an import that fails leaves the chain and every subscriber untouched; the only exception is
  a failure while sending notifications, after the operation was committed.\<close>

theorem failed_import_changes_nothing:
  assumes "import_block be ib k c = (Err e, c')"
  shows "committed c' = committed c \<and> client_notifies c' = client_notifies c \<or>
    (\<exists>acts. committed c' = committed c @ [acts] \<and> cb_commit_operation be acts = Ok ())"
proof (cases "prepare_block_storage_changes be c ib")
  case (Ok p)
  show ?thesis
  proof (cases p)
    case (Pair v ib')
    with Ok assms show ?thesis
      by (cases v) (auto simp: import_block_def map_err_prog_def split: prod.splits
          elim: lock_run_cases [OF _ only_apply_block])
  qed
qed (use assms in \<open>auto simp: import_block_def\<close>)

text \<open>C19: an acknowledged finalization marks exactly the blocks between the last finalized block and
  the given one as final, in chain order, the given one last and alone with the justification; it
  never leaves the chain of the last finalized block, and announces at most the 256 newest of them.\<close>

theorem finality_marks_route:
  assumes "apply_finality_with_block_hash be blk j best notify c = (Ok (), c')"
    and "cb_last_finalized be = Ok lf" and "blk \<noteq> lf"
  shows "\<exists>route head announced. cb_tree_route be lf blk = Ok route \<and> retracted route = [] \<and>
    enacted route \<noteq> [] \<and> last (enacted route) = blk \<and> head \<in> {[], [Mark_head (Hash blk)]} \<and>
    op_actions (operation c') = op_actions (operation c) @ head @
      map (\<lambda>h. Mark_finalized (Hash h) None) (butlast (enacted route)) @ [Mark_finalized (Hash blk) j] \<and>
    op_notify_finalized (operation c') = op_notify_finalized (operation c) @ announced \<and>
    (if notify then (\<exists>older. enacted route = older @ announced) \<and>
       length announced = min (length (enacted route)) 256 else announced = [])"
  by (rule apply_finality_Ok [OF assms])

text \<open>C34: storage changes that the client computes itself during an import come from executing the
  block's body on its parent and lead to the state root in the header; a block whose execution gives
  another root is refused.\<close>

theorem prepared_changes_match_root:
  assumes "prepare_block_storage_changes be c ib = Ok (None, ib')"
    and "ip_storage_changes ib = None" and "ip_storage_changes ib' = Some sc"
  shows "\<exists>body. ip_body ib = Some body \<and>
    is_ok (cb_execute_block be (parent_hash (ip_header ib)) (ip_origin ib = NetworkInitialSync)
      \<lparr>header = ip_header ib, extrinsics = body\<rparr>) \<and>
    cb_into_storage_changes be (parent_hash (ip_header ib)) \<lparr>header = ip_header ib, extrinsics = body\<rparr> = Ok sc \<and>
    transaction_storage_root sc = state_root (ip_header ib) \<and>
    block_status be c (Hash (parent_hash (ip_header ib))) \<in> {Ok InChainWithState, Ok Queued}"
  using assms
  by (auto simp: prepare_block_storage_changes_def Let_def and_then_case
      split: result.splits BlockStatus.splits if_splits option.splits)

text \<open>The preliminary check lets a block pass exactly when no rule singles it out, it is not in the
  chain yet (or re-importing was asked for and its state is there), and its parent is known with its
  state, unless a missing state was allowed.\<close>

lemma check_block_accepts:
  "check_block be c b = Ok (Imported x) \<longleftrightarrow> \<not> x \<and>
   rules_lookup (block_rules c) (ck_number b) (ck_hash b) = NotSpecial \<and>
   (\<exists>own parent. block_status be c (Hash (ck_hash b)) = Ok own \<and>
      block_status be c (Hash (ck_parent_hash b)) = Ok parent \<and>
      (own = Unknown_status \<or> own \<in> {InChainWithState, Queued} \<and> ck_import_existing b) \<and>
      (parent \<in> {InChainWithState, Queued} \<or> parent = InChainPruned \<and> ck_allow_missing_state b))"
proof (cases "rules_lookup (block_rules c) (ck_number b) (ck_hash b)")
  case NotSpecial
  let ?own = "block_status be c (Hash (ck_hash b))" and ?parent = "block_status be c (Hash (ck_parent_hash b))"
  show ?thesis
  proof (cases ?own)
    case (Ok own)
    with NotSpecial show ?thesis
      by (cases ?parent; cases own)
         (auto simp: check_block_def split: BlockStatus.splits)
  qed (use NotSpecial in \<open>simp_all add: check_block_def\<close>)
qed (simp_all add: check_block_def)

text \<open>C35: blocks reverted with the blacklist flag can never be imported again: the check refuses each
  of them, whatever the backend says, and judges every other block as before.\<close>

theorem reverted_blocks_blacklisted:
  assumes "unsafe_revert be n True c = (Ok k, c')"
  shows "\<exists>reverted. cb_revert be n True = Ok (k, reverted) \<and>
    (\<forall>be' b. check_block be' c' b = (if ck_hash b \<in> set reverted then Ok KnownBad_result else check_block be' c b))"
proof -
  from assms obtain reverted where r: "cb_revert be n True = Ok (k, reverted)"
    and c': "c' = c\<lparr>block_rules := fold mark_bad reverted (block_rules c)\<rparr>"
    by (auto simp: unsafe_revert_def pbind_eq_Ok)
  have "block_status be' c' = block_status be' c" for be'
    by (rule ext) (simp add: block_status_def c' split: BlockId.splits)
  note status = this
  have frame: "rules_lookup (block_rules c') m h = rules_lookup (block_rules c) m h" if "h \<notin> set reverted" for m h
    using rules.fold_reject_frame [OF that] by (simp add: c')
  have hit: "rules_lookup (block_rules c') m h \<noteq> NotSpecial" if "h \<in> set reverted" for m h
    using rules.fold_reject_rejects [OF that] by (simp add: c')
  have "check_block be' c' b = Ok KnownBad_result" if "ck_hash b \<in> set reverted" for be' b
    using hit [OF that, of "ck_number b"] by (auto simp: check_block_def split: LookupResult.splits)
  moreover have "check_block be' c' b = check_block be' c b" if "ck_hash b \<notin> set reverted" for be' b
    unfolding check_block_def frame [OF that] status by (rule refl)
  ultimately show ?thesis using r by auto
qed

section \<open>A concrete chain\<close>

definition demo_import_header :: "u32 \<Rightarrow> Header" where
  "demo_import_header n = \<lparr>parent_hash = ucast (n - 1), number = n, state_root = 2, extrinsics_root = 0, digest = []\<rparr>"

definition demo_import_changes :: ImportStorageChanges where
  "demo_import_changes = \<lparr>ic_main = [], ic_child = [], ic_offchain = [], ic_transaction = [],
     transaction_storage_root = 2, ic_changes_trie = None, ic_transaction_index = []\<rparr>"

text \<open>Block 5 is the best block and block 3 the last finalized one; hashes are numbers.\<close>

definition demo_client_backend :: client_backend where
  "demo_client_backend =
     \<lparr>cb_status = (\<lambda>_. Ok Unknown_in_chain), cb_number = (\<lambda>h. Ok (Some (ucast h))),
      cb_hash = (\<lambda>n. Ok (Some (ucast n))), cb_have_state_at = (\<lambda>_ _. True),
      cb_info = \<lparr>best_hash = 5, best_number = 5, finalized_number = 3, genesis_hash = 0\<rparr>,
      cb_last_finalized = Ok 3,
      cb_tree_route = (\<lambda>_ b. Ok \<lparr>retracted = [], common_block = b, enacted = [4, b]\<rparr>),
      cb_expect_block_hash_from_id = (\<lambda>_. Ok 5), cb_begin_operation = Ok (), cb_accepts = (\<lambda>_. Ok ()),
      cb_commit_operation = (\<lambda>_. Ok ()), cb_header_after = (\<lambda>_ h. Ok (Some (demo_import_header (ucast h)))),
      cb_revert = (\<lambda>n _. Ok (n, [5, 4])), cb_header_hash = (\<lambda>h. ucast (number h)),
      cb_execute_block = (\<lambda>_ _ _. Ok ()), cb_state_at = (\<lambda>_. Ok ()), cb_changes_trie_at = (\<lambda>_. Ok ()),
      cb_into_storage_changes = (\<lambda>_ _. Ok demo_import_changes), cb_offchain_indexing_api = False\<rparr>"

definition demo_client :: client where
  "demo_client = \<lparr>importing_block = None, block_rules = rules_new None None, client_notifies = notifies_new,
     operation = empty_operation, committed = []\<rparr>"

definition demo_import :: BlockImportParams where
  "demo_import = \<lparr>ip_origin = NetworkBroadcast, ip_header = demo_import_header 6, ip_justifications = None,
     ip_post_digests = [[1]], ip_body = Some [], ip_storage_changes = None, ip_finalized = False, ip_auxiliary = [],
     ip_fork_choice = Some LongestChain, ip_intermediates = [], ip_import_existing = False, ip_allow_missing_state = False\<rparr>"

lemma demo_prepare:
  "prepare_block_storage_changes demo_client_backend demo_client demo_import =
   Ok (None, demo_import\<lparr>ip_storage_changes := Some demo_import_changes\<rparr>)"
  by (simp add: prepare_block_storage_changes_def block_status_def demo_client_def demo_client_backend_def
      demo_import_def demo_import_header_def demo_import_changes_def)

lemmas demo_import_defs = demo_client_def demo_client_backend_def demo_import_def demo_import_header_def
  demo_import_changes_def

lemma demo_apply:
  "\<exists>c'. apply_block demo_client_backend (demo_import\<lparr>ip_storage_changes := Some demo_import_changes\<rparr>) []
     (demo_client\<lparr>operation := empty_operation\<rparr>) = (Ok (Imported True), c') \<and> op_notify_finalized (operation c') = []"
  by (simp add: apply_block_def execute_and_import_block_def enact_storage_changes_def set_imported_block_def
      op_request_def is_new_best_def make_notifications_def empty_operation_def demo_import_defs Let_def pbind_def)

lemma notify_imported_total:
  obtains n' where "notify_imported i n = (Ok (), n')"
proof -
  have "\<exists>n'. notify_imported i n = (Ok (), n')"
    by (cases i) (auto simp: notify_imported_def split: option.splits)
  with that show thesis by blast
qed

lemma demo_import_run:
  obtains c' where "import_block demo_client_backend demo_import [] demo_client = (Ok (Imported True), c')"
proof -
  obtain c1 where c1: "apply_block demo_client_backend (demo_import\<lparr>ip_storage_changes := Some demo_import_changes\<rparr>) []
     (demo_client\<lparr>operation := empty_operation\<rparr>) = (Ok (Imported True), c1)" "op_notify_finalized (operation c1) = []"
    using demo_apply by blast
  have be: "cb_begin_operation demo_client_backend = Ok ()" "cb_commit_operation demo_client_backend a = Ok ()" for a
    by (simp_all add: demo_client_backend_def)
  obtain n' where "notify_imported (op_notify_imported (operation c1))
      (client_notifies c1 \<lparr>finality_notification_sinks := retain_open (finality_notification_sinks (client_notifies c1))\<rparr>) = (Ok (), n')"
    by (rule notify_imported_total)
  with c1 be show ?thesis
    by (intro that) (simp add: import_block_def demo_prepare map_err_prog_def lock_import_and_run_def pbind_def
        commit_operation_def send_notifications_def zoom_def notify_finalized_def)
qed

theorem import_above_finalized_witness:
  "\<exists>c' acts. import_block demo_client_backend demo_import [] demo_client = (Ok (Imported True), c') \<and>
     committed c' = [acts]"
proof -
  obtain c' where run: "import_block demo_client_backend demo_import [] demo_client = (Ok (Imported True), c')"
    by (rule demo_import_run)
  from import_above_finalized [OF run] run show ?thesis by (auto simp: demo_client_def)
qed

theorem failed_import_changes_nothing_witness:
  "\<exists>c'. import_block (demo_client_backend\<lparr>cb_begin_operation := Err (Backend ''busy'')\<rparr>)
       (demo_import\<lparr>ip_storage_changes := Some demo_import_changes\<rparr>) [] demo_client =
       (Err (ClientImport (Backend ''busy'')), c') \<and>
     (committed c' = [] \<and> client_notifies c' = notifies_new \<or> (\<exists>acts. committed c' = [acts]))"
proof -
  obtain c' where run: "import_block (demo_client_backend\<lparr>cb_begin_operation := Err (Backend ''busy'')\<rparr>)
       (demo_import\<lparr>ip_storage_changes := Some demo_import_changes\<rparr>) [] demo_client =
       (Err (ClientImport (Backend ''busy'')), c')"
    by (simp add: import_block_def prepare_block_storage_changes_def block_status_def map_err_prog_def
        lock_import_and_run_def pbind_def demo_import_defs)
  from failed_import_changes_nothing [OF run] run show ?thesis by (auto simp: demo_client_def)
qed

theorem finality_marks_route_witness:
  "\<exists>c'. apply_finality_with_block_hash demo_client_backend 5 None 5 True demo_client = (Ok (), c') \<and>
     op_notify_finalized (operation c') = [4, 5]"
proof -
  obtain c' where run: "apply_finality_with_block_hash demo_client_backend 5 None 5 True demo_client = (Ok (), c')"
    by (simp add: apply_finality_with_block_hash_def finalize_route_def op_request_def push_finalized_def
        demo_client_backend_def pbind_def)
  have lf: "cb_last_finalized demo_client_backend = Ok 3" "(5 :: H256) \<noteq> 3"
    by (simp_all add: demo_client_backend_def)
  from finality_marks_route [OF run lf] obtain older announced where
    ann: "[4, 5] = older @ announced" "length announced = 2"
    and fin: "op_notify_finalized (operation c') = op_notify_finalized (operation demo_client) @ announced"
    by (auto simp: demo_client_backend_def)
  from ann have "length older = 0" by (metis add_cancel_left_left length_append length_Cons list.size(3) numeral_2_eq_2)
  with ann fin run show ?thesis by (auto simp: demo_client_def empty_operation_def)
qed

theorem prepared_changes_match_root_witness:
  "ip_storage_changes demo_import = None \<and>
   prepare_block_storage_changes demo_client_backend demo_client demo_import =
     Ok (None, demo_import\<lparr>ip_storage_changes := Some demo_import_changes\<rparr>) \<and>
   transaction_storage_root demo_import_changes = state_root (ip_header demo_import)"
proof -
  have none: "ip_storage_changes demo_import = None" by (simp add: demo_import_def)
  from prepared_changes_match_root [OF demo_prepare none, of demo_import_changes] demo_prepare none
  show ?thesis by auto
qed

theorem reverted_blocks_blacklisted_witness:
  "\<exists>c'. unsafe_revert demo_client_backend 2 True demo_client = (Ok 2, c') \<and>
     check_block demo_client_backend c' \<lparr>ck_hash = 5, ck_number = 5, ck_parent_hash = 4,
       ck_allow_missing_state = False, ck_import_existing = False\<rparr> = Ok KnownBad_result"
proof -
  obtain c' where run: "unsafe_revert demo_client_backend 2 True demo_client = (Ok 2, c')"
    by (simp add: unsafe_revert_def demo_client_backend_def)
  from reverted_blocks_blacklisted [OF run] run show ?thesis
    by (auto simp: demo_client_backend_def)
qed

end
