(* ===== verification/Wasm_Override.thy ===== *)
theory Wasm_Override
  imports Version_Cache
begin

text \<open>
  Local replacements for on-chain runtimes (\<open>client/service/src/client/wasm_override.rs\<close>): a folder
  is scraped for wasm files, each file is asked for its version, and the blob is kept under its spec
  version. \<open>code_overrides\<close> is the interface the call executor uses.
\<close>

section \<open>Blobs and runtime code\<close>

record WasmBlob =
  blob_code :: bytes
  blob_hash :: bytes

text \<open>The code fetcher of a \<open>RuntimeCode\<close> is represented by what it returns.\<close>

record RuntimeCode =
  fetch_runtime_code :: "bytes option"
  rc_hash :: bytes
  heap_pages :: "u64 option"

definition to_le_bytes :: "u64 \<Rightarrow> bytes" where
  "to_le_bytes w = map (\<lambda>i. ucast (drop_bit (8 * i) w)) [0..<8]"

text \<open>The hasher of the standard library is unspecified, so it is a parameter.\<close>

definition wasm_make_hash :: "(bytes \<Rightarrow> u64) \<Rightarrow> bytes \<Rightarrow> bytes" where
  "wasm_make_hash hasher val = to_le_bytes (hasher val)"

definition wasm_blob_new :: "(bytes \<Rightarrow> u64) \<Rightarrow> bytes \<Rightarrow> WasmBlob" where
  "wasm_blob_new hasher code = \<lparr>blob_code = code, blob_hash = wasm_make_hash hasher code\<rparr>"

definition blob_runtime_code :: "WasmBlob \<Rightarrow> u64 option \<Rightarrow> RuntimeCode" where
  "blob_runtime_code w pages =
     \<lparr>fetch_runtime_code = Some (blob_code w), rc_hash = blob_hash w, heap_pages = pages\<rparr>"

datatype WasmOverrideError =
    Override_version_invalid string
  | Override_io string string
  | NotADirectory string
  | DuplicateRuntime "string list"

fun join_lines :: "string list \<Rightarrow> string" where
  "join_lines [] = ''''"
| "join_lines [x] = x"
| "join_lines (x # y # xs) = x @ ''\<newline>'' @ join_lines (y # xs)"

fun override_error :: "WasmOverrideError \<Rightarrow> blockchain_error" where
  "override_error (Override_version_invalid e) = Application (''Failed to get runtime version: '' @ e)"
| "override_error (Override_io p e) = Application ''WASM override IO error''"
| "override_error (NotADirectory p) = Application
     (''Overwriting WASM requires a directory where local WASM is stored. '' @ p @ '' is not a directory'')"
| "override_error (DuplicateRuntime ds) = Application
     (''Duplicate WASM Runtimes found: '' @ ''\<newline>'' @ join_lines ds @ ''\<newline>'')"

section \<open>Scraping a folder\<close>

text \<open>A directory entry with its file name and the result of reading the file.\<close>

record dir_entry =
  de_name :: string
  de_read :: "(string, bytes) result"

record directory =
  dir_path :: string
  is_dir :: bool
  read_dir :: "(string, (string, dir_entry) result list) result"

text \<open>\<open>Path::extension\<close>: what follows the last dot, unless there is no dot or the only dot is the
  first character.\<close>

definition extension :: "string \<Rightarrow> string option" where
  "extension name =
     (if name = ''..'' \<or> CHR ''.'' \<notin> set name then None
      else let after = rev (takeWhile (\<lambda>c. c \<noteq> CHR ''.'') (rev name));
               before = rev (tl (dropWhile (\<lambda>c. c \<noteq> CHR ''.'') (rev name)))
           in if before = [] then None else Some after)"

type_synonym version_reader = "RuntimeCode \<Rightarrow> (string, RuntimeVersion) result"

definition override_runtime_version ::
  "version_reader \<Rightarrow> WasmBlob \<Rightarrow> u64 option \<Rightarrow> (WasmOverrideError, RuntimeVersion) result" where
  "override_runtime_version executor code pages =
     map_err Override_version_invalid (executor (blob_runtime_code code pages))"

fun scrape_entries ::
  "(bytes \<Rightarrow> u64) \<Rightarrow> version_reader \<Rightarrow> string \<Rightarrow> (string, dir_entry) result list \<Rightarrow>
     (u32 \<rightharpoonup> WasmBlob) \<Rightarrow> string list \<Rightarrow> (WasmOverrideError, (u32 \<rightharpoonup> WasmBlob) \<times> string list) result" where
  "scrape_entries hasher executor dir [] overrides duplicates = Ok (overrides, duplicates)"
| "scrape_entries hasher executor dir (entry # entries) overrides duplicates =
     and_then (map_err (Override_io dir) entry) (\<lambda>e.
       if extension (de_name e) = Some ''wasm''
       then
         and_then (map_err (Override_io dir) (de_read e)) (\<lambda>code.
           let wasm = wasm_blob_new hasher code in
           and_then (override_runtime_version executor wasm (Some 128)) (\<lambda>version.
             scrape_entries hasher executor dir entries
               (overrides(spec_version version \<mapsto> wasm))
               (if overrides (spec_version version) \<noteq> None
                then duplicates @ [dir @ ''/'' @ de_name e] else duplicates)))
       else scrape_entries hasher executor dir entries overrides duplicates)"

definition scrape_overrides ::
  "(bytes \<Rightarrow> u64) \<Rightarrow> version_reader \<Rightarrow> directory \<Rightarrow> (WasmOverrideError, u32 \<rightharpoonup> WasmBlob) result" where
  "scrape_overrides hasher executor dir =
     (if \<not> is_dir dir then Err (NotADirectory (dir_path dir))
      else
        and_then (map_err (Override_io (dir_path dir)) (read_dir dir)) (\<lambda>entries.
        and_then (scrape_entries hasher executor (dir_path dir) entries Map.empty []) (\<lambda>(overrides, duplicates).
          if duplicates \<noteq> [] then Err (DuplicateRuntime duplicates) else Ok overrides)))"

definition wasm_override_new ::
  "(bytes \<Rightarrow> u64) \<Rightarrow> version_reader \<Rightarrow> directory \<Rightarrow> (blockchain_error, u32 \<rightharpoonup> WasmBlob) result" where
  "wasm_override_new hasher executor dir = map_err override_error (scrape_overrides hasher executor dir)"

definition override_get :: "(u32 \<rightharpoonup> WasmBlob) \<Rightarrow> u32 \<Rightarrow> u64 option \<Rightarrow> RuntimeCode option" where
  "override_get overrides spec pages = map_option (\<lambda>w. blob_runtime_code w pages) (overrides spec)"

section \<open>Reference: what a folder should yield\<close>

text \<open>The readable wasm files of a folder, with the blob and the version of each.\<close>

definition entry_blob ::
  "(bytes \<Rightarrow> u64) \<Rightarrow> version_reader \<Rightarrow> (string, dir_entry) result \<Rightarrow> (u32 \<times> WasmBlob) option" where
  "entry_blob hasher executor entry =
     (case entry of
        Ok e \<Rightarrow>
          if extension (de_name e) = Some ''wasm'' then
            (case de_read e of
               Ok code \<Rightarrow>
                 (case executor (blob_runtime_code (wasm_blob_new hasher code) (Some 128)) of
                    Ok version \<Rightarrow> Some (spec_version version, wasm_blob_new hasher code)
                  | _ \<Rightarrow> None)
             | _ \<Rightarrow> None)
          else None
      | _ \<Rightarrow> None)"

definition folder_blobs ::
  "(bytes \<Rightarrow> u64) \<Rightarrow> version_reader \<Rightarrow> (string, dir_entry) result list \<Rightarrow> (u32 \<times> WasmBlob) list" where
  "folder_blobs hasher executor entries = List.map_filter (entry_blob hasher executor) entries"

section \<open>Lemmas\<close>

lemma folder_blobs_simps [simp]:
  "folder_blobs hasher executor [] = []"
  "folder_blobs hasher executor (x # xs) =
     (case entry_blob hasher executor x of None \<Rightarrow> [] | Some b \<Rightarrow> [b]) @ folder_blobs hasher executor xs"
  by (simp_all add: folder_blobs_def List.map_filter_def split: option.splits)

lemma to_le_bytes_length [simp]: "length (to_le_bytes w) = 8"
  by (simp add: to_le_bytes_def)

text \<open>A completed loop has inserted exactly the blobs of the folder, and reports a duplicate as soon
  as a version comes up again.\<close>

lemma scrape_entries_ok:
  assumes "scrape_entries hasher executor dir entries ov ds = Ok (ov', ds')"
  shows "ov' = ov ++ map_of (rev (folder_blobs hasher executor entries)) \<and>
    (\<exists>new. ds' = ds @ new \<and>
      (new = [] \<longleftrightarrow> distinct (map fst (folder_blobs hasher executor entries)) \<and>
         fst ` set (folder_blobs hasher executor entries) \<inter> dom ov = {}))"
  using assms
proof (induction entries arbitrary: ov ds)
  case (Cons entry entries)
  from Cons.prems obtain e where e: "entry = Ok e"
    by (cases entry) auto
  show ?case
  proof (cases "extension (de_name e) = Some ''wasm''")
    case False
    with Cons.IH [of ov ds] Cons.prems e show ?thesis by (simp add: entry_blob_def)
  next
    case True
    with Cons.prems e obtain code where code: "de_read e = Ok code" by (cases "de_read e") auto
    let ?w = "wasm_blob_new hasher code"
    from Cons.prems e True code obtain v where v: "executor (blob_runtime_code ?w (Some 128)) = Ok v"
      by (cases "executor (blob_runtime_code ?w (Some 128))") (auto simp: override_runtime_version_def)
    let ?ds = "if ov (spec_version v) \<noteq> None then ds @ [dir @ ''/'' @ de_name e] else ds"
    from Cons.prems e True code v have rest:
      "scrape_entries hasher executor dir entries (ov(spec_version v \<mapsto> ?w)) ?ds = Ok (ov', ds')"
      by (simp add: override_runtime_version_def Let_def split: if_splits)
    have blob: "entry_blob hasher executor entry = Some (spec_version v, ?w)"
      by (simp add: entry_blob_def e True code v)
    from Cons.IH [OF rest]
    obtain new where "ov' = ov(spec_version v \<mapsto> ?w) ++ map_of (rev (folder_blobs hasher executor entries))"
      "ds' = ?ds @ new"
      "new = [] \<longleftrightarrow> distinct (map fst (folder_blobs hasher executor entries)) \<and>
         fst ` set (folder_blobs hasher executor entries) \<inter> dom (ov(spec_version v \<mapsto> ?w)) = {}"
      by blast
    with blob show ?thesis by (auto split: if_splits)
  qed
qed simp

lemma scrape_overrides_ok:
  assumes "scrape_overrides hasher executor dir = Ok ov"
  shows "\<exists>entries. read_dir dir = Ok entries \<and> is_dir dir \<and>
    distinct (map fst (folder_blobs hasher executor entries)) \<and>
    ov = map_of (folder_blobs hasher executor entries)"
proof -
  from assms obtain entries where r: "is_dir dir" "read_dir dir = Ok entries"
    and sc: "scrape_entries hasher executor (dir_path dir) entries Map.empty [] = Ok (ov, [])"
    by (auto simp: scrape_overrides_def and_then_case split: if_splits result.splits)
  from scrape_entries_ok [OF sc]
  have d: "distinct (map fst (folder_blobs hasher executor entries))"
    and ov: "ov = map_of (rev (folder_blobs hasher executor entries))" by auto
  have "map_of (rev (folder_blobs hasher executor entries)) = map_of (folder_blobs hasher executor entries)"
    using d by (simp add: map_of_inject_set rev_map [symmetric])
  with r d ov show ?thesis by blast
qed

section \<open>The interface of the overrides\<close>

text \<open>
  A replacement is offered for a spec version only, keeps the heap pages that are asked for, and its
  code declares that version.
\<close>

locale code_overrides =
  fixes lookup :: "u32 \<Rightarrow> u64 option \<Rightarrow> RuntimeCode option"
    and declares :: "bytes \<Rightarrow> u32 \<Rightarrow> bool"
  assumes lookup_pages: "lookup spec pages = Some c \<Longrightarrow> heap_pages c = pages"
    and lookup_declares: "lookup spec pages = Some c \<Longrightarrow> \<exists>code. fetch_runtime_code c = Some code \<and> declares code spec"
begin

lemma chosen_code:
  assumes "c = (case lookup spec (heap_pages onchain) of Some c \<Rightarrow> c | None \<Rightarrow> onchain)"
  shows "heap_pages c = heap_pages onchain \<and>
    (c = onchain \<or> (\<exists>code. fetch_runtime_code c = Some code \<and> declares code spec))"
  using assms lookup_pages lookup_declares by (cases "lookup spec (heap_pages onchain)") auto

end

definition code_declares :: "(bytes \<Rightarrow> u64) \<Rightarrow> version_reader \<Rightarrow> bytes \<Rightarrow> u32 \<Rightarrow> bool" where
  "code_declares hasher executor code spec \<longleftrightarrow>
     (case executor (blob_runtime_code (wasm_blob_new hasher code) (Some 128)) of
        Ok version \<Rightarrow> spec_version version = spec | _ \<Rightarrow> False)"

definition loaded_overrides :: "(bytes \<Rightarrow> u64) \<Rightarrow> version_reader \<Rightarrow> directory \<Rightarrow> u32 \<rightharpoonup> WasmBlob" where
  "loaded_overrides hasher executor dir =
     (case wasm_override_new hasher executor dir of Ok ov \<Rightarrow> ov | _ \<Rightarrow> Map.empty)"

lemma entry_blob_declares:
  "entry_blob hasher executor e = Some (spec, w) \<Longrightarrow> code_declares hasher executor (blob_code w) spec"
  by (auto simp: entry_blob_def code_declares_def wasm_blob_new_def split: result.splits if_splits)

lemma folder_blobs_declares:
  "(spec, w) \<in> set (folder_blobs hasher executor entries) \<Longrightarrow> code_declares hasher executor (blob_code w) spec"
  by (induction entries) (auto split: option.splits dest: entry_blob_declares sym)

lemma loaded_declares:
  assumes "loaded_overrides hasher executor dir spec = Some w"
  shows "code_declares hasher executor (blob_code w) spec"
proof -
  from assms obtain ov where "scrape_overrides hasher executor dir = Ok ov" "ov spec = Some w"
    by (auto simp: loaded_overrides_def wasm_override_new_def split: result.splits)
  with scrape_overrides_ok show ?thesis by (blast dest: map_of_SomeD intro: folder_blobs_declares)
qed

interpretation override: code_overrides "override_get (loaded_overrides hasher executor dir)"
  "code_declares hasher executor" for hasher executor dir
  by unfold_locales (auto simp: override_get_def blob_runtime_code_def intro: loaded_declares)

section \<open>Properties\<close>

text \<open>Scraping a folder succeeds only if every entry and every wasm file can be read, every wasm
  file declares a version and no two declare the same; then the overrides are exactly the files of the
  folder under the versions they declare.\<close>

lemma scrape_overrides_exact:
  assumes "scrape_overrides hasher executor dir = Ok ov"
  shows "\<exists>entries. read_dir dir = Ok entries \<and>
    (\<forall>entry\<in>set entries. \<exists>e. entry = Ok e \<and>
      (extension (de_name e) = Some ''wasm'' \<longrightarrow> entry_blob hasher executor entry \<noteq> None)) \<and>
    distinct (map fst (folder_blobs hasher executor entries)) \<and>
    (\<forall>spec w. ov spec = Some w \<longleftrightarrow> (\<exists>entry\<in>set entries. entry_blob hasher executor entry = Some (spec, w)))"
proof -
  from scrape_overrides_ok [OF assms] obtain entries where r: "read_dir dir = Ok entries" "is_dir dir"
    and d: "distinct (map fst (folder_blobs hasher executor entries))"
    and ov: "ov = map_of (folder_blobs hasher executor entries)" by blast
  have "scrape_entries hasher executor p es m ds = Ok res \<Longrightarrow> entry \<in> set es \<Longrightarrow> \<exists>e. entry = Ok e \<and>
      (extension (de_name e) = Some ''wasm'' \<longrightarrow> entry_blob hasher executor entry \<noteq> None)" for es p m ds res entry
  proof (induction es arbitrary: m ds)
    case (Cons x es)
    then show ?case
      by (fastforce simp: entry_blob_def override_runtime_version_def Let_def and_then_case
          split: result.splits if_splits dest: map_err_eq_Ok [THEN iffD1])
  qed simp
  with assms r have "\<forall>entry\<in>set entries. \<exists>e. entry = Ok e \<and>
      (extension (de_name e) = Some ''wasm'' \<longrightarrow> entry_blob hasher executor entry \<noteq> None)"
    by (fastforce simp: scrape_overrides_def and_then_case split: result.splits)
  moreover have "(spec, w) \<in> set (folder_blobs hasher executor entries) \<longleftrightarrow>
      (\<exists>entry\<in>set entries. entry_blob hasher executor entry = Some (spec, w))" for spec w
    by (induction entries) (auto split: option.splits)
  ultimately show ?thesis using r d ov by (auto simp: map_of_eq_Some_iff)
qed

section \<open>A concrete folder\<close>

definition demo_reader :: version_reader where
  "demo_reader c = (case fetch_runtime_code c of
     Some [v] \<Rightarrow> Ok (demo_version (ucast v)) | _ \<Rightarrow> Err ''no version'')"

definition demo_dir :: directory where
  "demo_dir = \<lparr>dir_path = ''/wasm'', is_dir = True,
     read_dir = Ok [Ok \<lparr>de_name = ''a.wasm'', de_read = Ok [7]\<rparr>, Ok \<lparr>de_name = ''notes.txt'', de_read = Ok []\<rparr>]\<rparr>"

lemma demo_scrape:
  "scrape_overrides (\<lambda>_. 0) demo_reader demo_dir = Ok [7 \<mapsto> wasm_blob_new (\<lambda>_. 0) [7]]"
  by (simp add: scrape_overrides_def demo_dir_def extension_def override_runtime_version_def demo_reader_def
      blob_runtime_code_def wasm_blob_new_def demo_version_def Let_def)

end
