(* ===== verification/Call_Executor.thy ===== *)
theory Call_Executor
  imports Wasm_Override
begin

text \<open>
  The local call executor (\<open>client/service/src/client/call_executor.rs\<close>): which runtime code a call
  runs, when the block is initialised first, and how errors come back. The state machine, the
  changes trie lookup and the state backend belong to other packages and are fields of \<open>call_env\<close>.
\<close>

section \<open>Model\<close>

text \<open>
  \<open>ce_execute\<close> is the state machine: with the manager (strategy and failure handler), the state, the
  changes trie, the code, the method, its data and whether a proof is recorded, it runs on the
  overlay.
\<close>

record ('st, 'tr, 'm, 'ov) call_env =
  ce_changes_trie :: "BlockId \<Rightarrow> (blockchain_error, 'tr option) result"
  ce_state_at :: "BlockId \<Rightarrow> (blockchain_error, 'st) result"
  ce_runtime_code :: "'st \<Rightarrow> (string, RuntimeCode) result"
  ce_ext_version :: "'st \<Rightarrow> 'tr option \<Rightarrow> RuntimeCode \<Rightarrow> (string, RuntimeVersion) result"
  ce_as_trie_backend :: "'st \<Rightarrow> 'st option"
  ce_execute :: "'m \<Rightarrow> 'st \<Rightarrow> 'tr option \<Rightarrow> RuntimeCode \<Rightarrow> string \<Rightarrow> bytes \<Rightarrow> bool \<Rightarrow>
     ('ov, blockchain_error, bytes) prog"
  ce_prove :: "'st \<Rightarrow> RuntimeCode \<Rightarrow> string \<Rightarrow> bytes \<Rightarrow> ('ov, blockchain_error, bytes \<times> bytes list) prog"
  ce_default_overlay :: 'ov
  ce_native_version :: RuntimeVersion

definition call_executor_new ::
  "(bytes \<Rightarrow> u64) \<Rightarrow> version_reader \<Rightarrow> directory option \<Rightarrow>
     (blockchain_error, (u32 \<rightharpoonup> WasmBlob) option) result" where
  "call_executor_new hasher executor wasm_runtime_overrides =
     (case wasm_runtime_overrides of
        None \<Rightarrow> Ok None
      | Some p \<Rightarrow> map_ok Some (wasm_override_new hasher executor p))"

definition runtime_code_at ::
  "('st, 'tr, 'm, 'ov) call_env \<Rightarrow> 'st \<Rightarrow> (blockchain_error, RuntimeCode) result" where
  "runtime_code_at env st = map_err RuntimeCodeError (ce_runtime_code env st)"

definition call_runtime_version ::
  "('st, 'tr, 'm, 'ov) call_env \<Rightarrow> BlockId \<Rightarrow> (blockchain_error, RuntimeVersion) result" where
  "call_runtime_version env at =
     and_then (ce_changes_trie env at) (\<lambda>trie.
     and_then (ce_state_at env at) (\<lambda>st.
     and_then (runtime_code_at env st) (\<lambda>code.
       map_err VersionInvalid (ce_ext_version env st trie code))))"

definition check_override ::
  "('st, 'tr, 'm, 'ov) call_env \<Rightarrow> (u32 \<rightharpoonup> WasmBlob) option \<Rightarrow> RuntimeCode \<Rightarrow> BlockId \<Rightarrow>
     (blockchain_error, RuntimeCode) result" where
  "check_override env wasm_override onchain_code at =
     (case wasm_override of
        None \<Rightarrow> Ok onchain_code
      | Some overrides \<Rightarrow>
          and_then (call_runtime_version env at) (\<lambda>version.
            Ok (case override_get overrides (spec_version version) (heap_pages onchain_code) of
                  Some c \<Rightarrow> c | None \<Rightarrow> onchain_code)))"

definition executor_call ::
  "('st, 'tr, 'm, 'ov) call_env \<Rightarrow> (u32 \<rightharpoonup> WasmBlob) option \<Rightarrow> BlockId \<Rightarrow> string \<Rightarrow> bytes \<Rightarrow> 'm \<Rightarrow>
     (blockchain_error, bytes) result" where
  "executor_call env wasm_override at meth call_data manager =
     and_then (ce_changes_trie env at) (\<lambda>trie.
     and_then (ce_state_at env at) (\<lambda>st.
     and_then (runtime_code_at env st) (\<lambda>onchain.
     and_then (check_override env wasm_override onchain at) (\<lambda>code.
       fst (ce_execute env manager st trie code meth call_data False (ce_default_overlay env))))))"

text \<open>The overlay of a runtime API instance and the block it was last initialised at.\<close>

record 'ov api_context =
  ctx_changes :: 'ov
  ctx_initialized :: "BlockId option"

datatype InitializeBlock = Do_initialize | Skip_initialize

definition with_changes :: "('ov, 'e, 'a) prog \<Rightarrow> ('ov api_context, 'e, 'a) prog" where
  "with_changes = zoom ctx_changes (\<lambda>ov c. c\<lparr>ctx_changes := ov\<rparr>)"

definition contextual_call ::
  "('st, 'tr, 'm, 'ov) call_env \<Rightarrow> (u32 \<rightharpoonup> WasmBlob) option \<Rightarrow> ('ov api_context, blockchain_error, unit) prog \<Rightarrow>
     BlockId \<Rightarrow> string \<Rightarrow> bytes \<Rightarrow> InitializeBlock \<Rightarrow> 'm \<Rightarrow> bool \<Rightarrow> ('ov api_context, blockchain_error, bytes) prog" where
  "contextual_call env wasm_override initialize_block_fn at meth call_data initialize_block manager recorder =
     pbind (\<lambda>c. if initialize_block = Do_initialize \<and>
                  (case ctx_initialized c of None \<Rightarrow> True | Some b \<Rightarrow> b \<noteq> at)
               then initialize_block_fn c else (Ok (), c)) (\<lambda>_.
     pbind (return_prog (ce_changes_trie env at)) (\<lambda>trie.
     pbind (return_prog (ce_state_at env at)) (\<lambda>st.
       if recorder
       then
         pbind (return_prog (ok_or (Backend ''UnableToGenerateProof'') (ce_as_trie_backend env st))) (\<lambda>trie_st.
         pbind (return_prog (runtime_code_at env trie_st)) (\<lambda>onchain.
         pbind (return_prog (check_override env wasm_override onchain at)) (\<lambda>code.
           with_changes (ce_execute env manager trie_st trie code meth call_data True))))
       else
         pbind (return_prog (runtime_code_at env st)) (\<lambda>onchain.
         pbind (return_prog (check_override env wasm_override onchain at)) (\<lambda>code.
           with_changes (ce_execute env manager st trie code meth call_data False))))))"

definition prove_at_trie_state ::
  "('st, 'tr, 'm, 'ov) call_env \<Rightarrow> 'st \<Rightarrow> string \<Rightarrow> bytes \<Rightarrow> ('ov, blockchain_error, bytes \<times> bytes list) prog" where
  "prove_at_trie_state env trie_st meth call_data =
     pbind (return_prog (runtime_code_at env trie_st)) (\<lambda>code. ce_prove env trie_st code meth call_data)"

definition native_runtime_version :: "('st, 'tr, 'm, 'ov) call_env \<Rightarrow> RuntimeVersion option" where
  "native_runtime_version env = Some (ce_native_version env)"

text \<open>The version for consensus: an error is formatted.\<close>

definition get_runtime_version ::
  "(blockchain_error \<Rightarrow> string) \<Rightarrow> ('st, 'tr, 'm, 'ov) call_env \<Rightarrow> BlockId \<Rightarrow> (string, RuntimeVersion) result" where
  "get_runtime_version debug_format env at = map_err debug_format (call_runtime_version env at)"

section \<open>Lemmas\<close>

lemma pbind_skip [simp]: "pbind (\<lambda>c. (Ok x, c)) f = f x"
  by (rule ext) (simp add: pbind_def)

lemma contextual_call_stages:
  "contextual_call env ov init at meth call_data mode manager rec =
   pbind (\<lambda>c. if mode = Do_initialize \<and> (case ctx_initialized c of None \<Rightarrow> True | Some b \<Rightarrow> b \<noteq> at)
            then init c else (Ok (), c))
     (\<lambda>_. contextual_call env ov init' at meth call_data Skip_initialize manager rec)"
  by (simp add: contextual_call_def)

section \<open>The code of a call\<close>

text \<open>The code that a block with a given spec version is to be run with: a wasm file of the folder of
  overrides that declares this version (an \<open>entry_blob\<close>), and the on-chain code when there is none. The
  number of heap pages is the on-chain one.\<close>

definition code_to_run ::
  "(bytes \<Rightarrow> u64) \<Rightarrow> version_reader \<Rightarrow> directory option \<Rightarrow> u32 \<Rightarrow> RuntimeCode \<Rightarrow> RuntimeCode \<Rightarrow> bool" where
  "code_to_run hasher executor dirs spec onchain code \<longleftrightarrow>
     (case dirs of
        None \<Rightarrow> code = onchain
      | Some dir \<Rightarrow> \<exists>entries. read_dir dir = Ok entries \<and>
          (\<forall>entry\<in>set entries. \<forall>w. entry_blob hasher executor entry = Some (spec, w) \<longrightarrow>
             code = blob_runtime_code w (heap_pages onchain)) \<and>
          ((\<forall>entry\<in>set entries. \<forall>w. entry_blob hasher executor entry \<noteq> Some (spec, w)) \<longrightarrow> code = onchain))"

lemma check_override_code:
  assumes "call_executor_new hasher executor dirs = Ok ov" and "call_runtime_version env at = Ok version"
  shows "\<exists>code. check_override env ov onchain at = Ok code \<and> heap_pages code = heap_pages onchain \<and>
    code_to_run hasher executor dirs (spec_version version) onchain code"
proof (cases dirs)
  case None
  with assms show ?thesis by (auto simp: call_executor_new_def check_override_def code_to_run_def)
next
  case (Some dir)
  with assms(1) obtain o' where o': "ov = Some o'" "scrape_overrides hasher executor dir = Ok o'"
    by (cases "scrape_overrides hasher executor dir") (auto simp: call_executor_new_def wasm_override_new_def)
  define code where "code = (case override_get o' (spec_version version) (heap_pages onchain) of
                  Some c \<Rightarrow> c | None \<Rightarrow> onchain)"
  have chk: "check_override env ov onchain at = Ok code"
    by (simp add: check_override_def o' assms(2) code_def)
  have "loaded_overrides hasher executor dir = o'"
    using o'(2) by (simp add: loaded_overrides_def wasm_override_new_def)
  with code_def have "code = (case override_get (loaded_overrides hasher executor dir) (spec_version version)
      (heap_pages onchain) of Some c \<Rightarrow> c | None \<Rightarrow> onchain)" by simp
  from override.chosen_code [OF this] have pages: "heap_pages code = heap_pages onchain" by simp
  from scrape_overrides_exact [OF o'(2)] obtain entries where entries: "read_dir dir = Ok entries"
    "\<And>spec w. o' spec = Some w \<longleftrightarrow> (\<exists>entry\<in>set entries. entry_blob hasher executor entry = Some (spec, w))"
    by blast
  have "code_to_run hasher executor dirs (spec_version version) onchain code"
  proof (cases "o' (spec_version version)")
    case None
    with entries(2) [of "spec_version version"]
    have "\<forall>entry\<in>set entries. \<forall>w. entry_blob hasher executor entry \<noteq> Some (spec_version version, w)" by auto
    with None entries(1) show ?thesis by (simp add: code_to_run_def \<open>dirs = Some dir\<close> code_def override_get_def)
  next
    case (Some w)
    then have code: "code = blob_runtime_code w (heap_pages onchain)" by (simp add: code_def override_get_def)
    have same: "w' = w" if "entry \<in> set entries" "entry_blob hasher executor entry = Some (spec_version version, w')" for entry w'
      using that entries(2) [of "spec_version version" w'] Some by auto
    have "\<exists>entry\<in>set entries. entry_blob hasher executor entry = Some (spec_version version, w)"
      using Some entries(2) by simp
    then have "(\<forall>entry\<in>set entries. \<forall>w'. entry_blob hasher executor entry \<noteq> Some (spec_version version, w')) \<longrightarrow> code = onchain"
      by blast
    moreover have "\<forall>entry\<in>set entries. \<forall>w'. entry_blob hasher executor entry = Some (spec_version version, w') \<longrightarrow>
        code = blob_runtime_code w' (heap_pages onchain)"
      using same code by blast
    ultimately show ?thesis
      unfolding code_to_run_def \<open>dirs = Some dir\<close> option.case by (intro exI [of _ entries] conjI entries(1))
  qed
  with chk pages show ?thesis by blast
qed

section \<open>Properties\<close>

text \<open>C38: which code a call runs. A call at a block runs, on the state of that block, the wasm file of the
  folder of overrides that declares the spec version the on-chain code has there, and the on-chain code
  when there is no such file or no folder; the number of heap pages is the on-chain one. A one-off call
  and a call in the context of a runtime API agree in this.\<close>

theorem override_matches_version:
  assumes "call_executor_new hasher executor dirs = Ok ov"
    and "ce_changes_trie env at = Ok trie" and "ce_state_at env at = Ok st"
    and "ce_runtime_code env st = Ok onchain" and "ce_ext_version env st trie onchain = Ok version"
  shows "\<exists>code. code_to_run hasher executor dirs (spec_version version) onchain code \<and>
    heap_pages code = heap_pages onchain \<and>
    executor_call env ov at meth call_data manager =
      fst (ce_execute env manager st trie code meth call_data False (ce_default_overlay env)) \<and>
    contextual_call env ov init at meth call_data Skip_initialize manager False =
      with_changes (ce_execute env manager st trie code meth call_data False)"
proof -
  have version: "call_runtime_version env at = Ok version"
    by (simp add: call_runtime_version_def runtime_code_at_def assms(2-5))
  from check_override_code [OF assms(1) this, of onchain] obtain code where
    code: "check_override env ov onchain at = Ok code" "heap_pages code = heap_pages onchain"
      "code_to_run hasher executor dirs (spec_version version) onchain code" by blast
  have "executor_call env ov at meth call_data manager =
      fst (ce_execute env manager st trie code meth call_data False (ce_default_overlay env))"
    by (simp add: executor_call_def runtime_code_at_def assms(2-4) code(1))
  moreover have "contextual_call env ov init at meth call_data Skip_initialize manager False =
      with_changes (ce_execute env manager st trie code meth call_data False)"
    by (simp add: contextual_call_def runtime_code_at_def assms(2-4) code(1))
  ultimately show ?thesis using code(2,3) by blast
qed

text \<open>A one-off call is a contextual call that neither initialises a block nor records a proof, on
  a fresh overlay: both give the same result, errors included, with overrides or without.\<close>

lemma call_is_contextual_call:
  "fst (contextual_call env ov init at meth call_data Skip_initialize manager False
     \<lparr>ctx_changes = ce_default_overlay env, ctx_initialized = i\<rparr>) =
   executor_call env ov at meth call_data manager"
  by (simp add: contextual_call_def executor_call_def pbind_def and_then_case with_changes_def split: result.splits)

text \<open>A contextual call initialises the block exactly when it is asked to and the context was not
  initialised at this very block; if the initialisation fails, nothing else happens, otherwise the call
  goes on as if it had been told to skip it.\<close>

lemma contextual_call_initializes:
  "contextual_call env ov init at meth call_data mode manager rec c =
   (if mode = Skip_initialize \<or> ctx_initialized c = Some at
    then contextual_call env ov init' at meth call_data Skip_initialize manager rec c
    else case init c of
        (Ok _, c') \<Rightarrow> contextual_call env ov init' at meth call_data Skip_initialize manager rec c'
      | (Err e, c') \<Rightarrow> (Err e, c')
      | (Panic w, c') \<Rightarrow> (Panic w, c'))"
proof -
  let ?rest = "contextual_call env ov init' at meth call_data Skip_initialize manager rec"
  have "contextual_call env ov init at meth call_data mode manager rec c =
      (if mode = Skip_initialize \<or> ctx_initialized c = Some at then ?rest c else pbind init (\<lambda>_. ?rest) c)"
    unfolding contextual_call_stages [of env ov init at meth call_data mode manager rec init']
    by (cases mode; cases "ctx_initialized c") (simp_all add: pbind_def)
  also have "pbind init (\<lambda>_. ?rest) c = (case init c of (Ok _, c') \<Rightarrow> ?rest c'
      | (Err e, c') \<Rightarrow> (Err e, c') | (Panic w, c') \<Rightarrow> (Panic w, c'))"
    by (simp add: pbind_def split: prod.split result.split)
  finally show ?thesis .
qed

section \<open>A concrete executor\<close>

definition demo_call_env :: "(unit, unit, unit, unit) call_env" where
  "demo_call_env = \<lparr>ce_changes_trie = (\<lambda>_. Ok None), ce_state_at = (\<lambda>_. Ok ()),
     ce_runtime_code = (\<lambda>_. Ok \<lparr>fetch_runtime_code = Some [1], rc_hash = [], heap_pages = Some 64\<rparr>),
     ce_ext_version = (\<lambda>_ _ _. Ok (demo_version 7)), ce_as_trie_backend = Some,
     ce_execute = (\<lambda>_ _ _ c _ _ _ _. (Ok (case fetch_runtime_code c of Some b \<Rightarrow> b | None \<Rightarrow> []), ())),
     ce_prove = (\<lambda>_ _ _ _ _. (Ok ([], []), ())), ce_default_overlay = (), ce_native_version = demo_version 7\<rparr>"

text \<open>At version 7 the file of the folder is run instead of the on-chain code; at version 8 it is not.\<close>

theorem override_matches_version_witness:
  "executor_call demo_call_env (Some [7 \<mapsto> wasm_blob_new (\<lambda>_. 0) [7]]) (Number 3) ''Core_version'' [] () = Ok [7] \<and>
   executor_call (demo_call_env\<lparr>ce_ext_version := \<lambda>_ _ _. Ok (demo_version 8)\<rparr>)
     (Some [7 \<mapsto> wasm_blob_new (\<lambda>_. 0) [7]]) (Number 3) ''Core_version'' [] () = Ok [1]"
proof -
  let ?ov = "Some [7 \<mapsto> wasm_blob_new (\<lambda>_. 0) [7]]"
  let ?oc = "\<lparr>fetch_runtime_code = Some [1], rc_hash = [], heap_pages = Some 64\<rparr>"
  let ?env = "\<lambda>v. demo_call_env\<lparr>ce_ext_version := \<lambda>_ _ _. Ok (demo_version v)\<rparr>"
  have new: "call_executor_new (\<lambda>_. 0) demo_reader (Some demo_dir) = Ok ?ov"
    by (simp add: call_executor_new_def wasm_override_new_def demo_scrape)
  have blob: "entry_blob (\<lambda>_. 0) demo_reader (Ok \<lparr>de_name = ''a.wasm'', de_read = Ok [7]\<rparr>) = Some (7, wasm_blob_new (\<lambda>_. 0) [7])"
    "entry_blob (\<lambda>_. 0) demo_reader (Ok \<lparr>de_name = ''notes.txt'', de_read = Ok []\<rparr>) = None"
    by (simp_all add: entry_blob_def extension_def demo_reader_def blob_runtime_code_def wasm_blob_new_def demo_version_def)
  have run: "\<exists>code. code_to_run (\<lambda>_. 0) demo_reader (Some demo_dir) v ?oc code \<and>
      executor_call (?env v) ?ov (Number 3) ''Core_version'' [] () = Ok (case fetch_runtime_code code of Some b \<Rightarrow> b | None \<Rightarrow> [])" for v
    using override_matches_version [OF new, of "?env v" "Number 3" None "()" ?oc "demo_version v" "''Core_version''" "[]" "()"]
    by (fastforce simp: demo_call_env_def demo_version_def)
  have "code_to_run (\<lambda>_. 0) demo_reader (Some demo_dir) 7 ?oc code \<Longrightarrow> fetch_runtime_code code = Some [7]" for code
    by (simp add: code_to_run_def demo_dir_def blob blob_runtime_code_def wasm_blob_new_def)
  moreover have "code_to_run (\<lambda>_. 0) demo_reader (Some demo_dir) 8 ?oc code \<Longrightarrow> fetch_runtime_code code = Some [1]" for code
    by (simp add: code_to_run_def demo_dir_def blob)
  moreover have "?env 7 = demo_call_env" by (simp add: demo_call_env_def)
  ultimately show ?thesis using run [of 7] run [of 8] by auto
qed

end
