(* ===== verification/Client_Queries.thy ===== *)
theory Client_Queries
  imports Client_Import Call_Executor
begin

text \<open>
  What the client answers without changing the chain (\<open>client/service/src/client/client.rs\<close>): headers,
  bodies and signed blocks, uncles, the state of a block and its proofs, the calls of the runtime API,
  the auxiliary store, and the streams that subscribe to notifications.
\<close>

section \<open>Model\<close>

text \<open>The state of one block, as the backend hands it out. Its errors are kept as text.\<close>

type_synonym ChildInfo = bytes
type_synonym StorageProof = "bytes list"

record state_backend =
  sb_storage :: "bytes \<Rightarrow> (string, bytes option) result"
  sb_storage_hash :: "bytes \<Rightarrow> (string, H256 option) result"
  sb_keys :: "bytes \<Rightarrow> bytes list"
  sb_child_storage :: "ChildInfo \<Rightarrow> bytes \<Rightarrow> (string, bytes option) result"
  sb_child_storage_hash :: "ChildInfo \<Rightarrow> bytes \<Rightarrow> (string, H256 option) result"
  sb_child_keys :: "ChildInfo \<Rightarrow> bytes \<Rightarrow> bytes list"
  sb_prove_read :: "bytes list \<Rightarrow> (string, StorageProof) result"
  sb_prove_child_read :: "ChildInfo \<Rightarrow> bytes list \<Rightarrow> (string, StorageProof) result"

text \<open>The queries of the block chain database, besides those of \<open>client_backend\<close>.\<close>

record chain_queries =
  cq_backend :: client_backend
  cq_header :: "BlockId \<Rightarrow> (blockchain_error, Header option) result"
  cq_body :: "BlockId \<Rightarrow> (blockchain_error, Extrinsic list option) result"
  cq_justifications :: "BlockId \<Rightarrow> (blockchain_error, Justification list option) result"
  cq_children :: "H256 \<Rightarrow> (blockchain_error, H256 list) result"
  cq_block_hash_from_id :: "BlockId \<Rightarrow> (blockchain_error, H256 option) result"
  cq_block_number_from_id :: "BlockId \<Rightarrow> (blockchain_error, BlockNumber option) result"
  cq_expect_block_number_from_id :: "BlockId \<Rightarrow> (blockchain_error, BlockNumber) result"
  cq_state_at :: "BlockId \<Rightarrow> (blockchain_error, state_backend) result"
  cq_indexed_transaction :: "H256 \<Rightarrow> (blockchain_error, bytes option) result"
  cq_has_indexed_transaction :: "H256 \<Rightarrow> (blockchain_error, bool) result"
  cq_prove_execution :: "state_backend \<Rightarrow> Header \<Rightarrow> string \<Rightarrow> bytes \<Rightarrow> (blockchain_error, bytes \<times> StorageProof) result"
  cq_merge_proofs :: "StorageProof list \<Rightarrow> StorageProof"
  cq_apply_aux :: "(bytes \<times> bytes) list \<Rightarrow> bytes list \<Rightarrow> (bytes \<times> bytes option) list"
  cq_get_aux :: "bytes \<Rightarrow> (blockchain_error, bytes option) result"
  cq_usage_info :: "bytes option"

subsection \<open>Chain data\<close>

definition chain_info_of :: "chain_queries \<Rightarrow> chain_info" where
  "chain_info_of q = cb_info (cq_backend q)"

record ClientInfo =
  ci_chain :: chain_info
  ci_usage :: "bytes option"

definition usage_info :: "chain_queries \<Rightarrow> ClientInfo" where
  "usage_info q = \<lparr>ci_chain = chain_info_of q, ci_usage = cq_usage_info q\<rparr>"

definition client_header :: "chain_queries \<Rightarrow> BlockId \<Rightarrow> (blockchain_error, Header option) result" where
  "client_header q bid = cq_header q bid"

definition client_body :: "chain_queries \<Rightarrow> BlockId \<Rightarrow> (blockchain_error, Extrinsic list option) result" where
  "client_body q bid = cq_body q bid"

definition client_justifications :: "chain_queries \<Rightarrow> BlockId \<Rightarrow> (blockchain_error, Justification list option) result" where
  "client_justifications q bid = cq_justifications q bid"

definition block_hash :: "chain_queries \<Rightarrow> BlockNumber \<Rightarrow> (blockchain_error, H256 option) result" where
  "block_hash q n = cb_hash (cq_backend q) n"

definition client_number :: "chain_queries \<Rightarrow> H256 \<Rightarrow> (blockchain_error, BlockNumber option) result" where
  "client_number q h = cb_number (cq_backend q) h"

definition indexed_transaction :: "chain_queries \<Rightarrow> H256 \<Rightarrow> (blockchain_error, bytes option) result" where
  "indexed_transaction q h = cq_indexed_transaction q h"

definition has_indexed_transaction :: "chain_queries \<Rightarrow> H256 \<Rightarrow> (blockchain_error, bool) result" where
  "has_indexed_transaction q h = cq_has_indexed_transaction q h"

definition to_hash :: "chain_queries \<Rightarrow> BlockId \<Rightarrow> (blockchain_error, H256 option) result" where
  "to_hash q bid = cq_block_hash_from_id q bid"

definition to_number :: "chain_queries \<Rightarrow> BlockId \<Rightarrow> (blockchain_error, BlockNumber option) result" where
  "to_number q bid = cq_block_number_from_id q bid"

definition client_block :: "chain_queries \<Rightarrow> BlockId \<Rightarrow> (blockchain_error, SignedBlock option) result" where
  "client_block q bid =
     and_then (client_header q bid) (\<lambda>hdr.
     and_then (client_body q bid) (\<lambda>body.
     and_then (client_justifications q bid) (\<lambda>js.
       Ok (case (hdr, body) of
             (Some h, Some xs) \<Rightarrow> Some \<lparr>block = \<lparr>header = h, extrinsics = xs\<rparr>, justifications = js\<rparr>
           | _ \<Rightarrow> None))))"

subsection \<open>Uncles\<close>

definition load_header :: "chain_queries \<Rightarrow> H256 \<Rightarrow> (blockchain_error, Header) result" where
  "load_header q h = and_then (cq_header q (Hash h)) (ok_or (UnknownBlock h))"

fun uncles_loop ::
  "chain_queries \<Rightarrow> nat \<Rightarrow> H256 \<Rightarrow> H256 \<Rightarrow> Header \<Rightarrow> H256 list \<Rightarrow> (blockchain_error, H256 list) result" where
  "uncles_loop q 0 current_hash ancestor_hash ancestor uncles = Ok uncles"
| "uncles_loop q (Suc n) current_hash ancestor_hash ancestor uncles =
     and_then (cq_children q ancestor_hash) (\<lambda>children.
       let uncles = uncles @ filter (\<lambda>h. h \<noteq> current_hash) children in
       if genesis_hash (chain_info_of q) = ancestor_hash then Ok uncles
       else
         and_then (load_header q (parent_hash ancestor)) (\<lambda>next_ancestor.
           uncles_loop q n ancestor_hash (parent_hash ancestor) next_ancestor uncles))"

definition uncles :: "chain_queries \<Rightarrow> H256 \<Rightarrow> BlockNumber \<Rightarrow> (blockchain_error, H256 list) result" where
  "uncles q target_hash max_generation =
     (if genesis_hash (chain_info_of q) = target_hash then Ok []
      else
        and_then (load_header q target_hash) (\<lambda>current.
        and_then (load_header q (parent_hash current)) (\<lambda>ancestor.
          uncles_loop q (unat max_generation) target_hash (parent_hash current) ancestor [])))"

text \<open>The headers of the uncles: a header that cannot be read is left out.\<close>

fun filter_map_headers :: "chain_queries \<Rightarrow> H256 list \<Rightarrow> (blockchain_error, Header list) result" where
  "filter_map_headers q [] = Ok []"
| "filter_map_headers q (h # hs) =
     (case client_header q (Hash h) of
        Ok (Some hdr) \<Rightarrow> map_ok (\<lambda>rest. hdr # rest) (filter_map_headers q hs)
      | Ok None \<Rightarrow> filter_map_headers q hs
      | Err _ \<Rightarrow> filter_map_headers q hs
      | Panic w \<Rightarrow> Panic w)"

definition provide_uncles :: "chain_queries \<Rightarrow> H256 \<Rightarrow> BlockNumber \<Rightarrow> (blockchain_error, Header list) result" where
  "provide_uncles q target_hash max_generation =
     and_then (uncles q target_hash max_generation) (filter_map_headers q)"

subsection \<open>The state of a block\<close>

definition client_state_at :: "chain_queries \<Rightarrow> BlockId \<Rightarrow> (blockchain_error, state_backend) result" where
  "client_state_at q bid = cq_state_at q bid"

definition storage_keys :: "chain_queries \<Rightarrow> BlockId \<Rightarrow> StorageKey \<Rightarrow> (blockchain_error, StorageKey list) result" where
  "storage_keys q bid key_prefix = and_then (client_state_at q bid) (\<lambda>st. Ok (sb_keys st key_prefix))"

fun read_pairs :: "state_backend \<Rightarrow> bytes list \<Rightarrow> (blockchain_error, (StorageKey \<times> StorageData) list) result" where
  "read_pairs st [] = Ok []"
| "read_pairs st (k # ks) =
     (case sb_storage st k of
        Ok (Some d) \<Rightarrow> map_ok (\<lambda>rest. (k, d) # rest) (read_pairs st ks)
      | Ok None \<Rightarrow> map_ok (\<lambda>rest. (k, []) # rest) (read_pairs st ks)
      | Err _ \<Rightarrow> map_ok (\<lambda>rest. (k, []) # rest) (read_pairs st ks)
      | Panic w \<Rightarrow> Panic w)"

definition storage_pairs ::
  "chain_queries \<Rightarrow> BlockId \<Rightarrow> StorageKey \<Rightarrow> (blockchain_error, (StorageKey \<times> StorageData) list) result" where
  "storage_pairs q bid key_prefix =
     and_then (client_state_at q bid) (\<lambda>st. read_pairs st (sb_keys st key_prefix))"

record KeyIterator =
  ki_state :: state_backend
  ki_prefix :: "StorageKey option"
  ki_current_key :: bytes

definition storage_keys_iter ::
  "chain_queries \<Rightarrow> BlockId \<Rightarrow> StorageKey option \<Rightarrow> StorageKey option \<Rightarrow> (blockchain_error, KeyIterator) result" where
  "storage_keys_iter q bid pre start_key =
     and_then (client_state_at q bid) (\<lambda>st.
       Ok \<lparr>ki_state = st, ki_prefix = pre,
           ki_current_key = (case start_key of Some k \<Rightarrow> k
             | None \<Rightarrow> (case pre of Some k \<Rightarrow> k | None \<Rightarrow> []))\<rparr>)"

definition client_storage :: "chain_queries \<Rightarrow> BlockId \<Rightarrow> StorageKey \<Rightarrow> (blockchain_error, StorageData option) result" where
  "client_storage q bid key = and_then (client_state_at q bid) (\<lambda>st. map_err Execution (sb_storage st key))"

definition storage_hash :: "chain_queries \<Rightarrow> BlockId \<Rightarrow> StorageKey \<Rightarrow> (blockchain_error, H256 option) result" where
  "storage_hash q bid key = and_then (client_state_at q bid) (\<lambda>st. map_err Execution (sb_storage_hash st key))"

definition child_storage_keys ::
  "chain_queries \<Rightarrow> BlockId \<Rightarrow> ChildInfo \<Rightarrow> StorageKey \<Rightarrow> (blockchain_error, StorageKey list) result" where
  "child_storage_keys q bid child_info key_prefix =
     and_then (client_state_at q bid) (\<lambda>st. Ok (sb_child_keys st child_info key_prefix))"

definition child_storage ::
  "chain_queries \<Rightarrow> BlockId \<Rightarrow> ChildInfo \<Rightarrow> StorageKey \<Rightarrow> (blockchain_error, StorageData option) result" where
  "child_storage q bid child_info key =
     and_then (client_state_at q bid) (\<lambda>st. map_err Execution (sb_child_storage st child_info key))"

definition child_storage_hash ::
  "chain_queries \<Rightarrow> BlockId \<Rightarrow> ChildInfo \<Rightarrow> StorageKey \<Rightarrow> (blockchain_error, H256 option) result" where
  "child_storage_hash q bid child_info key =
     and_then (client_state_at q bid) (\<lambda>st. map_err Execution (sb_child_storage_hash st child_info key))"

definition code_at :: "chain_queries \<Rightarrow> BlockId \<Rightarrow> (blockchain_error, bytes) result" where
  "code_at q bid = and_then (client_storage q bid CODE) (expect_some '':code key is always defined; qed'')"

subsection \<open>Proofs of reads and of an execution\<close>

definition HEAP_PAGES :: bytes where
  "HEAP_PAGES = map of_char '':heappages''"

definition read_proof :: "chain_queries \<Rightarrow> BlockId \<Rightarrow> bytes list \<Rightarrow> (blockchain_error, StorageProof) result" where
  "read_proof q bid keys = and_then (client_state_at q bid) (\<lambda>st. map_err Execution (sb_prove_read st keys))"

definition read_child_proof ::
  "chain_queries \<Rightarrow> BlockId \<Rightarrow> ChildInfo \<Rightarrow> bytes list \<Rightarrow> (blockchain_error, StorageProof) result" where
  "read_child_proof q bid child_info keys =
     and_then (client_state_at q bid) (\<lambda>st. map_err Execution (sb_prove_child_read st child_info keys))"

text \<open>The header of the block that would follow \<open>parent\<close>, with everything else left at its default.\<close>

definition prepare_environment_block :: "chain_queries \<Rightarrow> BlockId \<Rightarrow> (blockchain_error, Header) result" where
  "prepare_environment_block q parent =
     and_then (cb_expect_block_hash_from_id (cq_backend q) parent) (\<lambda>parent_h.
     and_then (cq_expect_block_number_from_id q parent) (\<lambda>n.
       Ok \<lparr>parent_hash = parent_h, number = n + 1, state_root = 0, extrinsics_root = 0, digest = []\<rparr>))"

definition execution_proof ::
  "chain_queries \<Rightarrow> BlockId \<Rightarrow> string \<Rightarrow> bytes \<Rightarrow> (blockchain_error, bytes \<times> StorageProof) result" where
  "execution_proof q bid meth call_data =
     and_then (read_proof q bid [CODE, HEAP_PAGES]) (\<lambda>code_proof.
     and_then (client_state_at q bid) (\<lambda>st.
     and_then (prepare_environment_block q bid) (\<lambda>hdr.
       map_ok (\<lambda>(r, p). (r, cq_merge_proofs q [p, code_proof])) (cq_prove_execution q st hdr meth call_data))))"

subsection \<open>Calls of the runtime API\<close>

text \<open>The closure that initialises the block, and the call itself. The manager belongs to the execution
  context; errors are wrapped into the API's error type.\<close>

definition client_initialize ::
  "chain_queries \<Rightarrow> (BlockId \<Rightarrow> Header \<Rightarrow> ('ov api_context, string, unit) prog) \<Rightarrow> BlockId \<Rightarrow>
     ('ov api_context, blockchain_error, unit) prog" where
  "client_initialize q core_initialize at =
     pbind (return_prog (prepare_environment_block q at)) (\<lambda>hdr.
       map_err_prog RuntimeApiError (core_initialize at hdr))"

definition client_call_api_at ::
  "('st, 'tr, 'm, 'ov) call_env \<Rightarrow> (u32 \<rightharpoonup> WasmBlob) option \<Rightarrow> chain_queries \<Rightarrow> (blockchain_error \<Rightarrow> 'e) \<Rightarrow>
     (BlockId \<Rightarrow> Header \<Rightarrow> ('ov api_context, string, unit) prog) \<Rightarrow> BlockId \<Rightarrow> string \<Rightarrow> bytes \<Rightarrow>
     InitializeBlock \<Rightarrow> 'm \<Rightarrow> bool \<Rightarrow> ('ov api_context, 'e, bytes) prog" where
  "client_call_api_at env ov q into core_initialize at meth args mode manager recorder =
     map_err_prog into
       (contextual_call env ov (client_initialize q core_initialize at) at meth args mode manager recorder)"

definition client_runtime_version_at ::
  "('st, 'tr, 'm, 'ov) call_env \<Rightarrow> BlockId \<Rightarrow> (blockchain_error, RuntimeVersion) result" where
  "client_runtime_version_at env bid = call_runtime_version env bid"

subsection \<open>The auxiliary store and the streams\<close>

definition insert_aux :: "chain_queries \<Rightarrow> (bytes \<times> bytes) list \<Rightarrow> bytes list \<Rightarrow> unit client_prog" where
  "insert_aux q ins del =
     lock_import_and_run (cq_backend q) (op_request (cq_backend q) (Insert_aux (cq_apply_aux q ins del)))"

definition get_aux :: "chain_queries \<Rightarrow> bytes \<Rightarrow> (blockchain_error, bytes option) result" where
  "get_aux q key = cq_get_aux q key"

text \<open>A new subscription is an open sink that has received nothing.\<close>

definition fresh_sink :: "'n sink" where
  "fresh_sink = \<lparr>is_closed = False, inbox = []\<rparr>"

definition import_notification_stream :: "unit client_prog" where
  "import_notification_stream = on_notifies (modify_prog (\<lambda>n. n\<lparr>import_notification_sinks :=
     import_notification_sinks n @ [fresh_sink]\<rparr>))"

definition finality_notification_stream :: "unit client_prog" where
  "finality_notification_stream = on_notifies (modify_prog (\<lambda>n. n\<lparr>finality_notification_sinks :=
     finality_notification_sinks n @ [fresh_sink]\<rparr>))"

subsection \<open>Building a block\<close>

text \<open>What the block builder of the library is created with.\<close>

record block_builder_args =
  bb_parent_hash :: H256
  bb_parent_number :: BlockNumber
  bb_record_proof :: bool
  bb_inherent_digests :: "DigestItem list"

definition new_block_at ::
  "chain_queries \<Rightarrow> BlockId \<Rightarrow> DigestItem list \<Rightarrow> bool \<Rightarrow> (blockchain_error, block_builder_args) result" where
  "new_block_at q parent inherent_digests record_proof =
     and_then (cb_expect_block_hash_from_id (cq_backend q) parent) (\<lambda>h.
     and_then (cq_expect_block_number_from_id q parent) (\<lambda>n.
       Ok \<lparr>bb_parent_hash = h, bb_parent_number = n, bb_record_proof = record_proof,
           bb_inherent_digests = inherent_digests\<rparr>))"

definition new_block :: "chain_queries \<Rightarrow> DigestItem list \<Rightarrow> block_builder_args" where
  "new_block q inherent_digests =
     \<lparr>bb_parent_hash = best_hash (chain_info_of q), bb_parent_number = best_number (chain_info_of q),
      bb_record_proof = False, bb_inherent_digests = inherent_digests\<rparr>"

section \<open>What is relied on\<close>

text \<open>
  A stored block is one whose header the database returns. In a header tree the parent of every stored
  block but genesis is stored and one lower, and the children of a stored block are listed.
\<close>

definition stored_header :: "chain_queries \<Rightarrow> H256 \<Rightarrow> Header option" where
  "stored_header q h = (case cq_header q (Hash h) of Ok hdr \<Rightarrow> hdr | _ \<Rightarrow> None)"

abbreviation stored :: "chain_queries \<Rightarrow> H256 \<Rightarrow> bool" where
  "stored q h \<equiv> stored_header q h \<noteq> None"

definition parent_of :: "chain_queries \<Rightarrow> H256 \<Rightarrow> H256" where
  "parent_of q h = (case stored_header q h of Some hdr \<Rightarrow> parent_hash hdr | None \<Rightarrow> 0)"

definition height_of :: "chain_queries \<Rightarrow> H256 \<Rightarrow> nat" where
  "height_of q h = (case stored_header q h of Some hdr \<Rightarrow> unat (number hdr) | None \<Rightarrow> 0)"

definition ancestor_of :: "chain_queries \<Rightarrow> nat \<Rightarrow> H256 \<Rightarrow> H256" where
  "ancestor_of q k h = (parent_of q ^^ k) h"

definition is_child :: "chain_queries \<Rightarrow> H256 \<Rightarrow> H256 \<Rightarrow> bool" where
  "is_child q c h \<longleftrightarrow> stored q c \<and> c \<noteq> genesis_hash (chain_info_of q) \<and> parent_of q c = h"

definition header_tree :: "chain_queries \<Rightarrow> bool" where
  "header_tree q \<longleftrightarrow>
     stored q (genesis_hash (chain_info_of q)) \<and> height_of q (genesis_hash (chain_info_of q)) = 0 \<and>
     (\<forall>h. stored q h \<and> h \<noteq> genesis_hash (chain_info_of q) \<longrightarrow>
        stored q (parent_of q h) \<and> height_of q h = Suc (height_of q (parent_of q h))) \<and>
     (\<forall>h. stored q h \<longrightarrow> (\<exists>cs. cq_children q h = Ok cs \<and> set cs = {c. is_child q c h}))"

section \<open>Lemmas\<close>

lemma header_treeD:
  assumes "header_tree q"
  shows "height_of q (genesis_hash (chain_info_of q)) = 0"
    and "stored q h \<Longrightarrow> h \<noteq> genesis_hash (chain_info_of q) \<Longrightarrow>
           stored q (parent_of q h) \<and> height_of q h = Suc (height_of q (parent_of q h))"
    and "stored q h \<Longrightarrow> \<exists>cs. cq_children q h = Ok cs \<and> set cs = {c. is_child q c h}"
  using assms by (auto simp: header_tree_def)

lemma load_header_stored: "stored_header q h = Some hdr \<Longrightarrow> load_header q h = Ok hdr"
  by (auto simp: stored_header_def load_header_def split: result.splits)

lemma parent_hash_stored: "stored_header q h = Some hdr \<Longrightarrow> parent_hash hdr = parent_of q h"
  by (simp add: parent_of_def)

lemma ancestor_of_0 [simp]: "ancestor_of q 0 h = h"
  by (simp add: ancestor_of_def)

lemma ancestor_of_Suc: "ancestor_of q (Suc k) h = ancestor_of q k (parent_of q h)"
  by (simp add: ancestor_of_def funpow_swap1)

text \<open>The siblings of a block and of its first ancestors.\<close>

definition uncles_within :: "chain_queries \<Rightarrow> nat \<Rightarrow> H256 \<Rightarrow> H256 set" where
  "uncles_within q n h =
     {u. \<exists>k < n. k < height_of q h \<and> is_child q u (ancestor_of q (Suc k) h) \<and> u \<noteq> ancestor_of q k h}"

lemma uncles_within_0 [simp]: "uncles_within q 0 h = {}"
  by (simp add: uncles_within_def)

lemma uncles_within_flat: "height_of q h = 0 \<Longrightarrow> uncles_within q n h = {}"
  by (simp add: uncles_within_def)

lemma uncles_within_Suc:
  assumes "height_of q h = Suc (height_of q (parent_of q h))"
  shows "uncles_within q (Suc n) h =
    {u. is_child q u (parent_of q h) \<and> u \<noteq> h} \<union> uncles_within q n (parent_of q h)"
proof -
  have "(\<exists>k < Suc n. k < Suc m \<and> P k) \<longleftrightarrow> P 0 \<or> (\<exists>k < n. k < m \<and> P (Suc k))" for m P
    by (metis (no_types, lifting) Suc_less_eq less_Suc_eq_0_disj zero_less_Suc)
  then show ?thesis
    unfolding uncles_within_def assms by (auto simp: ancestor_of_Suc)
qed

lemma uncles_loop_spec:
  assumes "header_tree q" and "stored q cur" and "cur \<noteq> genesis_hash (chain_info_of q)"
    and "stored_header q (parent_of q cur) = Some anc"
  shows "\<exists>us. uncles_loop q n cur (parent_of q cur) anc acc = Ok (acc @ us) \<and> set us = uncles_within q n cur"
  using assms(2-4)
proof (induction n arbitrary: cur anc acc)
  case (Suc n)
  let ?p = "parent_of q cur" and ?g = "genesis_hash (chain_info_of q)"
  from header_treeD(2) [OF assms(1) Suc.prems(1,2)] have height: "height_of q cur = Suc (height_of q ?p)" by simp
  obtain cs where cs: "cq_children q ?p = Ok cs" "set cs = {c. is_child q c ?p}"
    using header_treeD(3) [OF assms(1), of ?p] Suc.prems(3) by auto
  let ?new = "filter (\<lambda>h. h \<noteq> cur) cs"
  have new: "set ?new = {u. is_child q u ?p \<and> u \<noteq> cur}" using cs(2) by auto
  show ?case
  proof (cases "?p = ?g")
    case True
    then have "uncles_within q n ?p = {}"
      using header_treeD(1) [OF assms(1)] by (simp add: uncles_within_flat)
    with True cs(1) new show ?thesis by (auto simp: uncles_within_Suc [OF height])
  next
    case False
    have st: "stored q ?p" using Suc.prems(3) by simp
    from header_treeD(2) [OF assms(1) st False] obtain anc' where
      anc': "stored_header q (parent_of q ?p) = Some anc'" by auto
    obtain us where us: "uncles_loop q n ?p (parent_of q ?p) anc' (acc @ ?new) = Ok ((acc @ ?new) @ us)"
        "set us = uncles_within q n ?p"
      using Suc.IH [OF st False anc'] by blast
    then have "uncles_loop q (Suc n) cur ?p anc acc = Ok (acc @ ?new @ us)"
      using False cs(1) by (simp add: parent_hash_stored [OF Suc.prems(3)] load_header_stored [OF anc'])
    with new us(2) show ?thesis by (auto simp: uncles_within_Suc [OF height])
  qed
qed simp

section \<open>Properties\<close>

text \<open>C24: on a header tree the search for uncles returns, and what it returns is exactly the siblings of
  the block and of its ancestors, at most the asked number of generations back and never past genesis;
  the blocks on the path itself are not among them. A generation count beyond the height of the block
  is harmless.\<close>

theorem uncles_are_siblings:
  assumes "header_tree q" and "stored q target"
  shows "\<exists>us. uncles q target max_generation = Ok us \<and> set us = uncles_within q (unat max_generation) target"
proof (cases "target = genesis_hash (chain_info_of q)")
  case True
  then show ?thesis
    using header_treeD(1) [OF assms(1)] by (simp add: uncles_def uncles_within_flat)
next
  case False
  from header_treeD(2) [OF assms False] obtain hdr anc where
    hdr: "stored_header q target = Some hdr" and anc: "stored_header q (parent_of q target) = Some anc"
    using assms(2) by auto
  from uncles_loop_spec [OF assms False anc, of "unat max_generation" "[]"] False show ?thesis
    by (auto simp: uncles_def load_header_stored [OF hdr] load_header_stored [OF anc] parent_hash_stored [OF hdr])
qed

text \<open>Writing to the auxiliary store is atomic. It succeeds exactly when the backend begins the
  operation, takes the request and commits it, and then one operation with this request alone has been
  committed; in every other case nothing was. No stream receives anything, and no import is left
  marked as running unless the backend panicked.\<close>

lemma insert_aux_atomic:
  assumes "insert_aux q ins del c = (r, c')"
  shows "(is_ok r \<longrightarrow> committed c' = committed c @ [[Insert_aux (cq_apply_aux q ins del)]]) \<and>
    (\<not> is_ok r \<longrightarrow> committed c' = committed c) \<and>
    (is_ok r \<longleftrightarrow> is_ok (cb_begin_operation (cq_backend q)) \<and>
       is_ok (cb_accepts (cq_backend q) (Insert_aux (cq_apply_aux q ins del))) \<and>
       is_ok (cb_commit_operation (cq_backend q) [Insert_aux (cq_apply_aux q ins del)])) \<and>
    set (finality_notification_sinks (client_notifies c')) \<subseteq> set (finality_notification_sinks (client_notifies c)) \<and>
    (\<not> is_panic r \<longrightarrow> importing_block c' = None)"
proof -
  let ?a = "Insert_aux (cq_apply_aux q ins del)" and ?be = "cq_backend q"
  let ?c = "c\<lparr>operation := empty_operation\<rparr>"
  have begin_fails: "insert_aux q ins del c = (case cb_begin_operation ?be of
      Ok _ \<Rightarrow> insert_aux q ins del c | Err e \<Rightarrow> (Err e, c\<lparr>importing_block := None\<rparr>) | Panic w \<Rightarrow> (Panic w, c))"
    by (simp add: insert_aux_def lock_import_and_run_def pbind_def split: result.split)
  have request_fails: "is_ok (cb_begin_operation ?be) \<Longrightarrow> insert_aux q ins del c = (case cb_accepts ?be ?a of
      Ok _ \<Rightarrow> insert_aux q ins del c | Err e \<Rightarrow> (Err e, ?c\<lparr>importing_block := None\<rparr>) | Panic w \<Rightarrow> (Panic w, ?c))"
    by (cases "cb_begin_operation ?be")
      (simp_all add: insert_aux_def lock_import_and_run_def op_request_def pbind_def split: result.split)
  let ?d = "?c\<lparr>operation := empty_operation\<lparr>op_actions := [?a]\<rparr>\<rparr>"
  have commits: "is_ok (cb_begin_operation ?be) \<Longrightarrow> is_ok (cb_accepts ?be ?a) \<Longrightarrow>
    insert_aux q ins del c = (case cb_commit_operation ?be [?a] of
      Ok _ \<Rightarrow> (Ok (), ?d\<lparr>committed := committed c @ [[?a]], importing_block := None, client_notifies := (client_notifies c)
          \<lparr>finality_notification_sinks := retain_open (finality_notification_sinks (client_notifies c)),
           import_notification_sinks := retain_open (import_notification_sinks (client_notifies c))\<rparr>\<rparr>)
    | Err e \<Rightarrow> (Err e, ?d\<lparr>importing_block := None\<rparr>) | Panic w \<Rightarrow> (Panic w, ?d))"
    by (cases "cb_begin_operation ?be"; cases "cb_accepts ?be ?a")
      (simp_all add: insert_aux_def lock_import_and_run_def op_request_def commit_operation_def send_notifications_def
        empty_operation_def notify_finalized_def notify_imported_def zoom_def pbind_def split: result.split)
  show ?thesis
  proof (cases "is_ok (cb_begin_operation ?be)")
    case False
    with trans [OF assms [symmetric] begin_fails] show ?thesis by (cases "cb_begin_operation ?be") simp_all
  next
    case begun: True
    show ?thesis
    proof (cases "is_ok (cb_accepts ?be ?a)")
      case False
      with trans [OF assms [symmetric] request_fails [OF begun]] show ?thesis by (cases "cb_accepts ?be ?a") simp_all
    next
      case True
      with begun trans [OF assms [symmetric] commits [OF begun True]] show ?thesis
        by (cases "cb_commit_operation ?be [?a]") (simp_all add: retain_open_def)
    qed
  qed
qed

text \<open>Listing a state under a prefix gives one pair per key, in the order of the keys, and the data
  is what reading that key returns. A key that cannot be read, or has no value, is listed with empty
  data: the error is not reported.\<close>

lemma storage_pairs_agree:
  assumes "storage_pairs q bid key_prefix = Ok ps"
  shows "storage_keys q bid key_prefix = Ok (map fst ps) \<and>
    (\<forall>(k, d) \<in> set ps. client_storage q bid k = Ok (Some d) \<or>
       d = [] \<and> (client_storage q bid k = Ok None \<or> (\<exists>e. client_storage q bid k = Err (Execution e))))"
proof -
  obtain st where st: "cq_state_at q bid = Ok st" and ps: "read_pairs st (sb_keys st key_prefix) = Ok ps"
    using assms by (auto simp: storage_pairs_def client_state_at_def and_then_case split: result.splits)
  have "map fst ps = ks \<and> (\<forall>(k, d) \<in> set ps. sb_storage st k = Ok (Some d) \<or>
      d = [] \<and> (sb_storage st k = Ok None \<or> (\<exists>e. sb_storage st k = Err e)))" if "read_pairs st ks = Ok ps" for ks ps
    using that
  proof (induction ks arbitrary: ps)
    case (Cons k ks)
    then obtain d rest where "ps = (k, d) # rest" "read_pairs st ks = Ok rest"
      "sb_storage st k = Ok (Some d) \<or> d = [] \<and> (sb_storage st k = Ok None \<or> (\<exists>e. sb_storage st k = Err e))"
      by (cases "read_pairs st ks") (auto split: result.splits option.splits)
    with Cons.IH [of rest] show ?case by auto
  qed simp
  from this [OF ps] st show ?thesis
    by (fastforce simp: storage_keys_def client_storage_def client_state_at_def)
qed

text \<open>A call of the runtime API at a block that the API instance was not yet initialised at first
  initialises a block on top of it, with the number after it and it as the parent; when that header
  cannot be made or the initialisation fails, the runtime is not called and the error is returned. A
  call that skips initialisation never touches the header.\<close>

lemma api_call_initializes:
  "client_call_api_at env ov q into core_init at meth args mode manager rec c =
   (if mode = Skip_initialize \<or> ctx_initialized c = Some at
    then client_call_api_at env ov q into init' at meth args Skip_initialize manager rec c
    else case cb_expect_block_hash_from_id (cq_backend q) at of
        Err e \<Rightarrow> (Err (into e), c)
      | Panic w \<Rightarrow> (Panic w, c)
      | Ok p \<Rightarrow> (case cq_expect_block_number_from_id q at of
          Err e \<Rightarrow> (Err (into e), c)
        | Panic w \<Rightarrow> (Panic w, c)
        | Ok n \<Rightarrow> (case core_init at \<lparr>parent_hash = p, number = n + 1, state_root = 0, extrinsics_root = 0, digest = []\<rparr> c of
            (Ok _, c') \<Rightarrow> client_call_api_at env ov q into init' at meth args Skip_initialize manager rec c'
          | (Err e, c') \<Rightarrow> (Err (into (RuntimeApiError e)), c')
          | (Panic w, c') \<Rightarrow> (Panic w, c'))))"
  unfolding client_call_api_at_def map_err_prog_def
    contextual_call_initializes [of env ov "client_initialize q core_init at" at meth args mode manager rec c
      "client_initialize q init' at"]
  by (simp add: client_initialize_def prepare_environment_block_def map_err_prog_def pbind_def and_then_case
      split: result.splits prod.splits)

section \<open>A concrete chain\<close>

text \<open>Block 1 follows genesis, blocks 2 and 3 both follow block 1; the parent of genesis is no block.\<close>

definition demo_chain_header :: "H256 \<Rightarrow> Header option" where
  "demo_chain_header h =
     (if h = 0 then Some \<lparr>parent_hash = 99, number = 0, state_root = 0, extrinsics_root = 0, digest = []\<rparr>
      else if h = 1 then Some \<lparr>parent_hash = 0, number = 1, state_root = 0, extrinsics_root = 0, digest = []\<rparr>
      else if h = 2 \<or> h = 3 then Some \<lparr>parent_hash = 1, number = 2, state_root = 0, extrinsics_root = 0, digest = []\<rparr>
      else None)"

definition demo_state :: state_backend where
  "demo_state = \<lparr>sb_storage = (\<lambda>k. if k = [1] then Ok (Some [7]) else Err ''unreadable''), sb_storage_hash = (\<lambda>_. Ok None),
     sb_keys = (\<lambda>_. [[1], [2]]), sb_child_storage = (\<lambda>_ _. Ok None), sb_child_storage_hash = (\<lambda>_ _. Ok None),
     sb_child_keys = (\<lambda>_ _. []), sb_prove_read = Ok, sb_prove_child_read = (\<lambda>_. Ok)\<rparr>"

definition demo_queries :: chain_queries where
  "demo_queries = \<lparr>cq_backend = demo_client_backend,
     cq_header = (\<lambda>bid. Ok (case bid of Hash h \<Rightarrow> demo_chain_header h | Number n \<Rightarrow> demo_chain_header (ucast n))),
     cq_body = (\<lambda>_. Ok (Some [])), cq_justifications = (\<lambda>_. Ok None),
     cq_children = (\<lambda>h. Ok (if h = 0 then [1] else if h = 1 then [2, 3] else [])),
     cq_block_hash_from_id = (\<lambda>_. Ok None), cq_block_number_from_id = (\<lambda>_. Ok None),
     cq_expect_block_number_from_id = (\<lambda>bid. Ok (case bid of Hash h \<Rightarrow> ucast h | Number n \<Rightarrow> n)),
     cq_state_at = (\<lambda>_. Ok demo_state),
     cq_indexed_transaction = (\<lambda>_. Ok None), cq_has_indexed_transaction = (\<lambda>_. Ok False),
     cq_prove_execution = (\<lambda>_ _ _ _. Ok ([], [])), cq_merge_proofs = concat,
     cq_apply_aux = (\<lambda>ins del. map (\<lambda>(k, v). (k, Some v)) ins @ map (\<lambda>k. (k, None)) del),
     cq_get_aux = (\<lambda>_. Ok None), cq_usage_info = None\<rparr>"

lemma demo_queries_header [simp]: "stored_header demo_queries h = demo_chain_header h"
  by (simp add: stored_header_def demo_queries_def)

lemma demo_queries_genesis [simp]: "genesis_hash (chain_info_of demo_queries) = 0"
  by (simp add: demo_queries_def chain_info_of_def demo_client_backend_def)

lemma demo_queries_children: "cq_children demo_queries h = Ok (if h = 0 then [1] else if h = 1 then [2, 3] else [])"
  by (simp add: demo_queries_def)

lemma demo_header_tree: "header_tree demo_queries"
  unfolding header_tree_def demo_queries_children is_child_def height_of_def parent_of_def
  by (auto simp: demo_chain_header_def split: if_splits)

theorem uncles_are_siblings_witness:
  "header_tree demo_queries \<and> uncles demo_queries 2 5 = Ok [3] \<and> uncles_within demo_queries 5 2 = {3}"
proof -
  have st: "stored demo_queries 2" by (simp add: demo_chain_header_def)
  have five: "unat (5 :: BlockNumber) = Suc (Suc (Suc (Suc (Suc 0))))" by simp
  have run: "uncles demo_queries 2 5 = Ok [3]"
    unfolding uncles_def five
    by (simp add: load_header_def demo_queries_children demo_queries_def demo_chain_header_def
        chain_info_of_def demo_client_backend_def)
  obtain us where "uncles demo_queries 2 5 = Ok us" "set us = uncles_within demo_queries (unat (5 :: BlockNumber)) 2"
    using uncles_are_siblings [OF demo_header_tree st, of 5] by blast
  with run demo_header_tree show ?thesis by auto
qed

end
