(* ===== verification/Changes_Trie.thy ===== *)
theory Changes_Trie
  imports Client_Queries
begin

text \<open>
  Changes tries and header proofs of the client (\<open>client/service/src/client/client.rs\<close>): the search for
  the configurations that were active in a range of blocks, the changes of a key in that range, their
  proof with the roots it touched, and the canonical hash trie (CHT) proofs of headers and roots.
\<close>

section \<open>Model\<close>

type_synonym ChangesTrieConfiguration = bytes

record AnchorBlockId =
  an_hash :: H256
  an_number :: BlockNumber

text \<open>The configuration active at a block: from where to where, and whether there is one.\<close>

record ConfigRange =
  cr_zero :: "BlockNumber \<times> H256"
  cr_end :: "(BlockNumber \<times> H256) option"
  cr_config :: "ChangesTrieConfiguration option"

type_synonym active_config = "BlockNumber \<times> (BlockNumber \<times> H256) option \<times> ChangesTrieConfiguration"

record changes_trie_storage =
  ct_configuration_at :: "BlockId \<Rightarrow> (blockchain_error, ConfigRange) result"
  ct_oldest_pruned_digest_range_end :: BlockNumber
  ct_build_anchor :: "H256 \<Rightarrow> (string, AnchorBlockId) result"
  ct_root :: "AnchorBlockId \<Rightarrow> BlockNumber \<Rightarrow> (string, H256 option) result"
  ct_cached_changed_keys :: "H256 \<Rightarrow> bytes option"
  ct_get :: "H256 \<Rightarrow> bytes \<Rightarrow> (string, bytes option) result"

text \<open>
  The proof search of the state machine library asks the storage it is given, one question at a time,
  and goes on with the answer: a tree with one branch per possible answer.
\<close>

datatype 'a trie_search =
    Found 'a
  | Ask_anchor H256 "(string, AnchorBlockId) result \<Rightarrow> 'a trie_search"
  | Ask_root AnchorBlockId BlockNumber "(string, H256 option) result \<Rightarrow> 'a trie_search"
  | Ask_cached H256 "bytes option \<Rightarrow> 'a trie_search"
  | Ask_node H256 bytes "(string, bytes option) result \<Rightarrow> 'a trie_search"

record ConfigurationRange =
  rg_config :: ChangesTrieConfiguration
  rg_zero :: BlockNumber
  rg_end :: "BlockNumber option"

text \<open>The packages around: the backend's headers and storage, the two searches, and the CHT library. The
  groups of a CHT walk come one after the other, each possibly as an error.\<close>

record changes_env =
  ce_queries :: chain_queries
  ce_trie_storage :: "changes_trie_storage option"
  ce_expect_header :: "BlockId \<Rightarrow> (blockchain_error, Header) result"
  ce_changes_trie_root :: "Header \<Rightarrow> H256 option"
  ce_key_changes :: "ConfigurationRange \<Rightarrow> changes_trie_storage \<Rightarrow> BlockNumber \<Rightarrow> AnchorBlockId \<Rightarrow> BlockNumber \<Rightarrow>
     bytes option \<Rightarrow> bytes \<Rightarrow> (string, (string, BlockNumber \<times> u32) result list) result"
  ce_key_changes_proof :: "ConfigurationRange \<Rightarrow> BlockNumber \<Rightarrow> AnchorBlockId \<Rightarrow> BlockNumber \<Rightarrow>
     bytes option \<Rightarrow> bytes \<Rightarrow> (string, bytes list) result trie_search"
  cht_size :: BlockNumber
  cht_block_to_number :: "BlockNumber \<Rightarrow> BlockNumber \<Rightarrow> BlockNumber option"
  cht_start_number :: "BlockNumber \<Rightarrow> BlockNumber \<Rightarrow> BlockNumber"
  cht_build_proof :: "BlockNumber \<Rightarrow> BlockNumber \<Rightarrow> BlockNumber list \<Rightarrow>
     (nat \<Rightarrow> (blockchain_error, H256 option) result) \<Rightarrow> (blockchain_error, StorageProof) result"
  cht_groups :: "BlockNumber \<Rightarrow> BlockNumber list \<Rightarrow> (blockchain_error, BlockNumber \<times> BlockNumber list) result list"

subsection \<open>Header proofs\<close>

text \<open>The endless iterator over block numbers from the first of the trie.\<close>

definition cht_range :: "BlockNumber \<Rightarrow> nat \<Rightarrow> BlockNumber" where
  "cht_range cht_start i = cht_start + of_nat i"

definition header_proof_with_cht_size ::
  "changes_env \<Rightarrow> BlockId \<Rightarrow> BlockNumber \<Rightarrow> (blockchain_error, Header \<times> StorageProof) result" where
  "header_proof_with_cht_size env bid csize =
     and_then (ce_expect_header env bid) (\<lambda>hdr.
     and_then (ok_or (Backend ''Failed to generate header proof'') (cht_block_to_number env csize (number hdr))) (\<lambda>cht_num.
     and_then (cht_build_proof env csize cht_num [number hdr]
         (\<lambda>i. block_hash (ce_queries env) (cht_range (cht_start_number env csize cht_num) i))) (\<lambda>proof.
       Ok (hdr, proof))))"

definition header_proof :: "changes_env \<Rightarrow> BlockId \<Rightarrow> (blockchain_error, Header \<times> StorageProof) result" where
  "header_proof env bid = header_proof_with_cht_size env bid (cht_size env)"

definition changes_trie_roots_proof_at_cht ::
  "changes_env \<Rightarrow> BlockNumber \<Rightarrow> BlockNumber \<Rightarrow> BlockNumber list \<Rightarrow> (blockchain_error, StorageProof) result" where
  "changes_trie_roots_proof_at_cht env csize cht_num blocks =
     cht_build_proof env csize cht_num blocks
       (\<lambda>i. map_ok (\<lambda>hdr. Option.bind hdr (ce_changes_trie_root env))
              (client_header (ce_queries env) (Number (cht_range (cht_start_number env csize cht_num) i))))"

fun group_proofs ::
  "changes_env \<Rightarrow> BlockNumber \<Rightarrow> (blockchain_error, BlockNumber \<times> BlockNumber list) result list \<Rightarrow>
     (blockchain_error, StorageProof list) result" where
  "group_proofs env csize [] = Ok []"
| "group_proofs env csize (g # gs) =
     and_then g (\<lambda>(cht_num, cht_blocks).
     and_then (changes_trie_roots_proof_at_cht env csize cht_num cht_blocks) (\<lambda>cht_proof.
     and_then (group_proofs env csize gs) (\<lambda>rest. Ok (cht_proof # rest))))"

definition changes_trie_roots_proof ::
  "changes_env \<Rightarrow> BlockNumber \<Rightarrow> BlockNumber list \<Rightarrow> (blockchain_error, StorageProof) result" where
  "changes_trie_roots_proof env csize blocks =
     map_ok (cq_merge_proofs (ce_queries env)) (group_proofs env csize (cht_groups env csize blocks))"

subsection \<open>Active configurations\<close>

text \<open>The loop backwards from the last block; no value means that it never ends.\<close>

partial_function (option) require_loop ::
  "changes_env \<Rightarrow> changes_trie_storage \<Rightarrow> BlockNumber \<Rightarrow> bool \<Rightarrow> H256 \<Rightarrow> active_config list \<Rightarrow>
     (blockchain_error, active_config list) result option" where
  "require_loop env st first fail_if_disabled current configs =
     (case ct_configuration_at st (Hash current) of
        Err e \<Rightarrow> Some (Err e)
      | Panic w \<Rightarrow> Some (Panic w)
      | Ok cfg_range \<Rightarrow>
          (case cr_config cfg_range of
             None \<Rightarrow> Some (if \<not> fail_if_disabled then Ok configs else Err ChangesTriesNotSupported)
           | Some config \<Rightarrow>
               if fst (cr_zero cfg_range) < first
               then Some (Ok (configs @ [(fst (cr_zero cfg_range), cr_end cfg_range, config)]))
               else (case ce_expect_header env (Hash (snd (cr_zero cfg_range))) of
                   Err e \<Rightarrow> Some (Err e)
                 | Panic w \<Rightarrow> Some (Panic w)
                 | Ok hdr \<Rightarrow> require_loop env st first fail_if_disabled (parent_hash hdr)
                     (configs @ [(fst (cr_zero cfg_range), cr_end cfg_range, config)]))))"

definition require_changes_trie ::
  "changes_env \<Rightarrow> BlockNumber \<Rightarrow> H256 \<Rightarrow> bool \<Rightarrow>
     (blockchain_error, changes_trie_storage \<times> active_config list) result option" where
  "require_changes_trie env first lst fail_if_disabled =
     (case ce_trie_storage env of
        None \<Rightarrow> Some (Err ChangesTriesNotSupported)
      | Some st \<Rightarrow> map_option (map_ok (\<lambda>configs. (st, configs))) (require_loop env st first fail_if_disabled lst []))"

text \<open>Going on with the configurations, once the search has ended.\<close>

definition with_configs ::
  "(blockchain_error, 'a) result option \<Rightarrow> ('a \<Rightarrow> (blockchain_error, 'b) result) \<Rightarrow> (blockchain_error, 'b) result option" where
  "with_configs search f = map_option (\<lambda>r. and_then r f) search"

definition max_key_changes_range ::
  "changes_env \<Rightarrow> BlockNumber \<Rightarrow> BlockId \<Rightarrow> (blockchain_error, (BlockNumber \<times> BlockId) option) result option" where
  "max_key_changes_range env first lst =
     (case cq_expect_block_number_from_id (ce_queries env) lst of
        Err e \<Rightarrow> Some (Err e)
      | Panic w \<Rightarrow> Some (Panic w)
      | Ok last_number \<Rightarrow>
          (case cb_expect_block_hash_from_id (cq_backend (ce_queries env)) lst of
             Err e \<Rightarrow> Some (Err e)
           | Panic w \<Rightarrow> Some (Panic w)
           | Ok last_hash \<Rightarrow>
               if first > last_number then Some (Err (ChangesTrieAccessFailed ''Invalid changes trie range''))
               else map_option (\<lambda>r. case r of
                   Err _ \<Rightarrow> Ok None
                 | Panic w \<Rightarrow> Panic w
                 | Ok (st, configs) \<Rightarrow>
                     Ok (if configs = [] then None
                         else Some (max (fst (last configs)) (ct_oldest_pruned_digest_range_end st), lst)))
                 (require_changes_trie env first last_hash False)))"

subsection \<open>Changes of a key\<close>

definition range_of :: "active_config \<Rightarrow> ConfigurationRange" where
  "range_of cfg = (case cfg of (config_zero, config_end, config) \<Rightarrow>
     \<lparr>rg_config = config, rg_zero = config_zero, rg_end = map_option fst config_end\<rparr>)"

definition range_first :: "BlockNumber \<Rightarrow> active_config \<Rightarrow> BlockNumber" where
  "range_first first cfg = max first (fst cfg + 1)"

definition range_anchor :: "BlockNumber \<Rightarrow> H256 \<Rightarrow> active_config \<Rightarrow> AnchorBlockId" where
  "range_anchor last_number last_hash cfg =
     (case cfg of
        (_, Some (config_end_number, config_end_hash), _) \<Rightarrow>
          if last_number > config_end_number
          then \<lparr>an_hash = config_end_hash, an_number = config_end_number\<rparr>
          else \<lparr>an_hash = last_hash, an_number = last_number\<rparr>
      | (_, None, _) \<Rightarrow> \<lparr>an_hash = last_hash, an_number = last_number\<rparr>)"

fun collect_results :: "('e, 'a) result list \<Rightarrow> ('e, 'a list) result" where
  "collect_results [] = Ok []"
| "collect_results (r # rs) = and_then r (\<lambda>x. map_ok (\<lambda>xs. x # xs) (collect_results rs))"

fun key_changes_ranges ::
  "changes_env \<Rightarrow> changes_trie_storage \<Rightarrow> BlockNumber \<Rightarrow> BlockNumber \<Rightarrow> H256 \<Rightarrow> bytes option \<Rightarrow> bytes \<Rightarrow>
     active_config list \<Rightarrow> (blockchain_error, (BlockNumber \<times> u32) list) result" where
  "key_changes_ranges env st first last_number last_hash storage_key key [] = Ok []"
| "key_changes_ranges env st first last_number last_hash storage_key key (cfg # cfgs) =
     and_then (map_err ChangesTrieAccessFailed (and_then
         (ce_key_changes env (range_of cfg) st (range_first first cfg) (range_anchor last_number last_hash cfg)
            (best_number (chain_info_of (ce_queries env))) storage_key key) collect_results)) (\<lambda>result_range.
     and_then (key_changes_ranges env st first last_number last_hash storage_key key cfgs) (\<lambda>rest.
       Ok (result_range @ rest)))"

definition key_changes ::
  "changes_env \<Rightarrow> BlockNumber \<Rightarrow> BlockId \<Rightarrow> bytes option \<Rightarrow> bytes \<Rightarrow>
     (blockchain_error, (BlockNumber \<times> u32) list) result option" where
  "key_changes env first lst storage_key key =
     (case cq_expect_block_number_from_id (ce_queries env) lst of
        Err e \<Rightarrow> Some (Err e)
      | Panic w \<Rightarrow> Some (Panic w)
      | Ok last_number \<Rightarrow>
          (case cb_expect_block_hash_from_id (cq_backend (ce_queries env)) lst of
             Err e \<Rightarrow> Some (Err e)
           | Panic w \<Rightarrow> Some (Panic w)
           | Ok last_hash \<Rightarrow>
               with_configs (require_changes_trie env first last_hash True) (\<lambda>(st, configs).
                 key_changes_ranges env st first last_number last_hash storage_key key configs)))"

subsection \<open>The recorder and the proof of changes\<close>

text \<open>Insertion into the ordered map that collects the roots.\<close>

fun btree_insert :: "'k::linorder \<Rightarrow> 'v \<Rightarrow> ('k \<times> 'v) list \<Rightarrow> ('k \<times> 'v) list" where
  "btree_insert k v [] = [(k, v)]"
| "btree_insert k v ((k', v') # m) =
     (if k < k' then (k, v) # (k', v') # m
      else if k = k' then (k, v) # m
      else (k', v') # btree_insert k v m)"

type_synonym roots_map = "(BlockNumber \<times> H256) list"

definition record_root ::
  "BlockNumber \<Rightarrow> BlockNumber \<Rightarrow> (string, H256 option) result \<Rightarrow> roots_map \<Rightarrow> roots_map" where
  "record_root mn blk answer roots =
     (case answer of Ok (Some root) \<Rightarrow> if blk < mn then btree_insert blk root roots else roots | _ \<Rightarrow> roots)"

text \<open>A search over the recording storage: every answer is the storage's own; roots below the minimum
  are remembered.\<close>

primrec run_recorded :: "changes_trie_storage \<Rightarrow> BlockNumber \<Rightarrow> 'a trie_search \<Rightarrow> roots_map \<Rightarrow> 'a \<times> roots_map" where
  "run_recorded st mn (Found x) = (\<lambda>roots. (x, roots))"
| "run_recorded st mn (Ask_anchor h k) = run_recorded st mn (k (ct_build_anchor st h))"
| "run_recorded st mn (Ask_root a blk k) = (\<lambda>roots.
     run_recorded st mn (k (ct_root st a blk)) (record_root mn blk (ct_root st a blk) roots))"
| "run_recorded st mn (Ask_cached h k) = run_recorded st mn (k (ct_cached_changed_keys st h))"
| "run_recorded st mn (Ask_node h p k) = run_recorded st mn (k (ct_get st h p))"

record ChangesProof =
  ch_max_block :: BlockNumber
  ch_proof :: "bytes list"
  ch_roots :: roots_map
  ch_roots_proof :: StorageProof

fun proof_ranges ::
  "changes_env \<Rightarrow> changes_trie_storage \<Rightarrow> BlockNumber \<Rightarrow> BlockNumber \<Rightarrow> H256 \<Rightarrow> BlockNumber \<Rightarrow> bytes option \<Rightarrow> bytes \<Rightarrow>
     active_config list \<Rightarrow> (roots_map, blockchain_error, bytes list) prog" where
  "proof_ranges env st first_number min_number lst max_number storage_key key [] = ret []"
| "proof_ranges env st first_number min_number lst max_number storage_key key (cfg # cfgs) =
     pbind (return_prog (cq_expect_block_number_from_id (ce_queries env) (Hash lst))) (\<lambda>last_number.
     pbind (map_err_prog ChangesTrieAccessFailed (run_recorded st min_number
         (ce_key_changes_proof env (range_of cfg) first_number \<lparr>an_hash = lst, an_number = last_number\<rparr>
            max_number storage_key key))) (\<lambda>proof_range.
     pbind (proof_ranges env st first_number min_number lst max_number storage_key key cfgs) (\<lambda>rest.
       ret (proof_range @ rest))))"

text \<open>Everything after the search for the configurations.\<close>

definition changes_proof_of ::
  "changes_env \<Rightarrow> BlockNumber \<Rightarrow> H256 \<Rightarrow> H256 \<Rightarrow> H256 \<Rightarrow> bytes option \<Rightarrow> bytes \<Rightarrow> BlockNumber \<Rightarrow>
     changes_trie_storage \<times> active_config list \<Rightarrow> (blockchain_error, ChangesProof) result" where
  "changes_proof_of env first_number lst mn mx storage_key key csize sc =
     (case sc of (st, configs) \<Rightarrow>
        and_then (cq_expect_block_number_from_id (ce_queries env) (Hash mn)) (\<lambda>min_number.
        and_then (cq_expect_block_number_from_id (ce_queries env) (Hash mx)) (\<lambda>mx_number.
          let max_number = min (best_number (chain_info_of (ce_queries env))) mx_number in
          case proof_ranges env st first_number min_number lst max_number storage_key key configs [] of
            (Err e, _) \<Rightarrow> Err e
          | (Panic w, _) \<Rightarrow> Panic w
          | (Ok proof, roots) \<Rightarrow>
              and_then (changes_trie_roots_proof env csize (map fst roots)) (\<lambda>roots_proof.
                Ok \<lparr>ch_max_block = max_number, ch_proof = proof, ch_roots = roots, ch_roots_proof = roots_proof\<rparr>))))"

definition key_changes_proof_with_cht_size ::
  "changes_env \<Rightarrow> H256 \<Rightarrow> H256 \<Rightarrow> H256 \<Rightarrow> H256 \<Rightarrow> bytes option \<Rightarrow> bytes \<Rightarrow> BlockNumber \<Rightarrow>
     (blockchain_error, ChangesProof) result option" where
  "key_changes_proof_with_cht_size env fst_hash lst mn mx storage_key key csize =
     (case cq_expect_block_number_from_id (ce_queries env) (Hash fst_hash) of
        Err e \<Rightarrow> Some (Err e)
      | Panic w \<Rightarrow> Some (Panic w)
      | Ok first_number \<Rightarrow>
          with_configs (require_changes_trie env first_number lst True)
            (changes_proof_of env first_number lst mn mx storage_key key csize))"

definition key_changes_proof ::
  "changes_env \<Rightarrow> H256 \<Rightarrow> H256 \<Rightarrow> H256 \<Rightarrow> H256 \<Rightarrow> bytes option \<Rightarrow> bytes \<Rightarrow>
     (blockchain_error, ChangesProof) result option" where
  "key_changes_proof env fst_hash lst mn mx storage_key key =
     key_changes_proof_with_cht_size env fst_hash lst mn mx storage_key key (cht_size env)"

section \<open>What is relied on\<close>

text \<open>
  The documented behaviour of the changes trie storage and of the header store: only stored blocks have
  a configuration, a configuration starts at an ancestor of the block or at the block itself, and the
  parent hash of genesis is no block.
\<close>

definition trie_ranges_documented :: "changes_env \<Rightarrow> bool" where
  "trie_ranges_documented env \<longleftrightarrow>
     header_tree (ce_queries env) \<and>
     \<not> stored (ce_queries env) (parent_of (ce_queries env) (genesis_hash (chain_info_of (ce_queries env)))) \<and>
     (\<forall>h hdr. ce_expect_header env (Hash h) = Ok hdr \<longrightarrow> stored_header (ce_queries env) h = Some hdr) \<and>
     (\<forall>st h cr. ce_trie_storage env = Some st \<and> ct_configuration_at st (Hash h) = Ok cr \<longrightarrow>
        stored (ce_queries env) h \<and>
        height_of (ce_queries env) (snd (cr_zero cr)) = unat (fst (cr_zero cr)) \<and>
        unat (fst (cr_zero cr)) \<le> height_of (ce_queries env) h)"

section \<open>Lemmas\<close>

subsection \<open>The search for configurations\<close>

lemma trie_rangesD:
  assumes "trie_ranges_documented env" and "ce_trie_storage env = Some st"
    and "ct_configuration_at st (Hash h) = Ok cr"
  shows "stored (ce_queries env) h"
    and "height_of (ce_queries env) (snd (cr_zero cr)) = unat (fst (cr_zero cr))"
    and "unat (fst (cr_zero cr)) \<le> height_of (ce_queries env) h"
  using assms unfolding trie_ranges_documented_def by blast+

text \<open>The next block the loop looks at is lower than the start of the range just seen, or unknown.\<close>

lemma next_current:
  assumes doc: "trie_ranges_documented env" and st: "ce_trie_storage env = Some st"
    and cr: "ct_configuration_at st (Hash h) = Ok cr"
    and hdr: "ce_expect_header env (Hash (snd (cr_zero cr))) = Ok hdr"
  shows "height_of (ce_queries env) (parent_hash hdr) < unat (fst (cr_zero cr)) \<or>
    \<not> is_ok (ct_configuration_at st (Hash (parent_hash hdr)))"
proof -
  let ?q = "ce_queries env" and ?z = "snd (cr_zero cr)"
  have tree: "header_tree ?q" and stz: "stored_header ?q ?z = Some hdr"
    using doc hdr by (auto simp: trie_ranges_documented_def)
  have par: "parent_hash hdr = parent_of ?q ?z" by (rule parent_hash_stored [OF stz])
  show ?thesis
  proof (cases "?z = genesis_hash (chain_info_of ?q)")
    case True
    then have "\<not> stored ?q (parent_hash hdr)" using doc par by (auto simp: trie_ranges_documented_def)
    then have "\<not> is_ok (ct_configuration_at st (Hash (parent_hash hdr)))"
      using trie_rangesD(1) [OF doc st] by (cases "ct_configuration_at st (Hash (parent_hash hdr))") auto
    then show ?thesis ..
  next
    case False
    then show ?thesis
      using header_treeD(2) [OF tree, of ?z] stz par trie_rangesD(2) [OF doc st cr] by auto
  qed
qed

lemma require_loop_stops:
  "\<not> is_ok (ct_configuration_at st (Hash h)) \<Longrightarrow>
   \<exists>r. require_loop env st first fail h acc = Some r \<and> \<not> is_ok r"
  by (subst require_loop.simps) (cases "ct_configuration_at st (Hash h)"; simp)

text \<open>What the loop adds to the configurations it was given.\<close>

definition configs_found :: "BlockNumber \<Rightarrow> bool \<Rightarrow> nat \<Rightarrow> active_config list \<Rightarrow> bool" where
  "configs_found first fail height new \<longleftrightarrow>
     sorted_wrt (>) (map fst new) \<and> (\<forall>c \<in> set new. unat (fst c) \<le> height) \<and>
     (\<forall>c \<in> set (butlast new). first \<le> fst c) \<and> (fail \<longrightarrow> new \<noteq> [] \<and> fst (last new) < first)"

lemma configs_found_Cons:
  assumes "configs_found first fail m new" and "m < unat z" and "unat z \<le> n" and "first \<le> z"
  shows "configs_found first fail n ((z, e, c) # new)"
proof -
  have "\<forall>x \<in> set new. fst x < z" and "\<forall>x \<in> set new. unat (fst x) \<le> n"
    using assms(1-3) by (force simp: configs_found_def word_less_nat_alt)+
  with assms show ?thesis by (auto simp: configs_found_def)
qed

lemma require_loop_result:
  assumes doc: "trie_ranges_documented env" and st: "ce_trie_storage env = Some st"
  shows "\<exists>r. require_loop env st first fail cur acc = Some r \<and>
    (\<forall>cs. r = Ok cs \<longrightarrow> (\<exists>new. cs = acc @ new \<and> configs_found first fail (height_of (ce_queries env) cur) new))"
proof (induction "height_of (ce_queries env) cur" arbitrary: cur acc rule: less_induct)
  case less
  let ?height = "height_of (ce_queries env)"
  let ?entry = "\<lambda>cr config. (fst (cr_zero cr), cr_end cr, config)"
  show ?case
  proof (cases "ct_configuration_at st (Hash cur)")
    case (Ok cr)
    show ?thesis
    proof (cases "cr_config cr")
      case None
      with Ok show ?thesis by (subst require_loop.simps) (auto simp: configs_found_def)
    next
      case (Some config)
      note le = trie_rangesD(3) [OF doc st Ok]
      show ?thesis
      proof (cases "fst (cr_zero cr) < first")
        case True
        with Ok Some le show ?thesis by (subst require_loop.simps) (auto simp: configs_found_def)
      next
        case above: False
        show ?thesis
        proof (cases "ce_expect_header env (Hash (snd (cr_zero cr)))")
          case hdr: (Ok hdr)
          have step: "require_loop env st first fail cur acc =
              require_loop env st first fail (parent_hash hdr) (acc @ [?entry cr config])"
            using Ok Some above hdr by (subst require_loop.simps) simp
          from next_current [OF doc st Ok hdr] show ?thesis
          proof
            assume lt: "?height (parent_hash hdr) < unat (fst (cr_zero cr))"
            with le have "?height (parent_hash hdr) < ?height cur" by simp
            from less [OF this, of "acc @ [?entry cr config]"] obtain r where
              r: "require_loop env st first fail (parent_hash hdr) (acc @ [?entry cr config]) = Some r"
                "\<forall>cs. r = Ok cs \<longrightarrow> (\<exists>new. cs = (acc @ [?entry cr config]) @ new \<and>
                   configs_found first fail (?height (parent_hash hdr)) new)" by blast
            have "first \<le> fst (cr_zero cr)" using above by simp
            with r lt le step show ?thesis by (fastforce intro: configs_found_Cons)
          next
            assume "\<not> is_ok (ct_configuration_at st (Hash (parent_hash hdr)))"
            from require_loop_stops [OF this, of env first fail "acc @ [?entry cr config]"] step
            show ?thesis by auto
          qed
        qed (use Ok Some above in \<open>subst require_loop.simps, simp\<close>)+
      qed
    qed
  qed (subst require_loop.simps, simp)+
qed

text \<open>With no block below it, the first block of a range is never reached.\<close>

lemma require_loop_from_genesis:
  assumes "require_loop env st first fail cur acc = Some r" and "first = 0" and "fail"
  shows "\<not> is_ok r"
proof -
  have "first = 0 \<longrightarrow> fail \<longrightarrow> \<not> is_ok r"
  proof (rule require_loop.raw_induct [where P = "\<lambda>env st first fail cur acc r. first = 0 \<longrightarrow> fail \<longrightarrow> \<not> is_ok r", OF _ assms(1)])
    fix loop env st first fail cur acc r
    assume IH: "\<And>env st first fail cur acc r. loop env st first fail cur acc = Some r \<Longrightarrow> first = 0 \<longrightarrow> fail \<longrightarrow> \<not> is_ok r"
      and step: "(case ct_configuration_at st (Hash cur) of
        Ok cfg_range \<Rightarrow>
          (case cr_config cfg_range of
             None \<Rightarrow> Some (if \<not> fail then Ok acc else Err ChangesTriesNotSupported)
           | Some config \<Rightarrow>
               if fst (cr_zero cfg_range) < first
               then Some (Ok (acc @ [(fst (cr_zero cfg_range), cr_end cfg_range, config)]))
               else (case ce_expect_header env (Hash (snd (cr_zero cfg_range))) of
                   Ok hdr \<Rightarrow> loop env st first fail (parent_hash hdr)
                     (acc @ [(fst (cr_zero cfg_range), cr_end cfg_range, config)])
                 | Err e \<Rightarrow> Some (Err e)
                 | Panic w \<Rightarrow> Some (Panic w)))
      | Err e \<Rightarrow> Some (Err e)
      | Panic w \<Rightarrow> Some (Panic w)) = Some r"
    show "first = 0 \<longrightarrow> fail \<longrightarrow> \<not> is_ok r"
    proof (intro impI)
      assume "first = 0" and "fail"
      with step IH show "\<not> is_ok r"
        by (auto split: result.splits option.splits)
    qed
  qed
  with assms show ?thesis by simp
qed

subsection \<open>The ordered map of roots\<close>

definition ascending :: "('k::linorder \<times> 'v) list \<Rightarrow> bool" where
  "ascending m \<longleftrightarrow> sorted_wrt (<) (map fst m)"

lemma btree_insert_keys [simp]: "fst ` set (btree_insert k v m) = insert k (fst ` set m)"
  by (induction k v m rule: btree_insert.induct) auto

lemma btree_insert_set: "set (btree_insert k v m) \<subseteq> insert (k, v) (set m)"
  by (induction k v m rule: btree_insert.induct) auto

lemma btree_insert_ascending: "ascending m \<Longrightarrow> ascending (btree_insert k v m)"
proof (induction k v m rule: btree_insert.induct)
  case (2 k v k' v' m)
  then show ?case
    using btree_insert_keys [of k v m] by (force simp: ascending_def)
qed (simp add: ascending_def)

lemma btree_insert_lookup:
  "ascending m \<Longrightarrow> map_of (btree_insert k v m) = (map_of m)(k \<mapsto> v)"
  by (induction k v m rule: btree_insert.induct) (auto simp: ascending_def fun_eq_iff)

subsection \<open>Recording is transparent\<close>

text \<open>The same search over the storage itself, and the roots it is answered with, in order.\<close>

primrec run_plain :: "changes_trie_storage \<Rightarrow> 'a trie_search \<Rightarrow> 'a" where
  "run_plain st (Found x) = x"
| "run_plain st (Ask_anchor h k) = run_plain st (k (ct_build_anchor st h))"
| "run_plain st (Ask_root a blk k) = run_plain st (k (ct_root st a blk))"
| "run_plain st (Ask_cached h k) = run_plain st (k (ct_cached_changed_keys st h))"
| "run_plain st (Ask_node h p k) = run_plain st (k (ct_get st h p))"

primrec roots_seen :: "changes_trie_storage \<Rightarrow> 'a trie_search \<Rightarrow> (BlockNumber \<times> H256) list" where
  "roots_seen st (Found x) = []"
| "roots_seen st (Ask_anchor h k) = roots_seen st (k (ct_build_anchor st h))"
| "roots_seen st (Ask_root a blk k) =
     (case ct_root st a blk of Ok (Some root) \<Rightarrow> [(blk, root)] | _ \<Rightarrow> []) @ roots_seen st (k (ct_root st a blk))"
| "roots_seen st (Ask_cached h k) = roots_seen st (k (ct_cached_changed_keys st h))"
| "roots_seen st (Ask_node h p k) = roots_seen st (k (ct_get st h p))"

definition record_all :: "BlockNumber \<Rightarrow> (BlockNumber \<times> H256) list \<Rightarrow> roots_map \<Rightarrow> roots_map" where
  "record_all mn rs roots = fold (\<lambda>(b, r). btree_insert b r) (filter (\<lambda>(b, r). b < mn) rs) roots"

lemma record_all_append [simp]: "record_all mn (rs @ rs') roots = record_all mn rs' (record_all mn rs roots)"
  by (simp add: record_all_def)

lemma record_all_Nil [simp]: "record_all mn [] roots = roots"
  by (simp add: record_all_def)

lemma record_root_all:
  "record_root mn blk answer roots =
   record_all mn (case answer of Ok (Some root) \<Rightarrow> [(blk, root)] | _ \<Rightarrow> []) roots"
  by (auto simp: record_root_def record_all_def split: result.split option.split)

lemma run_recorded_transparent:
  "run_recorded st mn t roots = (run_plain st t, record_all mn (roots_seen st t) roots)"
  by (induction t arbitrary: roots) (simp_all add: record_root_all)

lemma record_all_Cons [simp]:
  "record_all mn ((b, r) # rs) roots = record_all mn rs (if b < mn then btree_insert b r roots else roots)"
  by (simp add: record_all_def)

lemma record_all_ascending: "ascending roots \<Longrightarrow> ascending (record_all mn rs roots)"
  by (induction rs arbitrary: roots) (auto simp: btree_insert_ascending)

lemma record_all_keys: "fst ` set (record_all mn rs roots) = fst ` set roots \<union> {b \<in> fst ` set rs. b < mn}"
proof (induction rs arbitrary: roots)
  case (Cons x rs)
  obtain b r where "x = (b, r)" by fastforce
  then show ?case
    using Cons.IH [of "if b < mn then btree_insert b r roots else roots"] by auto
qed simp

lemma record_all_set: "set (record_all mn rs roots) \<subseteq> set roots \<union> set rs"
proof (induction rs arbitrary: roots)
  case (Cons x rs)
  obtain b r where "x = (b, r)" by fastforce
  with Cons.IH [of "if b < mn then btree_insert b r roots else roots"] btree_insert_set [of b r roots]
  show ?case by (auto split: if_splits)
qed simp

text \<open>The search for one configuration, and the whole loop over the configurations.\<close>

abbreviation search_of :: "changes_env \<Rightarrow> BlockNumber \<Rightarrow> H256 \<Rightarrow> BlockNumber \<Rightarrow> BlockNumber \<Rightarrow> bytes option \<Rightarrow> bytes \<Rightarrow>
    active_config \<Rightarrow> (string, bytes list) result trie_search" where
  "search_of env first_number lst last_number max_number storage_key key cfg \<equiv>
     ce_key_changes_proof env (range_of cfg) first_number \<lparr>an_hash = lst, an_number = last_number\<rparr> max_number storage_key key"

lemma proof_ranges_roots:
  assumes "cq_expect_block_number_from_id (ce_queries env) (Hash lst) = Ok last_number"
    and "proof_ranges env st first_number mn lst mx storage_key key cfgs roots = (Ok ps, roots')"
  shows "roots' = record_all mn
    (concat (map (\<lambda>cfg. roots_seen st (search_of env first_number lst last_number mx storage_key key cfg)) cfgs)) roots"
  using assms(2)
proof (induction cfgs arbitrary: roots ps)
  case (Cons cfg cfgs)
  let ?t = "search_of env first_number lst last_number mx storage_key key cfg"
  from Cons.prems assms(1) obtain ps' where
    "proof_ranges env st first_number mn lst mx storage_key key cfgs (record_all mn (roots_seen st ?t) roots) = (Ok ps', roots')"
    by (auto simp: pbind_eq_Ok map_err_prog_def run_recorded_transparent)
  from Cons.IH [OF this] show ?case by simp
qed simp

lemma with_configs_Ok: "with_configs search f = Some (Ok y) \<longleftrightarrow> (\<exists>x. search = Some (Ok x) \<and> f x = Ok y)"
  by (auto simp: with_configs_def and_then_eq_Ok)

lemma require_from_genesis: "with_configs (require_changes_trie env 0 h True) f \<noteq> Some (Ok x)"
proof
  assume "with_configs (require_changes_trie env 0 h True) f = Some (Ok x)"
  then obtain st cs where "require_changes_trie env 0 h True = Some (Ok (st, cs))" by (auto simp: with_configs_Ok)
  then have "require_loop env st 0 True h [] = Some (Ok cs)"
    by (auto simp: require_changes_trie_def map_ok_eq_Ok split: option.splits)
  from require_loop_from_genesis [OF this] show False by simp
qed

section \<open>Properties\<close>

text \<open>C21: the search for the active configurations always ends, whatever range is asked for and even
  when the range contains no configuration: every round moves to a block below the start of the
  configuration just found.\<close>

theorem require_changes_trie_terminates:
  assumes "trie_ranges_documented env"
  shows "\<exists>r. require_changes_trie env first lst fail_if_disabled = Some r"
proof (cases "ce_trie_storage env")
  case (Some st)
  with require_loop_result [OF assms Some, of first fail_if_disabled lst "[]"] show ?thesis
    by (auto simp: require_changes_trie_def)
qed (simp add: require_changes_trie_def)

text \<open>C22: the configurations found are in descending order of their first block, none starts above the
  last block of the range, all but the final one start at or after the first block of the range, and,
  when a gap is an error, the final one starts before it: together they cover the range.\<close>

theorem configurations_descend:
  assumes "trie_ranges_documented env"
    and "require_changes_trie env first lst fail_if_disabled = Some (Ok (st, configs))"
  shows "sorted_wrt (>) (map fst configs) \<and>
    (\<forall>c \<in> set configs. unat (fst c) \<le> height_of (ce_queries env) lst) \<and>
    (\<forall>c \<in> set (butlast configs). first \<le> fst c) \<and>
    (fail_if_disabled \<longrightarrow> configs \<noteq> [] \<and> fst (last configs) < first)"
proof -
  from assms(2) have st: "ce_trie_storage env = Some st"
    and loop: "require_loop env st first fail_if_disabled lst [] = Some (Ok configs)"
    by (auto simp: require_changes_trie_def map_ok_eq_Ok split: option.splits)
  from require_loop_result [OF assms(1) st, of first fail_if_disabled lst "[]"] loop
  show ?thesis by (auto simp: configs_found_def)
qed

text \<open>Neither the changes of a key nor their proof can ever be computed from block 0 on: the search
  for configurations only stops below the first block, so with first block 0 it ends in an error, even
  when one configuration has been active from genesis to the last block.\<close>

lemma no_changes_from_genesis:
  "key_changes env 0 lst storage_key key \<noteq> Some (Ok changes) \<and>
   (cq_expect_block_number_from_id (ce_queries env) (Hash fst_hash) = Ok 0 \<longrightarrow>
    key_changes_proof_with_cht_size env fst_hash lst' mn mx storage_key key csize \<noteq> Some (Ok p))"
proof
  show "key_changes env 0 lst storage_key key \<noteq> Some (Ok changes)"
    by (simp add: key_changes_def require_from_genesis split: result.splits)
  show "cq_expect_block_number_from_id (ce_queries env) (Hash fst_hash) = Ok 0 \<longrightarrow>
      key_changes_proof_with_cht_size env fst_hash lst' mn mx storage_key key csize \<noteq> Some (Ok p)"
    by (simp add: key_changes_proof_with_cht_size_def require_from_genesis)
qed

text \<open>C23: a proof of key changes comes with the roots its search touched: exactly the blocks below the
  requester's minimum for which the storage answered with a root while the proof was searched, each
  with a root the storage gave, in ascending order without repetition, and the proof of the roots is for
  these blocks. The proof's upper end is not above the best block.\<close>

theorem changes_proof_roots:
  assumes "key_changes_proof_with_cht_size env fst_hash lst mn mx storage_key key csize = Some (Ok p)"
    and "cq_expect_block_number_from_id (ce_queries env) (Hash mn) = Ok min_number"
    and "cq_expect_block_number_from_id (ce_queries env) (Hash lst) = Ok last_number"
  shows "\<exists>st configs first_number. require_changes_trie env first_number lst True = Some (Ok (st, configs)) \<and>
    ascending (ch_roots p) \<and>
    (let seen = \<Union>cfg \<in> set configs. set (roots_seen st
           (search_of env first_number lst last_number (ch_max_block p) storage_key key cfg)) in
     fst ` set (ch_roots p) = {n \<in> fst ` seen. n < min_number} \<and> set (ch_roots p) \<subseteq> seen) \<and>
    changes_trie_roots_proof env csize (map fst (ch_roots p)) = Ok (ch_roots_proof p) \<and>
    ch_max_block p \<le> best_number (chain_info_of (ce_queries env))"
proof -
  obtain first_number st configs where
    req: "require_changes_trie env first_number lst True = Some (Ok (st, configs))"
    and of': "changes_proof_of env first_number lst mn mx storage_key key csize (st, configs) = Ok p"
    using assms(1) by (auto simp: key_changes_proof_with_cht_size_def with_configs_Ok split: result.splits)
  obtain mx_number r roots' where
    mx: "cq_expect_block_number_from_id (ce_queries env) (Hash mx) = Ok mx_number"
    and pr: "proof_ranges env st first_number min_number lst (min (best_number (chain_info_of (ce_queries env))) mx_number)
      storage_key key configs [] = (r, roots')"
    using of' assms(2) by (fastforce simp: changes_proof_of_def and_then_eq_Ok)
  obtain ps where
    run: "proof_ranges env st first_number min_number lst (ch_max_block p) storage_key key configs [] = (Ok ps, ch_roots p)"
    and roots: "changes_trie_roots_proof env csize (map fst (ch_roots p)) = Ok (ch_roots_proof p)"
    and best: "ch_max_block p \<le> best_number (chain_info_of (ce_queries env))"
    using of' assms(2) mx pr by (cases r) (auto simp: changes_proof_of_def and_then_eq_Ok Let_def)
  let ?rs = "concat (map (\<lambda>cfg. roots_seen st (search_of env first_number lst last_number (ch_max_block p) storage_key key cfg)) configs)"
  have "ch_roots p = record_all min_number ?rs []" by (rule proof_ranges_roots [OF assms(3) run])
  then have "ascending (ch_roots p)" "fst ` set (ch_roots p) = {n \<in> fst ` set ?rs. n < min_number}"
    "set (ch_roots p) \<subseteq> set ?rs"
    using record_all_ascending [of "[]" min_number ?rs] record_all_keys [of min_number ?rs "[]"]
      record_all_set [of min_number ?rs "[]"] by (auto simp: ascending_def)
  moreover have "set ?rs = (\<Union>cfg \<in> set configs. set (roots_seen st
      (search_of env first_number lst last_number (ch_max_block p) storage_key key cfg)))" by simp
  ultimately show ?thesis
    using req roots best unfolding Let_def by (intro exI [of _ st] exI [of _ configs] exI [of _ first_number] conjI) simp_all
qed

text \<open>The part of the range that is searched under one configuration starts inside the asked range
  and after the block that activated the configuration (unless that block has the largest number
  there is), and is anchored at or before both the end of the asked range and the end of the
  configuration.\<close>

lemma key_range_bounds:
  assumes "cfg = (config_zero, config_end, config)"
  shows "first \<le> range_first first cfg \<and>
    (config_zero \<noteq> - 1 \<longrightarrow> config_zero < range_first first cfg) \<and>
    an_number (range_anchor last_number last_hash cfg) \<le> last_number \<and>
    (\<forall>e h. config_end = Some (e, h) \<longrightarrow> an_number (range_anchor last_number last_hash cfg) \<le> e) \<and>
    rg_zero (range_of cfg) = config_zero \<and> rg_end (range_of cfg) = map_option fst config_end"
proof -
  have "config_zero < config_zero + 1" if "config_zero \<noteq> - 1"
    using that by (simp add: word_less_nat_alt unatSuc add.commute eq_neg_iff_add_eq_0)
  then have "config_zero < max first (config_zero + 1)" if "config_zero \<noteq> - 1"
    using that by (simp add: less_max_iff_disj)
  then show ?thesis
    by (auto simp: assms range_first_def range_anchor_def range_of_def split: option.splits)
qed

section \<open>A concrete changes trie\<close>

text \<open>One configuration, active since genesis; the search for a proof asks for the roots of blocks 2
  and 1.\<close>

definition demo_trie_storage :: changes_trie_storage where
  "demo_trie_storage =
     \<lparr>ct_configuration_at = (\<lambda>bid. case bid of
          Hash h \<Rightarrow> if demo_chain_header h = None then Err (UnknownBlock h)
            else Ok \<lparr>cr_zero = (0, 0), cr_end = None, cr_config = Some [1]\<rparr>
        | Number _ \<Rightarrow> Err (Backend ''no hash'')),
      ct_oldest_pruned_digest_range_end = 0, ct_build_anchor = (\<lambda>h. Ok \<lparr>an_hash = h, an_number = 2\<rparr>),
      ct_root = (\<lambda>_ n. Ok (Some (ucast n + 10))), ct_cached_changed_keys = (\<lambda>_. None), ct_get = (\<lambda>_ _. Ok None)\<rparr>"

definition demo_changes_env :: changes_env where
  "demo_changes_env =
     \<lparr>ce_queries = demo_queries, ce_trie_storage = Some demo_trie_storage,
      ce_expect_header = (\<lambda>bid. case bid of Hash h \<Rightarrow> ok_or (UnknownBlock h) (demo_chain_header h)
        | Number n \<Rightarrow> ok_or (UnknownBlock (ucast n)) (demo_chain_header (ucast n))),
      ce_changes_trie_root = (\<lambda>_. None), ce_key_changes = (\<lambda>_ _ _ _ _ _ _. Ok []),
      ce_key_changes_proof = (\<lambda>_ _ a _ _ _. Ask_root a 2 (\<lambda>_. Ask_root a 1 (\<lambda>_. Found (Ok [[7]])))),
      cht_size = 2048, cht_block_to_number = (\<lambda>_ _. Some 0), cht_start_number = (\<lambda>_ _. 1),
      cht_build_proof = (\<lambda>_ _ _ _. Ok []), cht_groups = (\<lambda>_ bs. [Ok (0, bs)])\<rparr>"

lemma demo_trie_documented: "trie_ranges_documented demo_changes_env"
proof -
  have "\<not> stored demo_queries (parent_of demo_queries 0)"
    by (simp add: parent_of_def demo_chain_header_def)
  moreover have "ce_expect_header demo_changes_env (Hash h) = Ok hdr \<Longrightarrow> demo_chain_header h = Some hdr" for h hdr
    by (cases "demo_chain_header h") (simp_all add: demo_changes_env_def)
  moreover have "demo_chain_header h \<noteq> None \<and> cr_zero cr = (0, 0)"
    if "ct_configuration_at demo_trie_storage (Hash h) = Ok cr" for h cr
    using that by (auto simp: demo_trie_storage_def split: if_splits)
  moreover have "height_of demo_queries 0 = 0" by (simp add: height_of_def demo_chain_header_def)
  moreover have "ce_queries demo_changes_env = demo_queries" "ce_trie_storage demo_changes_env = Some demo_trie_storage"
    by (simp_all add: demo_changes_env_def)
  ultimately show ?thesis
    using demo_header_tree unfolding trie_ranges_documented_def by fastforce
qed

lemma demo_require: "require_changes_trie demo_changes_env 1 2 True = Some (Ok (demo_trie_storage, [(0, None, [1])]))"
proof -
  have "ct_configuration_at demo_trie_storage (Hash 2) = Ok \<lparr>cr_zero = (0, 0), cr_end = None, cr_config = Some [1]\<rparr>"
    by (simp add: demo_trie_storage_def demo_chain_header_def)
  moreover have "ce_trie_storage demo_changes_env = Some demo_trie_storage" by (simp add: demo_changes_env_def)
  ultimately show ?thesis by (simp add: require_changes_trie_def require_loop.simps)
qed

theorem require_changes_trie_terminates_witness:
  "trie_ranges_documented demo_changes_env \<and> (\<exists>r. require_changes_trie demo_changes_env 0 2 True = Some r)"
  using require_changes_trie_terminates [OF demo_trie_documented] demo_trie_documented by blast

theorem configurations_descend_witness:
  "require_changes_trie demo_changes_env 1 2 True = Some (Ok (demo_trie_storage, [(0, None, [1])])) \<and>
   fst (last [(0 :: BlockNumber, None :: (BlockNumber \<times> H256) option, [1 :: u8])]) < 1"
  using configurations_descend [OF demo_trie_documented demo_require] demo_require by simp

theorem changes_proof_roots_witness:
  "\<exists>p. key_changes_proof_with_cht_size demo_changes_env 1 2 2 2 None [] 2048 = Some (Ok p) \<and>
     ch_roots p = [(1, 11)] \<and> ascending (ch_roots p)"
proof -
  let ?p = "\<lparr>ch_max_block = 2, ch_proof = [[7]], ch_roots = [(1, 11)], ch_roots_proof = []\<rparr>"
  have nums: "cq_expect_block_number_from_id (ce_queries demo_changes_env) (Hash 1) = Ok 1"
      "cq_expect_block_number_from_id (ce_queries demo_changes_env) (Hash 2) = Ok 2"
    by (simp_all add: demo_changes_env_def demo_queries_def)
  have "changes_proof_of demo_changes_env 1 2 2 2 None [] 2048 (demo_trie_storage, [(0, None, [1])]) = Ok ?p"
    by (simp add: changes_proof_of_def nums) (simp add: demo_changes_env_def demo_trie_storage_def
        chain_info_of_def demo_queries_def demo_client_backend_def pbind_def map_err_prog_def record_root_def
        changes_trie_roots_proof_def changes_trie_roots_proof_at_cht_def range_of_def)
  then have run: "key_changes_proof_with_cht_size demo_changes_env 1 2 2 2 None [] 2048 = Some (Ok ?p)"
    by (simp add: key_changes_proof_with_cht_size_def nums demo_require with_configs_def)
  from changes_proof_roots [OF run nums(2) nums(2)] have "ascending (ch_roots ?p)" by blast
  with run show ?thesis by auto
qed

end
