(* ===== verification/Client_New.thy ===== *)
theory Client_New
  imports Client_Queries
begin

text \<open>
  Making a client: the genesis block (\<open>client/service/src/client/genesis.rs\<close>), the constructor of the
  client (\<open>client.rs\<close>), and the functions that assemble a client from the configuration of the node
  (\<open>client/service/src/builder.rs\<close>). The database is the list of the operations committed to it.
\<close>

section \<open>Model\<close>

subsection \<open>Genesis\<close>

text \<open>What the construction needs: the headers the database has after the committed operations, the
  chain specification's storage, the root of a storage, and the root of an empty trie.\<close>

record genesis_env =
  ge_backend :: client_backend
  ge_header :: "op_action list list \<Rightarrow> BlockNumber \<Rightarrow> (blockchain_error, Header option) result"
  ge_build_storage :: "(string, GenesisStorage) result"
  ge_storage_root :: "GenesisStorage \<Rightarrow> H256"
  ge_empty_trie_root :: H256

definition construct_genesis_block :: "H256 \<Rightarrow> H256 \<Rightarrow> Block" where
  "construct_genesis_block empty_trie_root root =
     \<lparr>header = \<lparr>parent_hash = 0, number = 0, state_root = root, extrinsics_root = empty_trie_root, digest = []\<rparr>,
      extrinsics = []\<rparr>"

definition insert_genesis :: "genesis_env \<Rightarrow> unit client_prog" where
  "insert_genesis env =
     pbind (return_prog (map_err Storage (ge_build_storage env))) (\<lambda>genesis_storage.
     pbind (return_prog (cb_begin_operation (ge_backend env))) (\<lambda>_.
     pbind (modify_prog (\<lambda>c. c\<lparr>operation := empty_operation\<rparr>)) (\<lambda>_.
     pbind (op_request (ge_backend env) (Begin_state_operation (Hash 0))) (\<lambda>_.
     pbind (op_request (ge_backend env) (Reset_storage genesis_storage)) (\<lambda>_.
     pbind (op_request (ge_backend env) (Set_block_data
              (header (construct_genesis_block (ge_empty_trie_root env) (ge_storage_root env genesis_storage)))
              (Some []) None Final)) (\<lambda>_.
       commit_operation (ge_backend env)))))))"

text \<open>The constructor on a database: the client or the error, and the database afterwards.\<close>

definition client_new ::
  "genesis_env \<Rightarrow> ForkBlocks \<Rightarrow> BadBlocks \<Rightarrow> op_action list list \<Rightarrow>
     (blockchain_error, client) result \<times> op_action list list" where
  "client_new env fork_blocks bad_blocks cs =
     (case pbind (return_prog (ge_header env cs 0)) (\<lambda>hdr.
             if hdr = None then insert_genesis env else ret ())
           \<lparr>importing_block = None, block_rules = rules_new fork_blocks bad_blocks, client_notifies = notifies_new,
            operation = empty_operation, committed = cs\<rparr> of
        (Ok _, c) \<Rightarrow> (Ok (c\<lparr>operation := empty_operation\<rparr>), committed c)
      | (Err e, c) \<Rightarrow> (Err e, committed c)
      | (Panic w, c) \<Rightarrow> (Panic w, committed c))"

subsection \<open>The builder\<close>

record ClientConfig =
  offchain_worker_enabled :: bool
  offchain_indexing_api :: bool
  wasm_runtime_overrides :: "directory option"

definition new_client ::
  "(bytes \<Rightarrow> u64) \<Rightarrow> version_reader \<Rightarrow> genesis_env \<Rightarrow> ForkBlocks \<Rightarrow> BadBlocks \<Rightarrow> ClientConfig \<Rightarrow> op_action list list \<Rightarrow>
     (blockchain_error, (u32 \<rightharpoonup> WasmBlob) option \<times> client) result \<times> op_action list list" where
  "new_client hasher reader env fork_blocks bad_blocks config cs =
     (case call_executor_new hasher reader (wasm_runtime_overrides config) of
        Ok overrides \<Rightarrow>
          (case client_new (env\<lparr>ge_backend := (ge_backend env)\<lparr>cb_offchain_indexing_api := offchain_indexing_api config\<rparr>\<rparr>)
                  fork_blocks bad_blocks cs of
             (r, cs') \<Rightarrow> (map_ok (\<lambda>c. (overrides, c)) r, cs'))
      | Err e \<Rightarrow> (Err e, cs)
      | Panic w \<Rightarrow> (Panic w, cs))"

text \<open>The parts of the node's configuration that the builder reads. The extensions of the chain
  specification may be missing.\<close>

record Configuration =
  cf_task_manager :: "(string, unit) result"
  cf_fork_blocks :: "ForkBlocks option"
  cf_bad_blocks :: "BadBlocks option"
  cf_offchain_worker_enabled :: bool
  cf_offchain_indexing_enabled :: bool
  cf_wasm_runtime_overrides :: "directory option"

datatype node_error =
    Node_client blockchain_error
  | Node_prometheus string
  | Node_telemetry string
  | Node_io string
  | Node_network string
  | Node_other string

definition client_config_of :: "Configuration \<Rightarrow> ClientConfig" where
  "client_config_of config = \<lparr>offchain_worker_enabled = cf_offchain_worker_enabled config,
     offchain_indexing_api = cf_offchain_indexing_enabled config,
     wasm_runtime_overrides = cf_wasm_runtime_overrides config\<rparr>"

definition new_full_parts ::
  "(bytes \<Rightarrow> u64) \<Rightarrow> version_reader \<Rightarrow> genesis_env \<Rightarrow> Configuration \<Rightarrow> op_action list list \<Rightarrow>
     (node_error, (u32 \<rightharpoonup> WasmBlob) option \<times> client) result \<times> op_action list list" where
  "new_full_parts hasher reader env config cs =
     (case cf_task_manager config of
        Ok _ \<Rightarrow>
          (case new_client hasher reader env
                  (case cf_fork_blocks config of Some f \<Rightarrow> f | None \<Rightarrow> None)
                  (case cf_bad_blocks config of Some b \<Rightarrow> b | None \<Rightarrow> None)
                  (client_config_of config) cs of
             (r, cs') \<Rightarrow> (map_err Node_client r, cs'))
      | Err e \<Rightarrow> (Err (Node_prometheus e), cs)
      | Panic w \<Rightarrow> (Panic w, cs))"

definition new_full_client ::
  "(bytes \<Rightarrow> u64) \<Rightarrow> version_reader \<Rightarrow> genesis_env \<Rightarrow> Configuration \<Rightarrow> op_action list list \<Rightarrow>
     (node_error, client) result \<times> op_action list list" where
  "new_full_client hasher reader env config cs =
     (case new_full_parts hasher reader env config cs of (r, cs') \<Rightarrow> (map_ok snd r, cs'))"

section \<open>What is relied on\<close>

text \<open>A block 0 that an operation stores as final is found there once the operation is committed.\<close>

definition genesis_documented :: "genesis_env \<Rightarrow> bool" where
  "genesis_documented env \<longleftrightarrow>
     (\<forall>cs acts hdr body js. number hdr = 0 \<longrightarrow>
        ge_header env (cs @ [acts @ [Set_block_data hdr body js Final]]) 0 = Ok (Some hdr))"

section \<open>Lemmas\<close>

text \<open>The operation that makes the genesis block.\<close>

definition genesis_operation :: "genesis_env \<Rightarrow> GenesisStorage \<Rightarrow> op_action list" where
  "genesis_operation env st =
     [Begin_state_operation (Hash 0), Reset_storage st,
      Set_block_data (header (construct_genesis_block (ge_empty_trie_root env) (ge_storage_root env st))) (Some []) None Final]"

lemma op_request_cases:
  "op_request be a c = (case cb_accepts be a of
      Ok _ \<Rightarrow> (Ok (), c\<lparr>operation := (operation c)\<lparr>op_actions := op_actions (operation c) @ [a]\<rparr>\<rparr>)
    | Err e \<Rightarrow> (Err e, c) | Panic w \<Rightarrow> (Panic w, c))"
  by (simp add: op_request_def pbind_def split: result.split)

lemma insert_genesis_ok:
  assumes "insert_genesis env c = (Ok u, c')"
  obtains st where "ge_build_storage env = Ok st" "committed c' = committed c @ [genesis_operation env st]"
    "importing_block c' = importing_block c" "block_rules c' = block_rules c" "client_notifies c' = client_notifies c"
proof -
  from assms obtain st where "ge_build_storage env = Ok st"
    by (auto simp: insert_genesis_def pbind_eq_Ok map_err_eq_Ok)
  with assms that show thesis
    by (auto simp: insert_genesis_def pbind_eq_Ok op_request_cases commit_operation_def empty_operation_def
        genesis_operation_def split: result.splits)
qed

lemma op_request_committed [simp]: "committed (snd (op_request be a c)) = committed c"
  by (simp add: op_request_cases split: result.split)

text \<open>A program that either commits or fails.\<close>

lemma commits_or_fails_pbind:
  assumes "\<And>c. committed (snd (m c)) = committed c"
    and "\<And>x c. is_ok (fst (f x c)) \<or> committed (snd (f x c)) = committed c"
  shows "is_ok (fst (pbind m f c)) \<or> committed (snd (pbind m f c)) = committed c"
  using assms(1) [of c] by (auto simp: pbind_def split: prod.splits result.splits) (metis assms(2))

lemma insert_genesis_fails:
  "is_ok (fst (insert_genesis env c)) \<or> committed (snd (insert_genesis env c)) = committed c"
  unfolding insert_genesis_def
  by (intro commits_or_fails_pbind) (simp_all add: commit_operation_def split: result.split)

section \<open>Properties\<close>

text \<open>C25: making a client on a database without a genesis block commits exactly one operation, which
  resets the state to the storage of the chain specification and stores a final block 0 with no
  parent, no extrinsics and the root of that storage; on a database that has one nothing is
  committed. Either way block 0 is there afterwards, so making a client again changes nothing, whatever
  rules it is given.\<close>

theorem genesis_created_once:
  assumes "genesis_documented env" and "client_new env fork_blocks bad_blocks cs = (Ok c, cs')"
  shows "(if ge_header env cs 0 = Ok None
      then \<exists>st. ge_build_storage env = Ok st \<and> cs' = cs @ [genesis_operation env st] else cs' = cs) \<and>
    (\<exists>hdr. ge_header env cs' 0 = Ok (Some hdr)) \<and>
    (\<exists>c2. client_new env fork_blocks' bad_blocks' cs' = (Ok c2, cs')) \<and>
    committed c = cs' \<and> importing_block c = None \<and> client_notifies c = notifies_new \<and>
    block_rules c = rules_new fork_blocks bad_blocks"
proof -
  have restart: "\<exists>c2. client_new env fork_blocks' bad_blocks' cs' = (Ok c2, cs')" if "ge_header env cs' 0 = Ok (Some hdr)" for hdr
    using that by (simp add: client_new_def)
  show ?thesis
  proof (cases "ge_header env cs 0 = Ok None")
    case True
    let ?c = "\<lparr>importing_block = None, block_rules = rules_new fork_blocks bad_blocks, client_notifies = notifies_new,
      operation = empty_operation, committed = cs\<rparr>"
    from True assms(2) obtain u c1 where run: "insert_genesis env ?c = (Ok u, c1)"
      and c: "c = c1\<lparr>operation := empty_operation\<rparr>" "cs' = committed c1"
      by (auto simp: client_new_def split: prod.splits result.splits)
    from insert_genesis_ok [OF run] obtain st where st: "ge_build_storage env = Ok st"
      "cs' = cs @ [genesis_operation env st]" "importing_block c = None" "client_notifies c = notifies_new"
      "block_rules c = rules_new fork_blocks bad_blocks" "committed c = cs'"
      using c by auto
    let ?h = "header (construct_genesis_block (ge_empty_trie_root env) (ge_storage_root env st))"
    have "number ?h = 0" and "genesis_operation env st =
        [Begin_state_operation (Hash 0), Reset_storage st] @ [Set_block_data ?h (Some []) None Final]"
      by (simp_all add: construct_genesis_block_def genesis_operation_def)
    with assms(1) have "ge_header env cs' 0 = Ok (Some ?h)"
      unfolding st(2) genesis_documented_def by metis
    with restart True st show ?thesis by auto
  next
    case False
    with assms(2) obtain hdr where "ge_header env cs 0 = Ok (Some hdr)"
      by (cases "ge_header env cs 0") (auto simp: client_new_def pbind_def)
    with restart assms(2) show ?thesis by (auto simp: client_new_def)
  qed
qed

text \<open>When a client cannot be made from the node's configuration, be it the task manager, the
  overriding code, the genesis storage or the database that fails, nothing was committed to the
  database.\<close>

lemma failed_start_commits_nothing:
  assumes "new_full_client hasher reader env config cs = (r, cs')" and "\<not> is_ok r"
  shows "cs' = cs"
proof -
  have new: "is_ok (fst (client_new e f b cs)) \<or> snd (client_new e f b cs) = cs" for e f b
  proof -
    let ?c = "\<lparr>importing_block = None, block_rules = rules_new f b, client_notifies = notifies_new,
      operation = empty_operation, committed = cs\<rparr>"
    let ?m = "pbind (return_prog (ge_header e cs 0)) (\<lambda>hdr. if hdr = None then insert_genesis e else ret ())"
    have "is_ok (fst (?m ?c)) \<or> committed (snd (?m ?c)) = committed ?c"
      by (intro commits_or_fails_pbind) (simp_all add: insert_genesis_fails)
    then show ?thesis unfolding client_new_def by (auto split: prod.splits result.splits)
  qed
  have "is_ok (fst (new_client hasher reader env f b k cs)) \<or> snd (new_client hasher reader env f b k cs) = cs" for f b k
    using new [of "env\<lparr>ge_backend := (ge_backend env)\<lparr>cb_offchain_indexing_api := offchain_indexing_api k\<rparr>\<rparr>" f b]
    by (auto simp: new_client_def split: prod.splits result.splits)
  from this [of "case cf_fork_blocks config of Some f \<Rightarrow> f | None \<Rightarrow> None"
      "case cf_bad_blocks config of Some b \<Rightarrow> b | None \<Rightarrow> None" "client_config_of config"]
  show ?thesis
    using assms by (auto simp: new_full_client_def new_full_parts_def split: prod.splits result.splits)
qed

section \<open>A concrete database\<close>

text \<open>Block 0 is the header of the last final block 0 committed.\<close>

fun final_genesis :: "op_action \<Rightarrow> Header option" where
  "final_genesis (Set_block_data hdr body js st) = (if st = Final \<and> number hdr = 0 then Some hdr else None)"
| "final_genesis _ = None"

definition demo_genesis_storage :: GenesisStorage where
  "demo_genesis_storage = \<lparr>gs_top = [(CODE, [1])], gs_children_default = []\<rparr>"

definition demo_genesis_env :: genesis_env where
  "demo_genesis_env = \<lparr>ge_backend = demo_client_backend,
     ge_header = (\<lambda>cs n. Ok (foldl (\<lambda>found acts. case final_genesis (last acts) of Some h \<Rightarrow> Some h | None \<Rightarrow> found) None cs)),
     ge_build_storage = Ok demo_genesis_storage, ge_storage_root = (\<lambda>_. 8), ge_empty_trie_root = 7\<rparr>"

lemma demo_genesis_documented: "genesis_documented demo_genesis_env"
  by (simp add: genesis_documented_def demo_genesis_env_def)

lemma demo_client_new:
  obtains c where "client_new demo_genesis_env None None [] = (Ok c, [genesis_operation demo_genesis_env demo_genesis_storage])"
proof -
  have "\<exists>c. client_new demo_genesis_env None None [] = (Ok c, [genesis_operation demo_genesis_env demo_genesis_storage])"
    by (simp add: client_new_def insert_genesis_def demo_genesis_env_def demo_client_backend_def op_request_def
        commit_operation_def genesis_operation_def empty_operation_def pbind_def)
  with that show thesis by blast
qed

theorem genesis_created_once_witness:
  "\<exists>c c2 cs'. client_new demo_genesis_env None None [] = (Ok c, cs') \<and> length cs' = 1 \<and>
     client_new demo_genesis_env None (Some {5}) cs' = (Ok c2, cs')"
proof -
  obtain c where run: "client_new demo_genesis_env None None [] =
      (Ok c, [genesis_operation demo_genesis_env demo_genesis_storage])"
    by (rule demo_client_new)
  from genesis_created_once [OF demo_genesis_documented run, of None "Some {5}"] run show ?thesis by force
qed

end
