(* ===== verification/Client_Session.thy ===== *)
theory Client_Session
  imports Client_New
begin

text \<open>
  A client over its lifetime: made on a database, then asked to import and finalize blocks, to write
  auxiliary data, to revert and to subscribe, in any order and with any outcome. What it commits to the
  database has a fixed shape.
\<close>

section \<open>Requests\<close>

datatype client_request =
    Import_request BlockImportParams bytes
  | Finalize_request BlockId "Justification option" bool
  | Aux_request "(bytes \<times> bytes) list" "bytes list"
  | Revert_request BlockNumber bool
  | Subscribe_imports
  | Subscribe_finality

text \<open>The client after a request, whatever the request returned.\<close>

fun client_request_run :: "chain_queries \<Rightarrow> client_request \<Rightarrow> client \<Rightarrow> client" where
  "client_request_run q (Import_request ib new_cache) c = snd (import_block (cq_backend q) ib new_cache c)"
| "client_request_run q (Finalize_request bid justification notify) c =
     snd (finalize_block (cq_backend q) bid justification notify c)"
| "client_request_run q (Aux_request ins del) c = snd (insert_aux q ins del c)"
| "client_request_run q (Revert_request n blacklist) c = snd (unsafe_revert (cq_backend q) n blacklist c)"
| "client_request_run q Subscribe_imports c = snd (import_notification_stream c)"
| "client_request_run q Subscribe_finality c = snd (finality_notification_stream c)"

text \<open>A session: every request comes with what the database answers while it is served. The answers may
  differ from request to request in any way; in a real session they reflect what was committed before.\<close>

definition session_run :: "(chain_queries \<times> client_request) list \<Rightarrow> client \<Rightarrow> client" where
  "session_run session c = fold (\<lambda>(q, r). client_request_run q r) session c"

section \<open>Well-formed operations\<close>

fun is_block_data :: "op_action \<Rightarrow> bool" where
  "is_block_data (Set_block_data _ _ _ _) = True"
| "is_block_data _ = False"

fun is_begin_state :: "op_action \<Rightarrow> bool" where
  "is_begin_state (Begin_state_operation _) = True"
| "is_begin_state _ = False"

fun is_state_update :: "op_action \<Rightarrow> bool" where
  "is_state_update (Reset_storage _) = True"
| "is_state_update (Update_cache _) = True"
| "is_state_update (Update_offchain_storage _) = True"
| "is_state_update (Update_db_storage _) = True"
| "is_state_update (Update_storage _ _) = True"
| "is_state_update (Update_transaction_index _) = True"
| "is_state_update (Update_changes_trie _) = True"
| "is_state_update _ = False"

text \<open>An operation stores at most one block, and touches the state only once it has said on which state
  it works.\<close>

definition well_formed_op :: "op_action list \<Rightarrow> bool" where
  "well_formed_op acts \<longleftrightarrow> length (filter is_block_data acts) \<le> 1 \<and>
     (\<forall>a \<in> set (takeWhile (\<lambda>a. \<not> is_begin_state a) acts). \<not> is_state_update a)"

section \<open>Lemmas\<close>

text \<open>Programs that only append actions of a kind to the operation.\<close>

definition appends :: "(op_action \<Rightarrow> bool) \<Rightarrow> 'a client_prog \<Rightarrow> bool" where
  "appends P m \<longleftrightarrow> (\<forall>c. \<exists>more. op_actions (operation (snd (m c))) = op_actions (operation c) @ more \<and> list_all P more)"

lemma appends_return [intro, simp]: "appends P (return_prog r)"
  by (simp add: appends_def)

lemma appends_Pair [simp]: "appends P (Pair r)"
  by (simp add: appends_def)

lemma appends_modify:
  "(\<And>c. \<exists>more. op_actions (operation (f c)) = op_actions (operation c) @ more \<and> list_all P more) \<Longrightarrow> appends P (modify_prog f)"
  by (simp add: appends_def)

lemma appends_request [intro]: "P a \<Longrightarrow> appends P (op_request be a)"
  by (auto simp: appends_def op_request_cases split: result.split)

lemma appends_pbind [intro]:
  assumes "appends P m" and "\<And>x. appends P (f x)"
  shows "appends P (pbind m f)"
  unfolding appends_def
proof
  fix c
  obtain r d where m: "m c = (r, d)" by fastforce
  with assms(1) obtain xs where xs: "op_actions (operation d) = op_actions (operation c) @ xs" "list_all P xs"
    by (metis appends_def snd_conv)
  show "\<exists>more. op_actions (operation (snd (pbind m f c))) = op_actions (operation c) @ more \<and> list_all P more"
  proof (cases r)
    case (Ok x)
    obtain ys where "op_actions (operation (snd (f x d))) = op_actions (operation d) @ ys" "list_all P ys"
      using assms(2) [of x] unfolding appends_def by blast
    with m xs Ok show ?thesis by (auto simp: pbind_def intro!: exI [of _ "xs @ ys"])
  qed (use m xs in \<open>auto simp: pbind_def\<close>)
qed

lemma appends_for_each [intro]: "(\<And>x. appends P (f x)) \<Longrightarrow> appends P (for_each_prog f xs)"
  by (induction xs) auto

lemma appendsD:
  "appends P m \<Longrightarrow> m c = (r, d) \<Longrightarrow> \<exists>more. op_actions (operation d) = op_actions (operation c) @ more \<and> list_all P more"
  unfolding appends_def by (metis snd_conv)

abbreviation no_block :: "op_action \<Rightarrow> bool" where
  "no_block a \<equiv> \<not> is_block_data a"

fun is_mark :: "op_action \<Rightarrow> bool" where
  "is_mark (Mark_head _) = True"
| "is_mark (Mark_finalized _ _) = True"
| "is_mark _ = False"

lemma is_mark_simple [simp]: "is_mark a \<Longrightarrow> no_block a \<and> \<not> is_state_update a"
  by (cases a) simp_all

lemma appends_mono: "appends P m \<Longrightarrow> (\<And>a. P a \<Longrightarrow> Q a) \<Longrightarrow> appends Q m"
  unfolding appends_def by (metis list.pred_mono_strong)

lemma finality_marks: "appends is_mark (apply_finality_with_block_hash be blk j b n)"
  unfolding apply_finality_with_block_hash_def finalize_route_def push_finalized_def
  by (auto intro!: appends_pbind appends_for_each appends_request appends_modify)

lemma enact_shape:
  assumes "enact_storage_changes be p f n k sc c = (Ok x, c')"
  shows "\<exists>more. op_actions (operation c') = op_actions (operation c) @ more \<and> list_all no_block more \<and>
    (more = [] \<or> is_begin_state (hd more))"
proof (cases sc)
  case None
  with assms show ?thesis by (auto simp: enact_storage_changes_def)
next
  case (Some ch)
  define rest where "rest = pbind (if f then apply_finality_with_block_hash be p None (best_hash (cb_info be)) n else ret ()) (\<lambda>_.
          pbind (modify_prog (\<lambda>c. c\<lparr>operation := (operation c)\<lparr>op_actions :=
                   op_actions (operation c) @ [Update_cache k]\<rparr>\<rparr>)) (\<lambda>_.
          pbind (if cb_offchain_indexing_api be then op_request be (Update_offchain_storage (ic_offchain ch)) else ret ()) (\<lambda>_.
          pbind (op_request be (Update_db_storage (ic_transaction ch))) (\<lambda>_.
          pbind (op_request be (Update_storage (ic_main ch) (ic_child ch))) (\<lambda>_.
          pbind (op_request be (Update_transaction_index (ic_transaction_index ch))) (\<lambda>_.
          pbind (case ic_changes_trie ch of
                   Some t \<Rightarrow> op_request be (Update_changes_trie t) | None \<Rightarrow> ret ()) (\<lambda>_.
            ret (Some (ic_main ch, ic_child ch)))))))))"
  have rest: "appends no_block rest"
    unfolding rest_def
    by (auto intro!: appends_pbind appends_request appends_modify appends_mono [OF finality_marks]
        simp del: pbind_modify split: option.split)
  from assms obtain c1 where c1: "op_request be (Begin_state_operation (Hash p)) c = (Ok (), c1)" "rest c1 = (Ok x, c')"
    unfolding enact_storage_changes_def Some rest_def by (auto simp: pbind_eq_Ok [of "op_request be (Begin_state_operation (Hash p))"])
  from appendsD [OF rest c1(2)] c1(1) show ?thesis by (force simp: op_request_Ok)
qed

text \<open>What a locked run leaves behind: nothing new, or the committed operation and what sending its
  notifications made of the subscribers.\<close>

lemma lock_run_effect:
  assumes "only_operation f" and c': "c' = snd (lock_import_and_run be f c)"
  shows "committed c' = committed c \<and> client_notifies c' = client_notifies c \<or>
    (\<exists>x c1 d. f (c\<lparr>operation := empty_operation\<rparr>) = (Ok x, c1) \<and> committed c' = committed c @ [op_actions (operation c1)] \<and>
       operation d = operation c1 \<and> client_notifies d = client_notifies c \<and>
       client_notifies c' = client_notifies (snd (send_notifications be d)))"
proof -
  let ?c0 = "c\<lparr>operation := empty_operation\<rparr>"
  let ?F = "\<lambda>d. (committed d, client_notifies d)"
  obtain q c1 where q: "f ?c0 = (q, c1)" by fastforce
  have c1: "?F c1 = ?F c" using only_operationD [OF assms(1) q] by simp
  have sent: "preserves (\<lambda>d. committed d = X) (on_notifies m)" for X and m :: "(notifies, blockchain_error, unit) prog"
    by (rule preserves_zoom [where J = "\<lambda>_. True"]) (simp_all add: preserves_def)
  have "preserves (\<lambda>d. committed d = X) (send_notifications be)" for X
    unfolding send_notifications_def by (intro preserves_pbind preserves_gets sent)
  then have n: "committed (snd (send_notifications be d)) = committed d" for d by (auto simp: preserves_def)
  have fin: "?F (snd (case m of (Ok a, c') \<Rightarrow> (Ok a, c'\<lparr>importing_block := None\<rparr>)
      | (Err e, c') \<Rightarrow> (Err e, c'\<lparr>importing_block := None\<rparr>) | (Panic w, c') \<Rightarrow> (Panic w, c'))) = ?F (snd m)" for m :: "(blockchain_error, 'a) result \<times> client"
    by (simp split: prod.split result.split)
  define tail where "tail = (\<lambda>r :: 'a. pbind (commit_operation be) (\<lambda>_. pbind (send_notifications be) (\<lambda>_. ret r)))"
  define sent where "sent = (\<lambda>d. snd (send_notifications be (d\<lparr>committed := committed d @ [op_actions (operation d)]\<rparr>)))"
  have tail: "?F (snd (tail r d)) = ?F d \<or>
      ?F (snd (tail r d)) = (committed d @ [op_actions (operation d)], client_notifies (sent d))" for r d
    unfolding tail_def commit_operation_def sent_def
    using n [of "d\<lparr>committed := committed d @ [op_actions (operation d)]\<rparr>"]
    by (auto simp: pbind_def split: result.split prod.split)
  define m where "m = ?F (snd (pbind (return_prog (cb_begin_operation be)) (\<lambda>_. pbind (modify_prog (\<lambda>c. c\<lparr>operation := empty_operation\<rparr>)) (\<lambda>_. pbind f tail)) c))"
  have eq: "?F c' = m"
    unfolding lock_import_and_run_def tail_def fin c' m_def ..
  have "m = ?F c \<or> (\<exists>x. q = Ok x \<and> m = (committed c1 @ [op_actions (operation c1)], client_notifies (sent c1)))"
  proof (cases "is_ok (cb_begin_operation be) \<and> is_ok q")
    case True
    then obtain u x where "cb_begin_operation be = Ok u" "q = Ok x"
      by (cases "cb_begin_operation be"; cases q) simp_all
    with tail [of x c1] q c1 show ?thesis by (simp add: pbind_def m_def)
  next
    case False
    with q c1 show ?thesis unfolding m_def by (cases "cb_begin_operation be"; cases q) (simp_all add: pbind_def)
  qed
  then show ?thesis
    unfolding eq [symmetric]
  proof (elim disjE exE conjE)
    fix x
    assume "q = Ok x" "?F c' = (committed c1 @ [op_actions (operation c1)], client_notifies (sent c1))"
    with q c1 show ?thesis
      by (intro disjI2 exI [of _ x] exI [of _ c1] exI [of _ "c1\<lparr>committed := committed c1 @ [op_actions (operation c1)]\<rparr>"])
        (simp add: sent_def)
  qed simp
qed

lemma lock_run_committed:
  assumes "only_operation f"
  shows "committed (snd (lock_import_and_run be f c)) = committed c \<or>
    (\<exists>x c1. f (c\<lparr>operation := empty_operation\<rparr>) = (Ok x, c1) \<and>
       committed (snd (lock_import_and_run be f c)) = committed c @ [op_actions (operation c1)])"
  using lock_run_effect [OF assms refl, of be c] by blast

lemma well_formed_import:
  assumes "list_all no_block acts" and "acts = [] \<or> is_begin_state (hd acts)"
  shows "well_formed_op (acts @ [Set_block_data h b j st, Insert_aux aux])"
proof -
  have "filter is_block_data acts = []" using assms(1) by (simp add: filter_empty_conv list_all_iff)
  moreover have "takeWhile (\<lambda>a. \<not> is_begin_state a) (acts @ [Set_block_data h b j st, Insert_aux aux]) =
      (if acts = [] then [Set_block_data h b j st, Insert_aux aux] else [])"
    using assms(2) by (cases acts) auto
  ultimately show ?thesis by (auto simp: well_formed_op_def)
qed

lemma well_formed_marks: "list_all is_mark acts \<Longrightarrow> well_formed_op acts"
  by (auto simp: well_formed_op_def list_all_iff filter_empty_conv dest!: set_takeWhileD)

lemma apply_block_well_formed:
  assumes "apply_block be ib k (c\<lparr>operation := empty_operation\<rparr>) = (Ok r, c1)"
  shows "well_formed_op (op_actions (operation c1))"
proof -
  let ?c = "\<lambda>h. c\<lparr>operation := empty_operation, importing_block := Some h\<rparr>"
  from assms obtain h hs fork where run: "execute_and_import_block be ib h hs fork k (?c h) = (Ok r, c1)"
    by (auto simp: apply_block_def Let_def pbind_eq_Ok split: if_splits)
  show ?thesis
  proof (cases "op_actions (operation c1) = []")
    case True
    then show ?thesis by (simp add: well_formed_op_def)
  next
    case False
    then obtain changed c2 where en: "enact_storage_changes be (parent_hash (post hs)) (ip_finalized ib)
          (make_notifications (ip_origin ib)) k (ip_storage_changes ib) (?c h) = (Ok changed, c2)"
      and set: "set_imported_block be ib h (post hs) fork changed c2 = (Ok r, c1)"
      using run
      by (cases "cb_status be h")
        (auto simp: execute_and_import_block_def Let_def pbind_def [of "return_prog _"] pbind_eq_Ok
          empty_operation_def split: if_splits)
    from enact_shape [OF en] obtain more where "op_actions (operation c2) = more" "list_all no_block more"
      "more = [] \<or> is_begin_state (hd more)" by (auto simp: empty_operation_def)
    with set_imported_block_Ok [OF set] show ?thesis by (simp add: well_formed_import)
  qed
qed

lemma finality_well_formed:
  assumes "apply_finality be bid j n (c\<lparr>operation := empty_operation\<rparr>) = (Ok u, c1)"
  shows "well_formed_op (op_actions (operation c1))"
proof -
  have "appends is_mark (apply_finality be bid j n)"
    unfolding apply_finality_def by (intro appends_pbind appends_return finality_marks)
  from appendsD [OF this assms] show ?thesis by (auto simp: empty_operation_def intro: well_formed_marks)
qed

lemma request_keeps_well_formed:
  assumes "list_all well_formed_op (committed c)"
  shows "list_all well_formed_op (committed (client_request_run q r c))"
proof (cases r)
  case (Import_request ib k)
  show ?thesis
  proof (cases "prepare_block_storage_changes (cq_backend q) c ib")
    case (Ok p)
    obtain res ib' where p: "p = (res, ib')" by fastforce
    show ?thesis
      using lock_run_committed [OF only_apply_block [of "cq_backend q" ib' k], of "cq_backend q" c] assms Import_request Ok p
      by (cases res) (auto simp: import_block_def dest: apply_block_well_formed)
  qed (use assms Import_request in \<open>simp_all add: import_block_def\<close>)
next
  case (Finalize_request bid j n)
  then show ?thesis
    using lock_run_committed [OF only_apply_finality [of "cq_backend q" bid j n], of "cq_backend q" c] assms
    by (auto simp: finalize_block_def dest: finality_well_formed)
next
  case (Aux_request ins del)
  then show ?thesis
    using lock_run_committed [OF only_request [of "cq_backend q" "Insert_aux (cq_apply_aux q ins del)"], of "cq_backend q" c] assms
    by (auto simp: insert_aux_def op_request_Ok empty_operation_def well_formed_op_def)
next
  case (Revert_request n b)
  then show ?thesis using assms
    by (auto simp: unsafe_revert_def pbind_def split: result.split prod.split)
qed (use assms in \<open>simp_all add: import_notification_stream_def finality_notification_stream_def\<close>)

section \<open>Properties\<close>

text \<open>C16: whatever a client is asked for after it was made, whatever the database answers to each request
  (it may have changed with every commit before), and whether the requests succeed or fail, every
  operation the client commits is well formed: it stores at most one block, and it updates the state only
  after it has begun on the state of some block. The operation that stores genesis is no exception.\<close>

theorem operations_well_formed:
  assumes "client_new env fork_blocks bad_blocks cs = (Ok c, cs')" and "list_all well_formed_op cs"
  shows "list_all well_formed_op (committed (session_run session c))"
proof -
  have gen: "well_formed_op (genesis_operation env st)" for st
    by (simp add: genesis_operation_def well_formed_op_def)
  let ?c = "\<lparr>importing_block = None, block_rules = rules_new fork_blocks bad_blocks, client_notifies = notifies_new,
    operation = empty_operation, committed = cs\<rparr>"
  have "list_all well_formed_op (committed c)"
  proof (cases "ge_header env cs 0 = Ok None")
    case True
    with assms(1) obtain u c1 where run: "insert_genesis env ?c = (Ok u, c1)" and c: "committed c = committed c1"
      by (auto simp: client_new_def split: prod.splits result.splits)
    from insert_genesis_ok [OF run] obtain st where "committed c1 = cs @ [genesis_operation env st]" by auto
    with c assms(2) gen show ?thesis by simp
  next
    case False
    with assms have "committed c = cs" by (cases "ge_header env cs 0") (auto simp: client_new_def pbind_def)
    with assms(2) show ?thesis by simp
  qed
  then show ?thesis
    unfolding session_run_def
    by (induction session arbitrary: c) (auto simp: request_keeps_well_formed)
qed

text \<open>A session over a database that knows block 6 once it has been imported.\<close>

theorem operations_well_formed_witness:
  "\<exists>c. client_new demo_genesis_env None None [] = (Ok c, [genesis_operation demo_genesis_env demo_genesis_storage]) \<and>
     list_all well_formed_op (committed (session_run
       (let later = demo_queries\<lparr>cq_backend := demo_client_backend\<lparr>cb_status := \<lambda>_. Ok InChain\<rparr>\<rparr> in
        [(demo_queries, Import_request demo_import []), (later, Import_request demo_import []),
         (later, Finalize_request (Number 5) None True), (later, Aux_request [([1], [2])] []), (later, Revert_request 1 True)]) c))"
proof -
  obtain c where run: "client_new demo_genesis_env None None [] =
      (Ok c, [genesis_operation demo_genesis_env demo_genesis_storage])"
    by (rule demo_client_new)
  have "list_all well_formed_op (committed (session_run
       (let later = demo_queries\<lparr>cq_backend := demo_client_backend\<lparr>cb_status := \<lambda>_. Ok InChain\<rparr>\<rparr> in
        [(demo_queries, Import_request demo_import []), (later, Import_request demo_import []),
         (later, Finalize_request (Number 5) None True), (later, Aux_request [([1], [2])] []), (later, Revert_request 1 True)]) c))"
    by (rule operations_well_formed [OF run]) simp
  with run show ?thesis by blast
qed

end
