(* ===== verification/Client_Finality.thy ===== *)
theory Client_Finality
  imports Client_Session
begin

text \<open>
  Finality over the life of a client: what the operations it commits say about finalized blocks, read in
  the order of the commits, is one chain from genesis on.
\<close>

section \<open>Model\<close>

text \<open>The blocks an operation finalizes, in order; a block stored as final is identified by its hash.\<close>

fun finals_of :: "(Header \<Rightarrow> H256) \<Rightarrow> op_action \<Rightarrow> H256 list" where
  "finals_of hash (Mark_finalized (Hash h) _) = [h]"
| "finals_of hash (Set_block_data hdr _ _ Final) = [hash hdr]"
| "finals_of hash _ = []"

definition finals :: "(Header \<Rightarrow> H256) \<Rightarrow> op_action list \<Rightarrow> H256 list" where
  "finals hash acts = concat (map (finals_of hash) acts)"

definition finalized_history :: "(Header \<Rightarrow> H256) \<Rightarrow> op_action list list \<Rightarrow> H256 list" where
  "finalized_history hash cs = concat (map (finals hash) cs)"

text \<open>The database answers according to the operations committed to it; a request is served on the
  database as it is then.\<close>

definition serve :: "(op_action list list \<Rightarrow> chain_queries) \<Rightarrow> client_request \<Rightarrow> client \<Rightarrow> client" where
  "serve db r c = client_request_run (db (committed c)) r c"

text \<open>The headers that operations stored. A block is a child of another when a header was stored that hashes
  to the one and names the other as its parent.\<close>

fun stored_header :: "op_action \<Rightarrow> Header list" where
  "stored_header (Set_block_data hdr _ _ _) = [hdr]"
| "stored_header _ = []"

definition stored_headers :: "op_action list list \<Rightarrow> Header list" where
  "stored_headers cs = concat (map stored_header (concat cs))"

definition child_of :: "(Header \<Rightarrow> H256) \<Rightarrow> op_action list list \<Rightarrow> H256 \<Rightarrow> H256 \<Rightarrow> bool" where
  "child_of hash cs a b \<longleftrightarrow> (\<exists>hdr \<in> set (stored_headers cs). hash hdr = b \<and> parent_hash hdr = a)"

section \<open>Chains of blocks\<close>

primrec path :: "(H256 \<Rightarrow> H256 \<Rightarrow> bool) \<Rightarrow> H256 \<Rightarrow> H256 list \<Rightarrow> H256 \<Rightarrow> bool" where
  "path child a [] b \<longleftrightarrow> a = b"
| "path child a (x # xs) b \<longleftrightarrow> child a x \<and> path child x xs b"

definition chained :: "(H256 \<Rightarrow> H256 \<Rightarrow> bool) \<Rightarrow> H256 list \<Rightarrow> bool" where
  "chained child hs \<longleftrightarrow> successively child hs"

lemma path_mono: "path child a xs b \<Longrightarrow> (\<And>x y. child x y \<Longrightarrow> child' x y) \<Longrightarrow> path child' a xs b"
  by (induction xs arbitrary: a) auto

lemma path_snoc: "path child a xs p \<Longrightarrow> child p b \<Longrightarrow> path child a (xs @ [b]) b"
  by (induction xs arbitrary: a) auto

lemma chained_mono: "chained child hs \<Longrightarrow> (\<And>x y. child x y \<Longrightarrow> child' x y) \<Longrightarrow> chained child' hs"
  unfolding chained_def by (rule successively_mono)

lemma child_of_append: "child_of hash cs a b \<Longrightarrow> child_of hash (cs @ ds) a b"
  by (auto simp: child_of_def stored_headers_def)

lemma path_chained:
  "path child a xs b \<Longrightarrow> chained child (hs @ [a]) \<Longrightarrow> chained child (hs @ a # xs) \<and> last (a # xs) = b"
proof (induction xs arbitrary: hs a)
  case (Cons x xs)
  then have "chained child ((hs @ [a]) @ [x])" by (simp add: chained_def successively_append_iff)
  with Cons.IH [of x "hs @ [a]"] Cons.prems show ?case by simp
qed simp

lemma chained_path:
  assumes "chained child hs" and "hs \<noteq> []" and "path child (last hs) xs b"
  shows "chained child (hs @ xs) \<and> last (hs @ xs) = b \<and> hd (hs @ xs) = hd hs"
proof -
  obtain ys a where hs: "hs = ys @ [a]" using assms(2) by (cases hs rule: rev_cases) auto
  then have "path child a xs b" "chained child (ys @ [a])" using assms(1,3) by simp_all
  from path_chained [OF this] show ?thesis unfolding hs by (cases ys) auto
qed

section \<open>What is relied on\<close>

text \<open>Documented behaviour of the database that holds what was committed: a route without retracted blocks
  leads from parent to child over stored headers; the last finalized block is the last one that a
  committed operation finalized. The hash function is any function: blocks may share a parent.\<close>

definition route_documented :: "(H256 \<Rightarrow> H256 \<Rightarrow> bool) \<Rightarrow> client_backend \<Rightarrow> bool" where
  "route_documented child be \<longleftrightarrow> (\<forall>a b route. cb_tree_route be a b = Ok route \<longrightarrow> retracted route = [] \<longrightarrow>
     enacted route \<noteq> [] \<longrightarrow> path child a (enacted route) (last (enacted route)))"

definition db_documented :: "(Header \<Rightarrow> H256) \<Rightarrow> (op_action list list \<Rightarrow> chain_queries) \<Rightarrow> bool" where
  "db_documented hash db \<longleftrightarrow>
     (\<forall>cs. route_documented (child_of hash cs) (cq_backend (db cs)) \<and> cb_header_hash (cq_backend (db cs)) = hash \<and>
       (\<forall>lf. cb_last_finalized (cq_backend (db cs)) = Ok lf \<longrightarrow> finalized_history hash cs \<noteq> [] \<longrightarrow>
          lf = last (finalized_history hash cs)))"

text \<open>Requests that leave finality to the client: no revert, and a block that is imported as final comes
  with what its state changes are computed from.\<close>

fun keeps_finality :: "client_request \<Rightarrow> bool" where
  "keeps_finality (Import_request ib _) \<longleftrightarrow>
     (ip_finalized ib \<longrightarrow> \<not> ip_allow_missing_state ib \<and> (ip_body ib \<noteq> None \<or> ip_storage_changes ib \<noteq> None))"
| "keeps_finality (Revert_request _ _) \<longleftrightarrow> False"
| "keeps_finality _ \<longleftrightarrow> True"

section \<open>Lemmas\<close>

lemma finals_append [simp]: "finals hash (xs @ ys) = finals hash xs @ finals hash ys"
  by (simp add: finals_def)

lemma finals_simps [simp]: "finals hash [] = []" "finals hash (a # acts) = finals_of hash a @ finals hash acts"
  by (simp_all add: finals_def)

lemma history_snoc [simp]: "finalized_history hash (cs @ [acts]) = finalized_history hash cs @ finals hash acts"
  by (simp add: finalized_history_def)

lemma finals_none: "list_all (\<lambda>a. finals_of hash a = []) acts \<Longrightarrow> finals hash acts = []"
  by (induction acts) simp_all

lemma finals_marks: "finals hash (map (\<lambda>h. Mark_finalized (Hash h) None) hs) = hs"
  by (induction hs) simp_all

text \<open>Finalizing a block adds the route from the last finalized one.\<close>

lemma apply_finality_finals:
  assumes run: "apply_finality_with_block_hash be blk j best n c = (Ok (), c')"
    and doc: "route_documented child be" and lf: "\<And>l. cb_last_finalized be = Ok l \<Longrightarrow> l = lf"
  shows "\<exists>xs. finals hash (op_actions (operation c')) = finals hash (op_actions (operation c)) @ xs \<and> path child lf xs blk"
proof -
  have "cb_last_finalized be = Ok lf"
    using run lf by (cases "cb_last_finalized be") (auto simp: apply_finality_with_block_hash_def pbind_def)
  show ?thesis
  proof (cases "blk = lf")
    case True
    with run \<open>cb_last_finalized be = Ok lf\<close> show ?thesis
      by (intro exI [of _ "[]"]) (simp add: apply_finality_with_block_hash_def)
  next
    case False
    from apply_finality_Ok [OF run \<open>cb_last_finalized be = Ok lf\<close> False] obtain route head where
      r: "cb_tree_route be lf blk = Ok route" "retracted route = []" "enacted route \<noteq> []" "last (enacted route) = blk"
        "head \<in> {[], [Mark_head (Hash blk)]}" and
      ops: "op_actions (operation c') = op_actions (operation c) @ head @
        map (\<lambda>h. Mark_finalized (Hash h) None) (butlast (enacted route)) @ [Mark_finalized (Hash blk) j]"
      by blast
    have "finals hash head = []" using r(5) by auto
    then have "finals hash (op_actions (operation c')) = finals hash (op_actions (operation c)) @ enacted route"
      using r(3,4) by (simp add: ops finals_marks flip: r(4))
    moreover have "path child lf (enacted route) blk"
      using doc r(1-4) unfolding route_documented_def by metis
    ultimately show ?thesis by blast
  qed
qed

abbreviation not_final :: "op_action \<Rightarrow> bool" where
  "not_final a \<equiv> \<forall>hash. finals_of hash a = []"

lemma enact_finals:
  assumes run: "enact_storage_changes be p fin n k (Some sc) c = (Ok x, c')"
    and doc: "route_documented child be" and lf: "\<And>l. cb_last_finalized be = Ok l \<Longrightarrow> l = lf"
  shows "\<exists>xs. finals hash (op_actions (operation c')) = finals hash (op_actions (operation c)) @ xs \<and>
    (if fin then path child lf xs p else xs = [])"
proof -
  define rest where "rest = pbind (modify_prog (\<lambda>c. c\<lparr>operation := (operation c)\<lparr>op_actions :=
                   op_actions (operation c) @ [Update_cache k]\<rparr>\<rparr>)) (\<lambda>_.
          pbind (if cb_offchain_indexing_api be then op_request be (Update_offchain_storage (ic_offchain sc)) else ret ()) (\<lambda>_.
          pbind (op_request be (Update_db_storage (ic_transaction sc))) (\<lambda>_.
          pbind (op_request be (Update_storage (ic_main sc) (ic_child sc))) (\<lambda>_.
          pbind (op_request be (Update_transaction_index (ic_transaction_index sc))) (\<lambda>_.
          pbind (case ic_changes_trie sc of
                   Some t \<Rightarrow> op_request be (Update_changes_trie t) | None \<Rightarrow> ret ()) (\<lambda>_.
            ret (Some (ic_main sc, ic_child sc))))))))"
  have rest: "appends not_final rest"
    unfolding rest_def
    by (auto intro!: appends_pbind appends_request appends_modify simp del: pbind_modify split: option.split)
  have "pbind (op_request be (Begin_state_operation (Hash p))) (\<lambda>_.
      pbind (if fin then apply_finality_with_block_hash be p None (best_hash (cb_info be)) n else ret ()) (\<lambda>_. rest)) c = (Ok x, c')"
    using run by (simp add: enact_storage_changes_def rest_def)
  then obtain c1 c2 where c1: "op_request be (Begin_state_operation (Hash p)) c = (Ok (), c1)"
    and c2: "(if fin then apply_finality_with_block_hash be p None (best_hash (cb_info be)) n else ret ()) c1 = (Ok (), c2)"
    and c': "rest c2 = (Ok x, c')"
    by (auto simp: pbind_eq_Ok)
  have "finals hash (op_actions (operation c1)) = finals hash (op_actions (operation c))"
    using c1 by (auto simp: op_request_Ok)
  moreover have "finals hash (op_actions (operation c')) = finals hash (op_actions (operation c2))"
    using appendsD [OF rest c'] finals_none [of hash] by (auto simp: list_all_iff)
  moreover have "\<exists>xs. finals hash (op_actions (operation c2)) = finals hash (op_actions (operation c1)) @ xs \<and>
      (if fin then path child lf xs p else xs = [])"
    using c2 apply_finality_finals [OF _ doc lf, of p None "best_hash (cb_info be)" n c1 c2 hash] by (cases fin) auto
  ultimately show ?thesis by simp
qed

text \<open>What an acknowledged import finalizes: nothing, or the route to its parent and then itself.\<close>

lemma set_imported_finals:
  assumes "set_imported_block be ib h hdr fork sc c = (Ok r, c')"
  shows "finals hash (op_actions (operation c')) =
    finals hash (op_actions (operation c)) @ (if ip_finalized ib then [hash hdr] else [])"
  using set_imported_block_Ok [OF assms] by (simp add: leaf_state_def)

lemma set_imported_stores:
  assumes "set_imported_block be ib h hdr fork sc c = (Ok r, c')"
  shows "hdr \<in> set (stored_headers (cs @ [op_actions (operation c')]))"
  using set_imported_block_Ok [OF assms] by (simp add: stored_headers_def)

lemma apply_block_finals:
  assumes run: "apply_block be ib k (c\<lparr>operation := empty_operation\<rparr>) = (Ok r, c1)"
    and doc: "route_documented (child_of hash cs) be" "cb_header_hash be = hash"
    and lf: "\<And>l. cb_last_finalized be = Ok l \<Longrightarrow> l = lf"
    and state: "ip_finalized ib \<Longrightarrow> ip_storage_changes ib \<noteq> None"
  shows "finals hash (op_actions (operation c1)) = [] \<or>
    (\<exists>b. path (child_of hash (cs @ [op_actions (operation c1)])) lf (finals hash (op_actions (operation c1))) b)"
proof -
  let ?c = "\<lambda>h. c\<lparr>operation := empty_operation, importing_block := Some h\<rparr>"
  let ?child = "child_of hash (cs @ [op_actions (operation c1)])"
  from run obtain h hs fork where run: "execute_and_import_block be ib h hs fork k (?c h) = (Ok r, c1)"
    by (auto simp: apply_block_def Let_def pbind_eq_Ok split: if_splits)
  show ?thesis
  proof (cases "op_actions (operation c1) = []")
    case False
    then obtain changed c2 where en: "enact_storage_changes be (parent_hash (post hs)) (ip_finalized ib)
          (make_notifications (ip_origin ib)) k (ip_storage_changes ib) (?c h) = (Ok changed, c2)"
      and set: "set_imported_block be ib h (post hs) fork changed c2 = (Ok r, c1)"
      using run
      by (cases "cb_status be h")
        (auto simp: execute_and_import_block_def Let_def pbind_def [of "return_prog _"] pbind_eq_Ok
          empty_operation_def split: if_splits)
    note fin = set_imported_finals [OF set, of hash]
    show ?thesis
    proof (cases "ip_finalized ib")
      case True
      with state obtain sc where sc: "ip_storage_changes ib = Some sc" by blast
      from enact_finals [OF en [unfolded sc] doc(1) lf, of hash] True obtain xs where
        xs: "finals hash (op_actions (operation c2)) = xs" "path (child_of hash cs) lf xs (parent_hash (post hs))"
        by (auto simp: empty_operation_def)
      have "?child (parent_hash (post hs)) (hash (post hs))"
        using set_imported_stores [OF set] by (auto simp: child_of_def)
      moreover have "path ?child lf xs (parent_hash (post hs))"
        using xs(2) child_of_append by (rule path_mono)
      ultimately have "path ?child lf (xs @ [hash (post hs)]) (hash (post hs))" by (intro path_snoc)
      with True fin xs(1) show ?thesis by auto
    next
      case False
      have "finals hash (op_actions (operation c2)) = []"
        using en enact_finals [OF _ doc(1) lf, of "parent_hash (post hs)" "ip_finalized ib" _ k _ "?c h" changed c2 hash] False
        by (cases "ip_storage_changes ib") (auto simp: empty_operation_def enact_storage_changes_def [of _ _ _ _ _ None])
      with False fin show ?thesis by simp
    qed
  qed simp
qed

lemma prepared_state:
  assumes "prepare_block_storage_changes be c ib = Ok (None, ib')"
    and "ip_finalized ib \<Longrightarrow> \<not> ip_allow_missing_state ib \<and> (ip_body ib \<noteq> None \<or> ip_storage_changes ib \<noteq> None)"
  shows "ip_finalized ib' \<Longrightarrow> ip_storage_changes ib' \<noteq> None"
  using assms
  by (auto simp: prepare_block_storage_changes_def Let_def and_then_case
      split: result.splits BlockStatus.splits if_splits option.splits)

definition final_chain :: "(Header \<Rightarrow> H256) \<Rightarrow> H256 \<Rightarrow> op_action list list \<Rightarrow> bool" where
  "final_chain hash g cs \<longleftrightarrow> finalized_history hash cs \<noteq> [] \<and> hd (finalized_history hash cs) = g \<and>
     chained (child_of hash cs) (finalized_history hash cs)"

lemma final_chain_commit:
  assumes "final_chain hash g cs"
    and "finals hash acts = [] \<or> (\<exists>b. path (child_of hash (cs @ [acts])) (last (finalized_history hash cs)) (finals hash acts) b)"
  shows "final_chain hash g (cs @ [acts])"
proof -
  have "chained (child_of hash (cs @ [acts])) (finalized_history hash cs)"
    using assms(1) chained_mono child_of_append unfolding final_chain_def by metis
  with assms chained_path [of "child_of hash (cs @ [acts])" "finalized_history hash cs" "finals hash acts"] show ?thesis
    by (auto simp: final_chain_def)
qed

lemma serve_keeps_chain:
  assumes doc: "db_documented hash db" and inv: "final_chain hash g (committed c)" and req: "keeps_finality r"
  shows "final_chain hash g (committed (serve db r c))"
proof -
  let ?q = "db (committed c)"
  let ?be = "cq_backend ?q"
  have be: "route_documented (child_of hash (committed c)) ?be" "cb_header_hash ?be = hash"
    "\<And>l. cb_last_finalized ?be = Ok l \<Longrightarrow> l = last (finalized_history hash (committed c))"
    using doc inv by (auto simp: db_documented_def final_chain_def)
  show ?thesis
  proof (cases r)
    case (Import_request ib k)
    show ?thesis
    proof (cases "prepare_block_storage_changes ?be c ib")
      case (Ok p)
      obtain res ib' where p: "p = (res, ib')" by fastforce
      show ?thesis
      proof (cases res)
        case None
        note prep = Ok [unfolded p None]
        have state: "ip_finalized ib' \<Longrightarrow> ip_storage_changes ib' \<noteq> None"
          using prepared_state [OF prep] req Import_request by simp
        have run: "committed (serve db r c) = committed (snd (lock_import_and_run ?be (apply_block ?be ib' k) c))"
          using prep Import_request by (simp add: serve_def import_block_def)
        from lock_run_committed [OF only_apply_block [of ?be ib' k], of ?be c] show ?thesis
        proof (elim disjE exE conjE)
          fix x c1
          assume ap: "apply_block ?be ib' k (c\<lparr>operation := empty_operation\<rparr>) = (Ok x, c1)"
            and com: "committed (snd (lock_import_and_run ?be (apply_block ?be ib' k) c)) = committed c @ [op_actions (operation c1)]"
          from final_chain_commit [OF inv apply_block_finals [OF ap be state]] show ?thesis
            unfolding run com .
        qed (use inv run in simp)
      next
        case (Some _)
        with Ok p inv Import_request show ?thesis by (simp add: serve_def import_block_def)
      qed
    qed (use inv Import_request in \<open>simp_all add: serve_def import_block_def\<close>)
  next
    case (Finalize_request bid j n)
    have run: "committed (serve db r c) = committed (snd (lock_import_and_run ?be (apply_finality ?be bid j n) c))"
      using Finalize_request by (simp add: serve_def finalize_block_def)
    from lock_run_committed [OF only_apply_finality [of ?be bid j n], of ?be c] show ?thesis
    proof (elim disjE exE conjE)
      fix x c1
      assume ap: "apply_finality ?be bid j n (c\<lparr>operation := empty_operation\<rparr>) = (Ok x, c1)"
        and com: "committed (snd (lock_import_and_run ?be (apply_finality ?be bid j n) c)) = committed c @ [op_actions (operation c1)]"
      from ap obtain blk where "apply_finality_with_block_hash ?be blk j (best_hash (cb_info ?be)) n
          (c\<lparr>operation := empty_operation\<rparr>) = (Ok (), c1)"
        by (cases "cb_expect_block_hash_from_id ?be bid") (auto simp: apply_finality_def pbind_def)
      from apply_finality_finals [OF this be(1,3), of hash] show ?thesis
        unfolding run com by (intro final_chain_commit [OF inv]) (auto simp: empty_operation_def intro: path_mono child_of_append)
    qed (use inv run in simp)
  next
    case (Aux_request ins del)
    have aux: "finals hash (op_actions (operation c1)) = []"
      if "op_request ?be (Insert_aux (cq_apply_aux ?q ins del)) (c\<lparr>operation := empty_operation\<rparr>) = (Ok x, c1)" for x c1
      using that by (simp add: op_request_Ok empty_operation_def)
    from lock_run_committed [OF only_request [of ?be "Insert_aux (cq_apply_aux ?q ins del)"], of ?be c] show ?thesis
      using inv Aux_request aux final_chain_commit [OF inv] by (auto simp: serve_def insert_aux_def)
  next
    case (Revert_request n b)
    with req show ?thesis by simp
  qed (use inv in \<open>simp_all add: serve_def import_notification_stream_def finality_notification_stream_def\<close>)
qed

text \<open>A client made on an empty database has genesis for its chain.\<close>

lemma new_client_chain:
  assumes "client_new env fork_blocks bad_blocks [] = (Ok c, cs)" and "ge_header env [] 0 = Ok None"
  shows "\<exists>st. final_chain hash
    (hash (header (construct_genesis_block (ge_empty_trie_root env) (ge_storage_root env st)))) (committed c)"
proof -
  let ?c = "\<lparr>importing_block = None, block_rules = rules_new fork_blocks bad_blocks, client_notifies = notifies_new,
    operation = empty_operation, committed = []\<rparr>"
  from assms obtain u c1 where run: "insert_genesis env ?c = (Ok u, c1)" and c: "committed c = committed c1"
    by (auto simp: client_new_def split: prod.splits result.splits)
  from insert_genesis_ok [OF run] obtain st where st: "committed c1 = [genesis_operation env st]" by auto
  show ?thesis
    by (intro exI [of _ st]) (simp add: c st final_chain_def finalized_history_def genesis_operation_def chained_def)
qed

section \<open>A concrete database\<close>

text \<open>A database that finds its answers in what was committed, with hashes that number a tree of blocks: the
  children of block h are 2h + 1 and 2h + 2. A route climbs from its end over stored headers.\<close>

definition tree_hash :: "Header \<Rightarrow> H256" where
  "tree_hash hdr = 2 * parent_hash hdr + (if digest hdr = [] then 1 else 2)"

fun climb :: "(Header \<Rightarrow> H256) \<Rightarrow> Header list \<Rightarrow> nat \<Rightarrow> H256 \<Rightarrow> H256 \<Rightarrow> H256 list option" where
  "climb hash hs 0 a b = (if a = b then Some [] else None)"
| "climb hash hs (Suc k) a b =
     (if a = b then Some []
      else case find (\<lambda>hdr. hash hdr = b) hs of
             None \<Rightarrow> None
           | Some hdr \<Rightarrow> map_option (\<lambda>xs. xs @ [b]) (climb hash hs k a (parent_hash hdr)))"

definition climbed_route :: "(Header \<Rightarrow> H256) \<Rightarrow> Header list \<Rightarrow> H256 \<Rightarrow> H256 \<Rightarrow> (blockchain_error, TreeRoute) result" where
  "climbed_route hash hs a b =
     (case (climb hash hs (length hs) a b, climb hash hs (length hs) b a) of
        (Some up, _) \<Rightarrow> Ok \<lparr>retracted = [], common_block = a, enacted = up\<rparr>
      | (None, Some down) \<Rightarrow> Ok \<lparr>retracted = rev down, common_block = b, enacted = []\<rparr>
      | (None, None) \<Rightarrow> Err (UnknownBlock b))"

definition demo_db :: "op_action list list \<Rightarrow> chain_queries" where
  "demo_db cs = demo_queries\<lparr>cq_backend := demo_client_backend
     \<lparr>cb_header_hash := tree_hash,
      cb_last_finalized := (let fs = finalized_history tree_hash cs in Ok (if fs = [] then 0 else last fs)),
      cb_info := (cb_info demo_client_backend)\<lparr>best_hash := (if stored_headers cs = [] then 0 else tree_hash (last (stored_headers cs)))\<rparr>,
      cb_expect_block_hash_from_id := (\<lambda>b. case b of Hash h \<Rightarrow> Ok h | Number n \<Rightarrow> Ok (ucast n)),
      cb_header_after := (\<lambda>acts h. Ok (find (\<lambda>hdr. tree_hash hdr = h) (stored_headers (cs @ [acts])))),
      cb_tree_route := climbed_route tree_hash (stored_headers cs)\<rparr>\<rparr>"

lemma climb_path:
  "climb hash (stored_headers cs) k a b = Some xs \<Longrightarrow> path (child_of hash cs) a xs b"
proof (induction k arbitrary: b xs)
  case (Suc k)
  show ?case
  proof (cases "a = b")
    case False
    with Suc.prems obtain hdr ys where hdr: "find (\<lambda>hdr. hash hdr = b) (stored_headers cs) = Some hdr"
      and ys: "climb hash (stored_headers cs) k a (parent_hash hdr) = Some ys" "xs = ys @ [b]"
      by (auto split: option.splits)
    have "child_of hash cs (parent_hash hdr) b"
      using hdr by (auto simp: child_of_def find_Some_iff)
    with Suc.IH [OF ys(1)] show ?thesis unfolding ys(2) by (intro path_snoc)
  qed (use Suc.prems in simp)
qed (auto split: if_splits)

lemma path_last: "path child a xs b \<Longrightarrow> xs \<noteq> [] \<Longrightarrow> last xs = b"
  by (induction xs arbitrary: a) auto

lemma demo_db_documented: "db_documented tree_hash demo_db"
proof -
  have "path (child_of tree_hash cs) a (enacted route) (last (enacted route))"
    if "climbed_route tree_hash (stored_headers cs) a b = Ok route" "enacted route \<noteq> []" for cs a b route
  proof -
    from that have up: "climb tree_hash (stored_headers cs) (length (stored_headers cs)) a b = Some (enacted route)"
      by (auto simp: climbed_route_def split: option.splits)
    from climb_path [OF this] path_last [OF climb_path [OF up] that(2)] show ?thesis by simp
  qed
  then have "route_documented (child_of tree_hash cs) (cq_backend (demo_db cs))" for cs
    by (simp add: route_documented_def demo_db_def)
  then show ?thesis by (auto simp: db_documented_def demo_db_def Let_def)
qed

text \<open>Two children of genesis (block 1) are imported, 3 and 4, and block 9 on the second; then 9 is finalized.\<close>

definition tree_import :: "H256 \<Rightarrow> DigestItem list \<Rightarrow> BlockImportParams" where
  "tree_import p d = demo_import\<lparr>ip_header := (demo_import_header 4)\<lparr>parent_hash := p\<rparr>, ip_post_digests := d, ip_body := None\<rparr>"

abbreviation tree_header :: "H256 \<Rightarrow> DigestItem list \<Rightarrow> Header" where
  "tree_header p d \<equiv> (demo_import_header 4)\<lparr>parent_hash := p, digest := d\<rparr>"

definition tree_requests :: "client_request list" where
  "tree_requests = [Import_request (tree_import 1 []) [], Import_request (tree_import 1 [[1]]) [],
     Import_request (tree_import 4 []) [], Finalize_request (Hash 9) None True]"

definition demo_new_client :: client where
  "demo_new_client = \<lparr>importing_block = None, block_rules = rules_new None None, client_notifies = notifies_new,
     operation = empty_operation, committed = [genesis_operation demo_genesis_env demo_genesis_storage]\<rparr>"

lemma demo_new_client: "client_new demo_genesis_env None None [] =
    (Ok demo_new_client, [genesis_operation demo_genesis_env demo_genesis_storage])"
  by (simp add: client_new_def insert_genesis_def demo_genesis_env_def demo_client_backend_def op_request_def
      commit_operation_def genesis_operation_def empty_operation_def pbind_def demo_new_client_def)

abbreviation finality_sinks :: "client \<Rightarrow> FinalityNotification sink list" where
  "finality_sinks c \<equiv> finality_notification_sinks (client_notifies c)"

lemma tree_import_simps:
  "ip_header (tree_import p ds) = tree_header p []" "ip_post_digests (tree_import p ds) = ds"
  "ip_body (tree_import p ds) = None" "ip_storage_changes (tree_import p ds) = None"
  "ip_justifications (tree_import p ds) = None" "\<not> ip_finalized (tree_import p ds)"
  "ip_auxiliary (tree_import p ds) = []" "ip_fork_choice (tree_import p ds) = Some LongestChain"
  "ip_intermediates (tree_import p ds) = []" "\<not> ip_import_existing (tree_import p ds)"
  "ip_origin (tree_import p ds) = NetworkBroadcast"
  by (simp_all add: tree_import_def demo_import_def demo_import_header_def)

lemma notify_imported_finality [simp]:
  "finality_notification_sinks (snd (notify_imported i n)) = finality_notification_sinks n"
  by (auto simp: notify_imported_def split: option.split)

lemma tree_import_served:
  assumes "importing_block c = None"
  shows "let d = serve demo_db (Import_request (tree_import p ds) []) c in
     importing_block d = None \<and> finality_sinks d = retain_open (finality_sinks c) \<and>
     committed d = committed c @ [[Set_block_data (tree_header p ds) None None Normal, Insert_aux []]]"
proof -
  let ?ib = "tree_import p ds"
  define be where "be = cq_backend (demo_db (committed c))"
  have be: "cb_number be h = Ok (Some (ucast h))" "cb_have_state_at be h n" "cb_status be h = Ok Unknown_in_chain"
    "finalized_number (cb_info be) = 3" "best_number (cb_info be) = 5" "cb_accepts be a = Ok ()"
    "cb_begin_operation be = Ok ()" "cb_commit_operation be acts = Ok ()" for h n a acts
    by (simp_all add: be_def demo_db_def demo_client_backend_def)
  have prep: "prepare_block_storage_changes be c ?ib = Ok (None, ?ib)"
    using assms by (simp add: prepare_block_storage_changes_def block_status_def be tree_import_simps)
  have num: "number (demo_import_header 4) = 4" "digest (demo_import_header 4) = []" by (simp_all add: demo_import_header_def)
  have "\<exists>c1. apply_block be ?ib [] (c\<lparr>operation := empty_operation\<rparr>) = (Ok (Imported False), c1) \<and>
    op_actions (operation c1) = [Set_block_data (tree_header p ds) None None Normal, Insert_aux []] \<and>
    op_notify_finalized (operation c1) = [] \<and> client_notifies c1 = client_notifies c \<and> committed c1 = committed c"
    by (cases "ds = []") (simp_all add: apply_block_def execute_and_import_block_def enact_storage_changes_def
        set_imported_block_def op_request_def is_new_best_def make_notifications_def empty_operation_def leaf_state_def
        be tree_import_simps num Let_def pbind_def)
  then obtain c1 where c1: "apply_block be ?ib [] (c\<lparr>operation := empty_operation\<rparr>) = (Ok (Imported False), c1)"
    "op_actions (operation c1) = [Set_block_data (tree_header p ds) None None Normal, Insert_aux []]"
    "op_notify_finalized (operation c1) = []" "client_notifies c1 = client_notifies c" "committed c1 = committed c"
    by blast
  obtain n' where n': "notify_imported (op_notify_imported (operation c1))
      (client_notifies c \<lparr>finality_notification_sinks := retain_open (finality_sinks c)\<rparr>) = (Ok (), n')"
    by (rule notify_imported_total)
  from notify_imported_finality [of "op_notify_imported (operation c1)"
      "client_notifies c \<lparr>finality_notification_sinks := retain_open (finality_sinks c)\<rparr>"]
  have "finality_notification_sinks n' = retain_open (finality_sinks c)" by (simp add: n')
  with c1 n' show ?thesis
    by (simp add: serve_def import_block_def prep map_err_prog_def lock_import_and_run_def pbind_def be
        commit_operation_def send_notifications_def zoom_def notify_finalized_def flip: be_def)
qed

definition tree_commits :: "op_action list list" where
  "tree_commits = committed demo_new_client @
     map (\<lambda>(p, ds). [Set_block_data (tree_header p ds) None None Normal, Insert_aux []]) [(1, []), (1, [[1]]), (4, [])]"

lemma tree_stored:
  "stored_headers tree_commits = [header (construct_genesis_block 7 8), tree_header 1 [], tree_header 1 [[1]], tree_header 4 []]"
  by (simp add: tree_commits_def stored_headers_def demo_new_client_def genesis_operation_def demo_genesis_env_def)

lemma tree_hashes:
  "map tree_hash (stored_headers tree_commits) = [1, 3, 4, 9]" "finalized_history tree_hash tree_commits = [1]"
proof -
  show "map tree_hash (stored_headers tree_commits) = [1, 3, 4, 9]"
    by (simp add: tree_stored tree_hash_def construct_genesis_block_def)
  show "finalized_history tree_hash tree_commits = [1]"
    by (simp add: tree_commits_def tree_hash_def construct_genesis_block_def finalized_history_def
        demo_new_client_def genesis_operation_def demo_genesis_env_def)
qed

lemma tree_routes:
  "climbed_route tree_hash (stored_headers tree_commits) 1 9 = Ok \<lparr>retracted = [], common_block = 1, enacted = [4, 9]\<rparr>"
  "climbed_route tree_hash (stored_headers tree_commits) 9 9 = Ok \<lparr>retracted = [], common_block = 9, enacted = []\<rparr>"
  by (simp_all add: climbed_route_def tree_stored tree_hash_def construct_genesis_block_def)

abbreviation tree_final :: "H256 \<Rightarrow> DigestItem list \<Rightarrow> FinalityNotification" where
  "tree_final p ds \<equiv> \<lparr>fn_header = tree_header p ds, fn_hash = tree_hash (tree_header p ds)\<rparr>"

lemma tree_finalize_served:
  assumes "committed c = tree_commits" and "list_all (\<lambda>s. \<not> is_closed s) (finality_sinks c)"
  shows "let d = serve demo_db (Finalize_request (Hash 9) None True) c in
     finality_sinks d = map (\<lambda>s. s\<lparr>inbox := inbox s @ [tree_final 1 [[1]], tree_final 4 []]\<rparr>) (finality_sinks c) \<and>
     committed d = tree_commits @ [[Mark_finalized (Hash 4) None, Mark_finalized (Hash 9) None]]"
proof -
  define be where "be = cq_backend (demo_db tree_commits)"
  have be: "cb_last_finalized be = Ok 1" "cb_tree_route be 1 9 = Ok \<lparr>retracted = [], common_block = 1, enacted = [4, 9]\<rparr>"
    "best_hash (cb_info be) = 9" "cb_tree_route be 9 9 = Ok \<lparr>retracted = [], common_block = 9, enacted = []\<rparr>"
    "cb_begin_operation be = Ok ()" "cb_accepts be a = Ok ()" "cb_commit_operation be acts = Ok ()"
    "cb_expect_block_hash_from_id be (Hash h) = Ok h" for a acts h
    by (simp_all add: be_def demo_db_def demo_client_backend_def tree_routes tree_hashes(2))
       (simp add: tree_stored tree_hash_def)
  have "cb_header_after be acts h = Ok (find (\<lambda>hdr. tree_hash hdr = h) (stored_headers (tree_commits @ [acts])))" for acts h
    by (simp add: be_def demo_db_def)
  then have after: "cb_header_after be acts 4 = Ok (Some (tree_header 1 [[1]]))"
    "cb_header_after be acts 9 = Ok (Some (tree_header 4 []))" for acts
    using tree_stored by (simp_all add: stored_headers_def tree_hash_def construct_genesis_block_def)
  have sinks: "retain_open (finality_sinks c) = finality_sinks c"
    using assms(2) by (simp add: retain_open_def list_all_iff filter_id_conv)
  have sent: "retain_send n (map (\<lambda>s. s\<lparr>inbox := inbox s @ xs\<rparr>) (finality_sinks c)) =
      map (\<lambda>s. s\<lparr>inbox := inbox s @ xs @ [n]\<rparr>) (finality_sinks c)" for n xs
    using assms(2) by (simp add: retain_send_open retain_open_def list_all_iff filter_id_conv)
  have "serve demo_db (Finalize_request (Hash 9) None True) c = snd (finalize_block be (Hash 9) None True c)"
    by (simp add: serve_def assms(1) be_def)
  moreover have "tree_hash (tree_header 1 [[1]]) = 4" "tree_hash (tree_header 4 []) = 9" by (simp_all add: tree_hash_def)
  ultimately show ?thesis
    using sent [of _ "[]"] sent [of _ "[\<lparr>fn_header = tree_header 1 [[1]], fn_hash = 4\<rparr>]"]
    by (simp add: finalize_block_def lock_import_and_run_def apply_finality_def apply_finality_with_block_hash_def be after
        finalize_route_def push_finalized_def op_request_def commit_operation_def send_notifications_def notify_finalized_def
        empty_operation_def MAX_TO_NOTIFY_def pbind_def zoom_def notify_imported_def assms(1))
qed

lemma tree_run:
  assumes "importing_block c = None" and "committed c = committed demo_new_client"
    and "list_all (\<lambda>s. \<not> is_closed s) (finality_sinks c)"
  shows "let d = fold (serve demo_db) tree_requests c in
     finality_sinks d = map (\<lambda>s. s\<lparr>inbox := inbox s @ [tree_final 1 [[1]], tree_final 4 []]\<rparr>) (finality_sinks c) \<and>
     finalized_history tree_hash (committed d) = [1, 4, 9] \<and>
     child_of tree_hash (committed d) 1 3 \<and> child_of tree_hash (committed d) 1 4"
proof -
  have open': "retain_open (finality_sinks c) = finality_sinks c"
    using assms(3) by (simp add: retain_open_def list_all_iff filter_id_conv)
  define c1 where "c1 = serve demo_db (Import_request (tree_import 1 []) []) c"
  define c2 where "c2 = serve demo_db (Import_request (tree_import 1 [[1]]) []) c1"
  define c3 where "c3 = serve demo_db (Import_request (tree_import 4 []) []) c2"
  have 1: "importing_block c1 = None" "finality_sinks c1 = finality_sinks c"
    using tree_import_served [OF assms(1), of 1 "[]"] by (simp_all add: c1_def open' Let_def)
  have 2: "importing_block c2 = None" "finality_sinks c2 = finality_sinks c"
    using tree_import_served [OF 1(1), of 1 "[[1]]"] by (simp_all add: c2_def open' 1(2) Let_def)
  have 3: "finality_sinks c3 = finality_sinks c"
    using tree_import_served [OF 2(1), of 4 "[]"] by (simp_all add: c3_def open' 2(2) Let_def)
  have com: "committed c3 = tree_commits"
    using tree_import_served [OF assms(1), of 1 "[]"] tree_import_served [OF 1(1), of 1 "[[1]]"]
      tree_import_served [OF 2(1), of 4 "[]"]
    by (simp add: tree_commits_def assms(2) Let_def flip: c1_def c2_def c3_def)
  have "fold (serve demo_db) tree_requests c = serve demo_db (Finalize_request (Hash 9) None True) c3"
    by (simp add: tree_requests_def c1_def c2_def c3_def)
  moreover have "child_of tree_hash (tree_commits @ ds) 1 3" "child_of tree_hash (tree_commits @ ds) 1 4" for ds
    by (rule child_of_append, simp add: child_of_def tree_stored tree_hash_def)+
  ultimately show ?thesis
    using tree_finalize_served [OF com] assms(3) by (simp add: Let_def 3 tree_hashes)
qed

lemma demo_final_import:
  "\<exists>c'. import_block (demo_client_backend\<lparr>cb_have_state_at := \<lambda>_ _. False\<rparr>)
     (demo_import\<lparr>ip_origin := NetworkInitialSync, ip_finalized := True, ip_allow_missing_state := True\<rparr>) [] demo_client = (Ok (Imported True), c')"
proof -
  let ?be = "demo_client_backend\<lparr>cb_have_state_at := \<lambda>_ _. False\<rparr>"
  let ?ib = "demo_import\<lparr>ip_origin := NetworkInitialSync, ip_finalized := True, ip_allow_missing_state := True\<rparr>"
  have prep: "prepare_block_storage_changes ?be demo_client ?ib = Ok (None, ?ib)"
    by (simp add: prepare_block_storage_changes_def block_status_def demo_import_defs)
  have "\<exists>c1. apply_block ?be ?ib [] (demo_client\<lparr>operation := empty_operation\<rparr>) = (Ok (Imported True), c1) \<and>
      op_notify_finalized (operation c1) = []"
    by (simp add: apply_block_def execute_and_import_block_def enact_storage_changes_def set_imported_block_def
        op_request_def is_new_best_def make_notifications_def empty_operation_def demo_import_defs Let_def pbind_def)
  then obtain c1 where c1: "apply_block ?be ?ib [] (demo_client\<lparr>operation := empty_operation\<rparr>) = (Ok (Imported True), c1)"
    "op_notify_finalized (operation c1) = []" by blast
  have be: "cb_begin_operation ?be = Ok ()" "cb_commit_operation ?be a = Ok ()" for a
    by (simp_all add: demo_client_backend_def)
  obtain n' where "notify_imported (op_notify_imported (operation c1))
      (client_notifies c1 \<lparr>finality_notification_sinks := retain_open (finality_notification_sinks (client_notifies c1))\<rparr>) = (Ok (), n')"
    by (rule notify_imported_total)
  with c1 be show ?thesis
    by (simp add: import_block_def prep map_err_prog_def lock_import_and_run_def pbind_def
        commit_operation_def send_notifications_def zoom_def notify_finalized_def)
qed

section \<open>Properties\<close>

text \<open>C14: finality never forks over the life of a client, whatever forks its database holds. Started on an
  empty database and asked for anything but a revert, with any outcome, the blocks that its committed
  operations finalize form, in the order of the commits, one chain: it begins with genesis, and every
  block is followed by a child of it, that is, by the hash of a header the client stored with that
  parent. Blocks imported as final must come with what their state changes are computed from.\<close>

theorem finality_is_one_chain:
  assumes "client_new env fork_blocks bad_blocks [] = (Ok c, cs)" and "ge_header env [] 0 = Ok None"
    and "db_documented hash db" and "list_all keeps_finality requests"
  shows "\<exists>st. final_chain hash
    (hash (header (construct_genesis_block (ge_empty_trie_root env) (ge_storage_root env st))))
    (committed (fold (serve db) requests c))"
proof -
  obtain st where "final_chain hash
      (hash (header (construct_genesis_block (ge_empty_trie_root env) (ge_storage_root env st)))) (committed c)"
    using new_client_chain [OF assms(1,2)] by blast
  then have "final_chain hash
      (hash (header (construct_genesis_block (ge_empty_trie_root env) (ge_storage_root env st))))
      (committed (fold (serve db) requests c))"
    using assms(4) by (induction requests arbitrary: c) (simp_all add: serve_keeps_chain [OF assms(3)])
  then show ?thesis ..
qed

theorem finality_is_one_chain_witness:
  "\<exists>c g. client_new demo_genesis_env None None [] = (Ok c, [genesis_operation demo_genesis_env demo_genesis_storage]) \<and>
     db_documented tree_hash demo_db \<and>
     final_chain tree_hash g (committed (fold (serve demo_db) tree_requests c)) \<and>
     finalized_history tree_hash (committed (fold (serve demo_db) tree_requests c)) = [1, 4, 9] \<and>
     child_of tree_hash (committed (fold (serve demo_db) tree_requests c)) 1 3"
proof -
  have hdr: "ge_header demo_genesis_env [] 0 = Ok None" by (simp add: demo_genesis_env_def)
  have req: "list_all keeps_finality tree_requests"
    by (simp add: tree_requests_def tree_import_simps)
  have "importing_block demo_new_client = None" "list_all (\<lambda>s. \<not> is_closed s) (finality_sinks demo_new_client)"
    by (simp_all add: demo_new_client_def notifies_new_def)
  from tree_run [OF this(1) refl this(2)]
    finality_is_one_chain [OF demo_new_client hdr demo_db_documented req] demo_new_client demo_db_documented
  show ?thesis by (auto simp: Let_def)
qed

text \<open>C32: the order of finality has a hole. A block that is imported as final on a parent whose state was
  pruned is stored as final without finalizing its ancestors first: nothing else is in the operation, however
  far back the last finalized block is.\<close>

theorem final_without_state_skips:
  assumes "import_block be ib k c = (Ok (Imported b), c')" and "ip_finalized ib"
    and "block_status be c (Hash (parent_hash (ip_header ib))) = Ok InChainPruned"
    and "hdr = (ip_header ib)\<lparr>digest := digest (ip_header ib) @ ip_post_digests ib\<rparr>"
  shows "committed c' = committed c @
    [[Set_block_data hdr (ip_body ib) (ip_justifications ib) Final, Insert_aux (ip_auxiliary ib)]]"
proof -
  have prep: "ip_allow_missing_state ib \<and> prepare_block_storage_changes be c ib = Ok (None, ib\<lparr>ip_storage_changes := None\<rparr>)"
    using assms(1,3) by (auto simp: import_block_def prepare_block_storage_changes_def Let_def split: if_splits)
  then have run: "lock_import_and_run be (apply_block be (ib\<lparr>ip_storage_changes := None\<rparr>) k) c = (Ok (Imported b), c')"
    using assms(1) by (auto simp: import_block_def map_err_prog_def split: prod.splits result.splits)
  show ?thesis
  proof (cases rule: lock_run_cases [OF run only_apply_block])
    case (2 x c1)
    let ?ib = "ib\<lparr>ip_storage_changes := None\<rparr>"
    let ?hs = "if ip_post_digests ib = [] then Same (ip_header ib) else Different (ip_header ib) hdr"
    have hdr: "post ?hs = hdr" by (simp add: assms(4))
    from 2 obtain fork h where ex: "execute_and_import_block be ?ib h ?hs fork k
        (c\<lparr>operation := empty_operation, importing_block := Some h\<rparr>) = (Ok (Imported b), c1)"
      by (auto simp: apply_block_def pbind_eq_Ok Let_def assms(4) split: if_splits)
    then obtain status where "pbind (enact_storage_changes be (parent_hash hdr) True (make_notifications (ip_origin ib))
        k None) (set_imported_block be ?ib h hdr fork) (c\<lparr>operation := empty_operation, importing_block := Some h\<rparr>) = (Ok (Imported b), c1)"
      by (cases "cb_status be h")
        (auto simp: execute_and_import_block_def Let_def hdr assms(2) pbind_def [of "return_prog _"] split: if_splits)
    then have "set_imported_block be ?ib h hdr fork None (c\<lparr>operation := empty_operation, importing_block := Some h\<rparr>) = (Ok (Imported b), c1)"
      by (simp add: enact_storage_changes_def)
    from set_imported_block_Ok [OF this] 2 show ?thesis
      by (simp add: empty_operation_def leaf_state_def assms(2))
  qed auto
qed

theorem final_without_state_skips_witness:
  "\<exists>c'. import_block (demo_client_backend\<lparr>cb_have_state_at := \<lambda>_ _. False\<rparr>)
       (demo_import\<lparr>ip_origin := NetworkInitialSync, ip_finalized := True, ip_allow_missing_state := True\<rparr>) [] demo_client = (Ok (Imported True), c') \<and>
     committed c' = [[Set_block_data ((demo_import_header 6)\<lparr>digest := [[1]]\<rparr>) (Some []) None Final, Insert_aux []]] \<and>
     cb_last_finalized demo_client_backend = Ok 3 \<and> parent_hash (demo_import_header 6) = 5"
proof -
  let ?be = "demo_client_backend\<lparr>cb_have_state_at := \<lambda>_ _. False\<rparr>"
  let ?ib = "demo_import\<lparr>ip_origin := NetworkInitialSync, ip_finalized := True, ip_allow_missing_state := True\<rparr>"
  have parent: "block_status ?be demo_client (Hash (parent_hash (ip_header ?ib))) = Ok InChainPruned"
    by (simp add: block_status_def demo_import_defs)
  obtain c' where run: "import_block ?be ?ib [] demo_client = (Ok (Imported True), c')"
    using demo_final_import by blast
  have "ip_finalized ?ib" by simp
  from final_without_state_skips [OF run this parent refl] run show ?thesis
    by (auto simp: demo_import_defs)
qed

end
