(* ===== verification/Network_Future.thy ===== *)
theory Network_Future
  imports Pipeline Client_New "HOL-Library.Sublist"
begin

text \<open>
  The network task (\<open>client/service/src/lib.rs\<close>) and its construction (\<open>build_network\<close> of
  \<open>client/service/src/builder.rs\<close>): imported blocks are announced, finalized blocks are reported, and
  the status is sent to subscribers. The network itself belongs to another package; the calls it
  receives are recorded.
\<close>

section \<open>Model\<close>

subsection \<open>The never-ending future\<close>

datatype network_call =
    Announce_block H256
  | New_best_block_imported H256 BlockNumber
  | On_block_finalized H256 Header
  | Send_status
  | Send_network_state

record network_future =
  imported_blocks :: "BlockImportNotification list"
  imports_closed :: bool
  finality_ready :: "FinalityNotification list"
  network_calls :: "network_call list"
  future_done :: bool

datatype network_event =
    Import_arrives BlockImportNotification
  | Finality_arrives FinalityNotification
  | Client_gone
  | Handled_import BlockImportNotification
  | Handled_finality "FinalityNotification list"
  | Network_polled
  | Status_sent
  | State_sent
  | Returned

text \<open>The adapter of the finality stream: it takes everything that is ready and yields the last item;
  with nothing ready it is pending.\<close>

fun drain :: "'n option \<Rightarrow> 'n list \<Rightarrow> 'n option" where
  "drain latest [] = latest"
| "drain latest (item # items) = drain (Some item) items"

definition poll_latest :: "'n list \<Rightarrow> 'n option" where
  "poll_latest ready = drain None ready"

definition import_calls :: "bool \<Rightarrow> BlockImportNotification \<Rightarrow> network_call list" where
  "import_calls announce_imported_blocks n =
     (if announce_imported_blocks then [Announce_block (bn_hash n)] else []) @
     (if bn_is_new_best n then [New_best_block_imported (bn_hash n) (number (bn_header n))] else [])"

definition add_calls :: "network_call list \<Rightarrow> network_future \<Rightarrow> network_future" where
  "add_calls cs s = s\<lparr>network_calls := network_calls s @ cs\<rparr>"

text \<open>Each round takes one branch that is ready; notifications arrive meanwhile.\<close>

inductive network_step :: "bool \<Rightarrow> network_future \<Rightarrow> network_event \<Rightarrow> network_future \<Rightarrow> bool" for announce where
  import_arrives: "\<not> imports_closed s \<Longrightarrow>
    network_step announce s (Import_arrives n) (s\<lparr>imported_blocks := imported_blocks s @ [n]\<rparr>)"
| finality_arrives: "network_step announce s (Finality_arrives n) (s\<lparr>finality_ready := finality_ready s @ [n]\<rparr>)"
| client_gone: "network_step announce s Client_gone (s\<lparr>imports_closed := True\<rparr>)"
| handle_import: "\<not> future_done s \<Longrightarrow> imported_blocks s = n # q \<Longrightarrow>
    network_step announce s (Handled_import n) (add_calls (import_calls announce n) (s\<lparr>imported_blocks := q\<rparr>))"
| return: "\<not> future_done s \<Longrightarrow> imported_blocks s = [] \<Longrightarrow> imports_closed s \<Longrightarrow>
    network_step announce s Returned (s\<lparr>future_done := True\<rparr>)"
| handle_finality: "\<not> future_done s \<Longrightarrow> poll_latest (finality_ready s) = Some n \<Longrightarrow>
    network_step announce s (Handled_finality (finality_ready s))
      (add_calls [On_block_finalized (fn_hash n) (fn_header n)] (s\<lparr>finality_ready := []\<rparr>))"
| network_polled: "\<not> future_done s \<Longrightarrow> network_step announce s Network_polled s"
| status: "\<not> future_done s \<Longrightarrow> network_step announce s Status_sent (add_calls [Send_status] s)"
| state: "\<not> future_done s \<Longrightarrow> network_step announce s State_sent (add_calls [Send_network_state] s)"

inductive_cases network_stepE: "network_step announce s a t"

definition network_future_start :: network_future where
  "network_future_start = \<lparr>imported_blocks = [], imports_closed = False, finality_ready = [],
     network_calls = [], future_done = False\<rparr>"

subsection \<open>Status sinks\<close>

text \<open>Subscribers to the status and to the detailed state of the network, each with its interval in
  milliseconds.\<close>

record NetworkStatusSinks =
  status_sinks :: "(nat \<times> bytes sink) list"
  state_sinks :: "(nat \<times> bytes sink) list"

definition network_status_sinks_new :: NetworkStatusSinks where
  "network_status_sinks_new = \<lparr>status_sinks = [], state_sinks = []\<rparr>"

definition status_stream :: "nat \<Rightarrow> NetworkStatusSinks \<Rightarrow> NetworkStatusSinks" where
  "status_stream interval s = s\<lparr>status_sinks := status_sinks s @ [(interval, fresh_sink)]\<rparr>"

definition state_stream :: "nat \<Rightarrow> NetworkStatusSinks \<Rightarrow> NetworkStatusSinks" where
  "state_stream interval s = s\<lparr>state_sinks := state_sinks s @ [(interval, fresh_sink)]\<rparr>"

subsection \<open>Building the network\<close>

datatype Role = Full | Light | Authority

text \<open>The configuration of the network, whether its worker can be made, and the tasks spawned so far.\<close>

record network_config =
  nc_role :: Role
  nc_in_peers :: u32
  nc_out_peers :: u32
  nc_boot_nodes :: "string list"
  nc_announce_block :: bool
  nc_worker :: "(string, unit) result"
  nc_extra_sets :: "string list"

record network_params =
  np_block_announce_validator :: "string option"
  np_incoming_requests :: "usize option"
  np_has_bootnodes :: bool
  np_announce_block :: bool

definition spawn :: "string \<Rightarrow> (string list, 'e, unit) prog" where
  "spawn name = modify_prog (\<lambda>tasks. tasks @ [name])"

definition block_request_protocol :: "network_config \<Rightarrow> (string list, 'e, usize option) prog" where
  "block_request_protocol config =
     (if nc_role config = Light then ret None
      else pbind (spawn ''block_request_handler'') (\<lambda>_.
        ret (Some (ucast (nc_in_peers config) + ucast (nc_out_peers config)))))"

definition build_network ::
  "network_config \<Rightarrow> string option \<Rightarrow> (string list, node_error, network_params) prog" where
  "build_network config validator_builder =
     pbind (block_request_protocol config) (\<lambda>incoming.
     pbind (return_prog (map_err Node_network (nc_worker config))) (\<lambda>_.
     pbind (spawn ''network-worker'') (\<lambda>_.
       ret \<lparr>np_block_announce_validator = validator_builder, np_incoming_requests = incoming,
            np_has_bootnodes = (nc_boot_nodes config \<noteq> []), np_announce_block = nc_announce_block config\<rparr>)))"

text \<open>The spawned worker waits for the starter; a starter that was dropped ends it.\<close>

datatype start_signal = Start_sent | Starter_dropped

definition network_worker :: "start_signal \<Rightarrow> network_future option" where
  "network_worker signal = (case signal of Start_sent \<Rightarrow> Some network_future_start | Starter_dropped \<Rightarrow> None)"

section \<open>Lemmas\<close>

lemma drain_last: "drain latest items = (if items = [] then latest else Some (last items))"
  by (induction latest items rule: drain.induct) auto

lemma poll_latest_last: "poll_latest ready = (if ready = [] then None else Some (last ready))"
  by (simp add: poll_latest_def drain_last)

text \<open>The notifications that arrived and the calls they lead to.\<close>

fun finality_arrived :: "network_event list \<Rightarrow> FinalityNotification list" where
  "finality_arrived [] = []"
| "finality_arrived (Finality_arrives n # as) = n # finality_arrived as"
| "finality_arrived (_ # as) = finality_arrived as"

text \<open>The batches of finality notifications that were handled.\<close>

fun finality_batches :: "network_event list \<Rightarrow> FinalityNotification list list" where
  "finality_batches [] = []"
| "finality_batches (Handled_finality b # as) = b # finality_batches as"
| "finality_batches (_ # as) = finality_batches as"

fun imports_arrived :: "network_event list \<Rightarrow> BlockImportNotification list" where
  "imports_arrived [] = []"
| "imports_arrived (Import_arrives n # as) = n # imports_arrived as"
| "imports_arrived (_ # as) = imports_arrived as"

definition finality_calls :: "network_call list \<Rightarrow> (H256 \<times> Header) list" where
  "finality_calls cs = List.map_filter (\<lambda>c. case c of On_block_finalized h hdr \<Rightarrow> Some (h, hdr) | _ \<Rightarrow> None) cs"

definition about_imports :: "network_call list \<Rightarrow> network_call list" where
  "about_imports cs = filter (\<lambda>c. case c of Announce_block _ \<Rightarrow> True | New_best_block_imported _ _ \<Rightarrow> True | _ \<Rightarrow> False) cs"

abbreviation as_call :: "FinalityNotification \<Rightarrow> H256 \<times> Header" where
  "as_call n \<equiv> (fn_hash n, fn_header n)"

lemma finality_arrived_append [simp]: "finality_arrived (as @ bs) = finality_arrived as @ finality_arrived bs"
  by (induction as rule: finality_arrived.induct) auto

lemma finality_batches_append [simp]: "finality_batches (as @ bs) = finality_batches as @ finality_batches bs"
  by (induction as rule: finality_batches.induct) auto

lemma imports_arrived_append [simp]: "imports_arrived (as @ bs) = imports_arrived as @ imports_arrived bs"
  by (induction as rule: imports_arrived.induct) auto

lemma finality_calls_simps [simp]:
  "finality_calls [] = []" "finality_calls (cs @ ds) = finality_calls cs @ finality_calls ds"
  "finality_calls (import_calls announce n) = []" "finality_calls [On_block_finalized h hdr] = [(h, hdr)]"
  "finality_calls [Send_status] = []" "finality_calls [Send_network_state] = []"
  by (simp_all add: finality_calls_def import_calls_def List.map_filter_def)

lemma about_imports_simps [simp]:
  "about_imports [] = []" "about_imports (cs @ ds) = about_imports cs @ about_imports ds"
  "about_imports (import_calls announce n) = import_calls announce n" "about_imports [On_block_finalized h hdr] = []"
  "about_imports [Send_status] = []" "about_imports [Send_network_state] = []"
  by (simp_all add: about_imports_def import_calls_def)

text \<open>What the finality notifications handled so far have led to, and the same for imports. A batch is all
  that has arrived and was not handled before.\<close>

definition batches_whole :: "network_event list \<Rightarrow> bool" where
  "batches_whole as \<longleftrightarrow> (\<forall>xs b ys. as = xs @ Handled_finality b # ys \<longrightarrow>
     b \<noteq> [] \<and> finality_arrived xs = concat (finality_batches xs) @ b)"

definition finality_told :: "network_event list \<Rightarrow> network_future \<Rightarrow> bool" where
  "finality_told as s \<longleftrightarrow> finality_arrived as = concat (finality_batches as) @ finality_ready s \<and>
     finality_calls (network_calls s) = map (as_call \<circ> last) (finality_batches as) \<and>
     batches_whole as"

definition imports_told :: "bool \<Rightarrow> network_event list \<Rightarrow> network_future \<Rightarrow> bool" where
  "imports_told announce as s \<longleftrightarrow>
     (\<exists>handled. imports_arrived as = handled @ imported_blocks s \<and>
        about_imports (network_calls s) = concat (map (import_calls announce) handled))"

lemma batches_whole_snoc:
  assumes "batches_whole as"
    and "\<And>b. a = Handled_finality b \<Longrightarrow> b \<noteq> [] \<and> finality_arrived as = concat (finality_batches as) @ b"
  shows "batches_whole (as @ [a])"
  unfolding batches_whole_def
proof (intro allI impI)
  fix xs b ys
  assume eq: "as @ [a] = xs @ Handled_finality b # ys"
  show "b \<noteq> [] \<and> finality_arrived xs = concat (finality_batches xs) @ b"
  proof (cases ys rule: rev_cases)
    case Nil
    with eq assms(2) show ?thesis by simp
  next
    case (snoc zs z)
    with eq have "as = xs @ Handled_finality b # zs" by simp
    with assms(1) show ?thesis unfolding batches_whole_def by blast
  qed
qed

lemma finality_told_step:
  assumes inv: "finality_told as s" and step: "network_step announce s a t"
  shows "finality_told (as @ [a]) t"
proof -
  have whole: "batches_whole as" using inv by (simp add: finality_told_def)
  from step show ?thesis
  proof cases
    case (handle_finality n)
    then have "finality_ready s \<noteq> []" "n = last (finality_ready s)" by (auto simp: poll_latest_last split: if_splits)
    with inv handle_finality batches_whole_snoc [OF whole, of a] show ?thesis
      by (simp add: finality_told_def add_calls_def)
  qed (use inv batches_whole_snoc [OF whole, of a] in \<open>simp_all add: finality_told_def add_calls_def\<close>)
qed

text \<open>Consequences: order, and the last block told.\<close>

lemma subseq_lasts: "[] \<notin> set bs \<Longrightarrow> subseq (map (f \<circ> last) bs) (map f (concat bs))"
proof (induction bs)
  case (Cons b bs)
  then have "subseq [f (last b)] (map f b)" by (cases b rule: rev_cases) (auto intro: list_emb_append2)
  with Cons list_emb_append_mono [of "(=)" "[f (last b)]" "map f b"] show ?case by simp
qed simp

lemma told_batches: "finality_told as s \<Longrightarrow> [] \<notin> set (finality_batches as)"
proof -
  assume told: "finality_told as s"
  have "\<exists>xs ys. as = xs @ Handled_finality b # ys" if "b \<in> set (finality_batches as)" for b
    using that
  proof (induction as rule: finality_batches.induct)
    case (2 c as)
    show ?case
    proof (cases "b = c")
      case True
      then show ?thesis by blast
    next
      case False
      with 2 obtain xs ys where "as = xs @ Handled_finality b # ys" by auto
      then have "Handled_finality c # as = (Handled_finality c # xs) @ Handled_finality b # ys" by simp
      then show ?thesis by blast
    qed
  qed (auto, (metis append_Cons)+)
  with told show ?thesis unfolding finality_told_def batches_whole_def by blast
qed

lemma told_in_order:
  assumes "finality_told as s"
  shows "subseq (finality_calls (network_calls s)) (map as_call (concat (finality_batches as)))"
    and "finality_ready s = [] \<Longrightarrow> finality_arrived as \<noteq> [] \<Longrightarrow>
      finality_calls (network_calls s) \<noteq> [] \<and> last (finality_calls (network_calls s)) = as_call (last (finality_arrived as))"
proof -
  note ne = told_batches [OF assms]
  show "subseq (finality_calls (network_calls s)) (map as_call (concat (finality_batches as)))"
    using assms subseq_lasts [OF ne] by (simp add: finality_told_def)
  assume "finality_ready s = []" "finality_arrived as \<noteq> []"
  with assms have bs: "finality_arrived as = concat (finality_batches as)" "finality_batches as \<noteq> []"
    by (auto simp: finality_told_def)
  then obtain bs b where "finality_batches as = bs @ [b]" by (cases "finality_batches as" rule: rev_cases) auto
  with ne bs assms show "finality_calls (network_calls s) \<noteq> [] \<and>
      last (finality_calls (network_calls s)) = as_call (last (finality_arrived as))"
    by (auto simp: finality_told_def)
qed

lemma imports_told_step:
  assumes "imports_told announce as s" and "network_step announce s a t"
  shows "imports_told announce (as @ [a]) t"
  using assms(2,1)
proof cases
  case (handle_import n q)
  from assms(1) obtain handled where "imports_arrived as = handled @ imported_blocks s"
    "about_imports (network_calls s) = concat (map (import_calls announce) handled)"
    by (auto simp: imports_told_def)
  with handle_import show ?thesis
    by (auto simp: imports_told_def add_calls_def intro!: exI [of _ "handled @ [n]"])
qed (auto simp: imports_told_def add_calls_def)

interpretation finality: trace_invariant "network_step announce" "\<lambda>s. s = network_future_start" finality_told for announce
proof unfold_locales
  show "finality_told [] s" if "s = network_future_start" for s
    using that by (simp add: finality_told_def batches_whole_def network_future_start_def)
qed (rule finality_told_step)

interpretation announced: trace_invariant "network_step announce" "\<lambda>s. s = network_future_start" "imports_told announce" for announce
proof unfold_locales
  show "imports_told announce [] s" if "s = network_future_start" for s
    using that by (simp add: imports_told_def network_future_start_def)
qed (rule imports_told_step)

section \<open>Properties\<close>

text \<open>C27: however the branches of the network task interleave, the finality notifications it has received
  fall into the batches it has handled and what is still ready; a batch is everything that was ready when
  the task got to it, and of each batch exactly one block is told to the network, the latest. So the
  network is told of finalized blocks in the order in which the client reported them, and when nothing is
  ready the last block told is the last one reported.\<close>

theorem network_told_latest_final:
  assumes "runs (network_step announce) network_future_start as s"
  shows "finality_arrived as = concat (finality_batches as) @ finality_ready s \<and> batches_whole as \<and>
    finality_calls (network_calls s) = map (as_call \<circ> last) (finality_batches as) \<and>
    subseq (finality_calls (network_calls s)) (map as_call (finality_arrived as)) \<and>
    (finality_ready s = [] \<and> finality_arrived as \<noteq> [] \<longrightarrow>
       finality_calls (network_calls s) \<noteq> [] \<and>
       last (finality_calls (network_calls s)) = as_call (last (finality_arrived as)))"
proof -
  have told: "finality_told as s" by (rule finality.inv_runs [OF assms]) simp
  then have "finality_arrived as = concat (finality_batches as) @ finality_ready s \<and> batches_whole as \<and>
    finality_calls (network_calls s) = map (as_call \<circ> last) (finality_batches as)"
    by (simp add: finality_told_def)
  moreover from this have "subseq (finality_calls (network_calls s)) (map as_call (finality_arrived as))"
    using told_in_order(1) [OF told] by auto
  ultimately show ?thesis using told_in_order(2) [OF told] by blast
qed

text \<open>Every imported block that has been handled is announced exactly once, in order, when announcing
  is on, and reported as the new best block exactly when it is one; nothing else is announced. When
  none is waiting, this covers all blocks the client has imported.\<close>

lemma network_announces_imports:
  assumes "runs (network_step announce) network_future_start as s" and "imported_blocks s = []"
  shows "about_imports (network_calls s) = concat (map (import_calls announce) (imports_arrived as))"
proof -
  have "imports_told announce as s" by (rule announced.inv_runs [OF assms(1)]) simp
  with assms(2) show ?thesis by (auto simp: imports_told_def)
qed

section \<open>A concrete run\<close>

definition demo_finality :: "H256 \<Rightarrow> FinalityNotification" where
  "demo_finality h = \<lparr>fn_header = demo_import_header (ucast h), fn_hash = h\<rparr>"

definition demo_imported :: BlockImportNotification where
  "demo_imported = \<lparr>bn_hash = 6, bn_origin = Own, bn_header = demo_import_header 6, bn_is_new_best = True, bn_tree_route = None\<rparr>"

lemma demo_network_run:
  "runs (network_step True) network_future_start
     [Finality_arrives (demo_finality 4), Finality_arrives (demo_finality 5), Import_arrives demo_imported,
      Handled_finality [demo_finality 4, demo_finality 5], Handled_import demo_imported]
     \<lparr>imported_blocks = [], imports_closed = False, finality_ready = [],
      network_calls = [On_block_finalized 5 (demo_import_header 5), Announce_block 6, New_best_block_imported 6 6],
      future_done = False\<rparr>"
proof -
  let ?s = "\<lambda>i f c. \<lparr>imported_blocks = i, imports_closed = False, finality_ready = f, network_calls = c, future_done = False\<rparr>"
  let ?f = "[demo_finality 4, demo_finality 5]" and ?c = "[On_block_finalized 5 (demo_import_header 5)]"
  have s1: "network_step True network_future_start (Finality_arrives (demo_finality 4)) (?s [] [demo_finality 4] [])"
    using network_step.finality_arrives [of True network_future_start "demo_finality 4"] by (simp add: network_future_start_def)
  have s2: "network_step True (?s [] [demo_finality 4] []) (Finality_arrives (demo_finality 5)) (?s [] ?f [])"
    using network_step.finality_arrives [of True "?s [] [demo_finality 4] []" "demo_finality 5"] by simp
  have s3: "network_step True (?s [] ?f []) (Import_arrives demo_imported) (?s [demo_imported] ?f [])"
    using network_step.import_arrives [of "?s [] ?f []" True demo_imported] by simp
  have s4: "network_step True (?s [demo_imported] ?f []) (Handled_finality ?f) (?s [demo_imported] [] ?c)"
    using network_step.handle_finality [of "?s [demo_imported] ?f []" "demo_finality 5" True]
    by (simp add: poll_latest_def add_calls_def demo_finality_def)
  have s5: "network_step True (?s [demo_imported] [] ?c) (Handled_import demo_imported)
      (?s [] [] (?c @ [Announce_block 6, New_best_block_imported 6 6]))"
    using network_step.handle_import [of "?s [demo_imported] [] ?c" demo_imported "[]" True]
    by (simp add: add_calls_def import_calls_def demo_imported_def demo_import_header_def)
  note r = runs_step [where step = "network_step True"]
  from r [OF r [OF r [OF r [OF r [OF runs_Nil s1 refl] s2 refl] s3 refl] s4 refl] s5 refl] show ?thesis by simp
qed

theorem network_told_latest_final_witness:
  "\<exists>as s. runs (network_step True) network_future_start as s \<and>
     finality_batches as = [[demo_finality 4, demo_finality 5]] \<and>
     finality_calls (network_calls s) = [as_call (demo_finality 5)] \<and>
     last (finality_calls (network_calls s)) = as_call (last (finality_arrived as))"
proof -
  note run = demo_network_run
  from network_told_latest_final [OF run] run show ?thesis by (fastforce simp: demo_finality_def)
qed

end
