(* ===== verification/Finality_To_Network.thy ===== *)
theory Finality_To_Network
  imports Client_Finality Network_Future
begin

text \<open>
  The client and the network task together: the task listens to the finality stream of the client and
  tells the network. What the network hears is compared with what the client has committed as final.
\<close>

section \<open>Model\<close>

text \<open>The task subscribes when the network is built; the client is then asked for anything, in any order,
  while the task takes from its stream what has not been taken yet. Imports may arrive at any time.\<close>

record node_state =
  node_client :: client
  node_network :: network_future
  node_taken :: nat

datatype node_event = Served client_request | Network_event network_event

definition node_start :: "client \<Rightarrow> node_state" where
  "node_start c = \<lparr>node_client = snd (finality_notification_stream c), node_network = network_future_start, node_taken = 0\<rparr>"

text \<open>The stream of the task is the first one that was asked for.\<close>

definition finality_stream :: "client \<Rightarrow> FinalityNotification list" where
  "finality_stream c = (case finality_sinks c of [] \<Rightarrow> [] | s # _ \<Rightarrow> inbox s)"

fun is_finality_arrival :: "network_event \<Rightarrow> bool" where
  "is_finality_arrival (Finality_arrives _) = True"
| "is_finality_arrival _ = False"

inductive node_step :: "(op_action list list \<Rightarrow> chain_queries) \<Rightarrow> bool \<Rightarrow> node_state \<Rightarrow> node_event \<Rightarrow> node_state \<Rightarrow> bool"
  for database announce where
  served: "node_step database announce s (Served r) (s\<lparr>node_client := serve database r (node_client s)\<rparr>)"
| taken: "node_taken s < length (finality_stream (node_client s)) \<Longrightarrow>
    network_step announce (node_network s) (Finality_arrives (finality_stream (node_client s) ! node_taken s)) t \<Longrightarrow>
    node_step database announce s (Network_event (Finality_arrives (finality_stream (node_client s) ! node_taken s)))
      (s\<lparr>node_network := t, node_taken := Suc (node_taken s)\<rparr>)"
| worked: "network_step announce (node_network s) a t \<Longrightarrow> \<not> is_finality_arrival a \<Longrightarrow>
    node_step database announce s (Network_event a) (s\<lparr>node_network := t\<rparr>)"

inductive_cases node_stepE: "node_step database announce s a t"

fun network_event_of :: "node_event \<Rightarrow> network_event list" where
  "network_event_of (Network_event a) = [a]"
| "network_event_of (Served _) = []"

definition network_events :: "node_event list \<Rightarrow> network_event list" where
  "network_events as = concat (map network_event_of as)"

fun keeps_finality_event :: "node_event \<Rightarrow> bool" where
  "keeps_finality_event (Served r) \<longleftrightarrow> keeps_finality r"
| "keeps_finality_event (Network_event _) \<longleftrightarrow> True"

section \<open>Operations announce what they finalize\<close>

text \<open>A program tells the truth if what it adds to the announcements is, in order, among the blocks that
  it finalizes.\<close>

definition truthful_step :: "(Header \<Rightarrow> H256) \<Rightarrow> client \<Rightarrow> client \<Rightarrow> bool" where
  "truthful_step hash c d \<longleftrightarrow> (\<exists>acts ann. op_actions (operation d) = op_actions (operation c) @ acts \<and>
     op_notify_finalized (operation d) = op_notify_finalized (operation c) @ ann \<and> subseq ann (finals hash acts))"

definition truthful :: "(Header \<Rightarrow> H256) \<Rightarrow> 'a client_prog \<Rightarrow> bool" where
  "truthful hash m \<longleftrightarrow> (\<forall>c x d. m c = (Ok x, d) \<longrightarrow> truthful_step hash c d)"

lemma truthfulI: "(\<And>c x d. m c = (Ok x, d) \<Longrightarrow> truthful_step hash c d) \<Longrightarrow> truthful hash m"
  by (simp add: truthful_def)

lemma truthfulD: "truthful hash m \<Longrightarrow> m c = (Ok x, d) \<Longrightarrow> truthful_step hash c d"
  by (auto simp: truthful_def)

lemma truthful_step_refl [simp]: "truthful_step hash c c"
  by (simp add: truthful_step_def)

lemma truthful_step_trans: "truthful_step hash c d \<Longrightarrow> truthful_step hash d e \<Longrightarrow> truthful_step hash c e"
  by (auto simp: truthful_step_def intro: list_emb_append_mono)

lemma truthful_return [intro, simp]: "truthful hash (return_prog r)"
  by (auto intro: truthfulI)

lemma truthful_Pair [simp]: "truthful hash (Pair r)"
  by (simp add: truthful_def)

lemma truthful_pbind [intro]:
  assumes "truthful hash m" and "\<And>x. truthful hash (f x)"
  shows "truthful hash (pbind m f)"
proof (rule truthfulI)
  fix c x d
  assume "pbind m f c = (Ok x, d)"
  then obtain y e where "m c = (Ok y, e)" "f y e = (Ok x, d)" by (auto simp: pbind_eq_Ok)
  then show "truthful_step hash c d" using assms by (blast intro: truthful_step_trans dest: truthfulD)
qed

lemma truthful_request [intro]: "truthful hash (op_request be a)"
  by (rule truthfulI) (auto simp: op_request_Ok truthful_step_def)

lemma truthful_modify:
  "(\<And>c. truthful_step hash c (f c)) \<Longrightarrow> truthful hash (modify_prog f)"
  by (rule truthfulI) auto

lemma truthful_cache:
  "truthful hash (modify_prog (\<lambda>c. c\<lparr>operation := (operation c)\<lparr>op_actions := op_actions (operation c) @ [Update_cache k]\<rparr>\<rparr>))"
  by (rule truthful_modify) (simp add: truthful_step_def)

lemma truthful_importing: "truthful hash (modify_prog (\<lambda>c. c\<lparr>importing_block := Some h\<rparr>))"
  by (rule truthful_modify) (simp add: truthful_step_def)

lemma truthful_finalize_route: "truthful hash (finalize_route be blk j notify ens)"
proof (rule truthfulI)
  fix c x d
  assume "finalize_route be blk j notify ens c = (Ok x, d)"
  from finalize_route_Ok [OF this [unfolded unit_eq [of x]]] have ens: "ens \<noteq> []" "last ens = blk" and
    act: "op_actions (operation d) = op_actions (operation c) @
      map (\<lambda>h. Mark_finalized (Hash h) None) (butlast ens) @ [Mark_finalized (Hash blk) j]" and
    ann: "op_notify_finalized (operation d) = op_notify_finalized (operation c) @
      (if notify then drop (length ens - min (length ens) 256) ens else [])" by auto
  have "finals hash (map (\<lambda>h. Mark_finalized (Hash h) None) (butlast ens) @ [Mark_finalized (Hash blk) j]) = ens"
    using ens by (simp add: finals_marks flip: ens(2))
  then show "truthful_step hash c d"
    using act ann by (fastforce simp: truthful_step_def intro: suffix_imp_subseq suffix_drop)
qed

lemma truthful_finality: "truthful hash (apply_finality_with_block_hash be blk j top_block n)"
  unfolding apply_finality_with_block_hash_def
  by (auto intro!: truthful_pbind truthful_finalize_route truthful_request)

lemma truthful_enact: "truthful hash (enact_storage_changes be p fin n k sc)"
  unfolding enact_storage_changes_def
  by (cases sc) (auto intro!: truthful_pbind truthful_request truthful_finality truthful_cache
      simp del: pbind_modify split: option.split)

lemma truthful_set_imported:
  assumes "h = hash hdr"
  shows "truthful hash (set_imported_block be ib h hdr fork sc)"
proof (rule truthfulI)
  fix c x d
  assume "set_imported_block be ib h hdr fork sc c = (Ok x, d)"
  then show "truthful_step hash c d"
    using assms
    by (auto simp: set_imported_block_def Let_def pbind_eq_Ok op_request_Ok truthful_step_def leaf_state_def
        split: if_splits)
qed

lemma truthful_apply_block:
  assumes "cb_header_hash be = hash"
  shows "truthful hash (apply_block be ib k)"
  unfolding apply_block_def execute_and_import_block_def Let_def
  by (auto intro!: truthful_pbind truthful_importing truthful_enact truthful_set_imported simp: assms
      simp del: pbind_modify)

lemma truthful_apply_finality: "truthful hash (apply_finality be bid j n)"
  unfolding apply_finality_def by (intro truthful_pbind truthful_return truthful_finality)

section \<open>Subscribers hear what operations announce\<close>

text \<open>Between two states every subscriber has received the same notifications, and all of them are open.\<close>

definition relayed :: "H256 list \<Rightarrow> notifies \<Rightarrow> notifies \<Rightarrow> bool" where
  "relayed hs n n' \<longleftrightarrow> (\<exists>ns. finality_notification_sinks n' = map (\<lambda>s. s\<lparr>inbox := inbox s @ ns\<rparr>) (finality_notification_sinks n) \<and>
     prefix (map fn_hash ns) hs)"

abbreviation all_open :: "notifies \<Rightarrow> bool" where
  "all_open n \<equiv> list_all (\<lambda>s. \<not> is_closed s) (finality_notification_sinks n)"

lemma relayed_refl [simp]: "relayed hs n n"
  by (auto simp: relayed_def intro: exI [of _ "[]"])

lemma all_open_retain: "list_all (\<lambda>s. \<not> is_closed s) sinks \<Longrightarrow> retain_open sinks = sinks"
  by (simp add: retain_open_def list_all_iff filter_id_conv)

lemma notify_each_relays:
  "all_open n \<Longrightarrow> relayed hs n (snd (notify_each hdr hs n))"
proof (induction hs arbitrary: n)
  case (Cons h hs)
  show ?case
  proof (cases "\<exists>x. hdr h = Ok (Some x)")
    case True
    then obtain x where x: "hdr h = Ok (Some x)" ..
    let ?n = "n\<lparr>finality_notification_sinks :=
      retain_send \<lparr>fn_header = x, fn_hash = h\<rparr> (finality_notification_sinks n)\<rparr>"
    have sinks: "finality_notification_sinks ?n =
        map (\<lambda>s. s\<lparr>inbox := inbox s @ [\<lparr>fn_header = x, fn_hash = h\<rparr>]\<rparr>) (finality_notification_sinks n)"
      using Cons.prems by (simp add: retain_send_open all_open_retain)
    moreover from this Cons.prems have "all_open ?n" by (simp add: list_all_iff)
    ultimately obtain ns where ns: "finality_notification_sinks (snd (notify_each hdr hs ?n)) =
        map (\<lambda>s. s\<lparr>inbox := inbox s @ ns\<rparr>) (finality_notification_sinks ?n)" "prefix (map fn_hash ns) hs"
      using Cons.IH [of ?n] unfolding relayed_def by blast
    have "finality_notification_sinks (snd (notify_each hdr hs ?n)) =
        map (\<lambda>s. s\<lparr>inbox := inbox s @ \<lparr>fn_header = x, fn_hash = h\<rparr> # ns\<rparr>) (finality_notification_sinks n)"
      unfolding ns(1) sinks by simp
    then show ?thesis
      using x ns(2) unfolding relayed_def by (intro exI [of _ "\<lparr>fn_header = x, fn_hash = h\<rparr> # ns"]) simp
  next
    case False
    then have "snd (notify_each hdr (h # hs) n) = n"
      by (auto simp: pbind_def expect_some_case split: result.split option.split)
    then show ?thesis by simp
  qed
qed simp

lemma notify_finalized_relays: "all_open n \<Longrightarrow> relayed hs n (snd (notify_finalized hdr hs n))"
  using notify_each_relays [of n hs hdr] by (auto simp: notify_finalized_def relayed_def all_open_retain intro: exI [of _ "[]"])

lemma send_notifications_relays:
  assumes "all_open (client_notifies c)"
  shows "relayed (op_notify_finalized (operation c)) (client_notifies c) (client_notifies (snd (send_notifications be c)))"
proof -
  let ?fin = "notify_finalized (cb_header_after be (op_actions (operation c))) (op_notify_finalized (operation c)) (client_notifies c)"
  have "finality_notification_sinks (client_notifies (snd (send_notifications be c))) = finality_notification_sinks (snd ?fin)"
    by (auto simp: send_notifications_def pbind_def zoom_def split: result.split prod.split)
      (metis notify_imported_finality snd_conv)
  with notify_finalized_relays [OF assms] show ?thesis by (simp add: relayed_def)
qed

lemma lock_run_relays:
  assumes only: "only_operation f" and tr: "truthful hash f" and op: "all_open (client_notifies c)"
    and c': "c' = snd (lock_import_and_run be f c)"
  shows "\<exists>acts hs. committed c' = committed c @ acts \<and> relayed hs (client_notifies c) (client_notifies c') \<and>
    subseq hs (finalized_history hash acts)"
  using lock_run_effect [OF only c']
proof (elim disjE exE conjE)
  assume "committed c' = committed c" "client_notifies c' = client_notifies c"
  then show ?thesis by (intro exI [of _ "[]"]) (simp add: finalized_history_def)
next
  fix x c1 d
  assume run: "f (c\<lparr>operation := empty_operation\<rparr>) = (Ok x, c1)" and d: "operation d = operation c1"
      "client_notifies d = client_notifies c" and com: "committed c' = committed c @ [op_actions (operation c1)]"
      "client_notifies c' = client_notifies (snd (send_notifications be d))"
  from truthfulD [OF tr run] have "subseq (op_notify_finalized (operation c1)) (finals hash (op_actions (operation c1)))"
    by (auto simp: truthful_step_def empty_operation_def)
  moreover have "relayed (op_notify_finalized (operation c1)) (client_notifies c) (client_notifies c')"
    using send_notifications_relays [of d be] op d com(2) by simp
  ultimately show ?thesis
    using com(1) by (intro exI [of _ "[op_actions (operation c1)]"] exI [of _ "op_notify_finalized (operation c1)"])
      (simp add: finalized_history_def)
qed

text \<open>Every request extends the history and what the subscribers received, and the latter keeps pace with
  the former: a subsequence of the new part, for each of the old subscribers.\<close>

lemma serve_relays:
  assumes hash: "cb_header_hash (cq_backend (database (committed c))) = hash" and op: "all_open (client_notifies c)"
  shows "\<exists>acts hs ns more. committed (serve database r c) = committed c @ acts \<and> subseq hs (finalized_history hash acts) \<and>
    prefix (map fn_hash ns) hs \<and> list_all (\<lambda>s. \<not> is_closed s \<and> inbox s = []) more \<and>
    finality_sinks (serve database r c) = map (\<lambda>s. s\<lparr>inbox := inbox s @ ns\<rparr>) (finality_sinks c) @ more"
proof -
  let ?q = "database (committed c)" and ?c' = "serve database r c"
  let ?be = "cq_backend ?q"
  have nothing_new: ?thesis
    if "committed ?c' = committed c" "finality_sinks ?c' = finality_sinks c @ more"
      "list_all (\<lambda>s. \<not> is_closed s \<and> inbox s = []) more" for more
    using that by (intro exI [of _ "[]"] exI [of _ "[]"] exI [of _ "[]"] exI [of _ more]) simp
  have locked: ?thesis
    if "only_operation f" "truthful hash f" "committed ?c' = committed (snd (lock_import_and_run ?be f c))"
      "client_notifies ?c' = client_notifies (snd (lock_import_and_run ?be f c))" for f :: "'a client_prog"
  proof -
    from lock_run_relays [OF that(1,2) op refl, of ?be] that(3,4) obtain acts hs where
      "committed ?c' = committed c @ acts" "relayed hs (client_notifies c) (client_notifies ?c')"
      "subseq hs (finalized_history hash acts)" by auto
    moreover from this(2) obtain ns where "finality_sinks ?c' = map (\<lambda>s. s\<lparr>inbox := inbox s @ ns\<rparr>) (finality_sinks c)"
      "prefix (map fn_hash ns) hs" unfolding relayed_def by blast
    ultimately show ?thesis
      by (intro exI [of _ acts] exI [of _ hs] exI [of _ ns] exI [of _ "[]"]) simp
  qed
  show ?thesis
  proof (cases r)
    case (Import_request ib k)
    show ?thesis
    proof (cases "prepare_block_storage_changes ?be c ib")
      case (Ok p)
      obtain res ib' where p: "p = (res, ib')" by fastforce
      show ?thesis
      proof (cases res)
        case None
        with Ok p Import_request show ?thesis
          by (intro locked [OF only_apply_block [of ?be ib' k] truthful_apply_block [OF hash]])
            (simp_all add: serve_def import_block_def)
      next
        case (Some _)
        with Ok p Import_request show ?thesis
          by (intro nothing_new [of "[]"]) (simp_all add: serve_def import_block_def)
      qed
    qed (use Import_request in \<open>auto intro!: nothing_new [of "[]"] simp: serve_def import_block_def\<close>)
  next
    case (Finalize_request bid j n)
    then show ?thesis
      by (intro locked [OF only_apply_finality [of ?be bid j n] truthful_apply_finality])
        (simp_all add: serve_def finalize_block_def)
  next
    case (Aux_request ins del)
    then show ?thesis
      by (intro locked [OF only_request [of ?be "Insert_aux (cq_apply_aux ?q ins del)"] truthful_request])
        (simp_all add: serve_def insert_aux_def)
  next
    case (Revert_request n b)
    then show ?thesis
      by (intro nothing_new [of "[]"])
        (auto simp: serve_def unsafe_revert_def pbind_def split: result.split prod.split)
  next
    case Subscribe_imports
    then show ?thesis
      by (intro nothing_new [of "[]"]) (simp_all add: serve_def import_notification_stream_def)
  next
    case Subscribe_finality
    then show ?thesis
      by (intro nothing_new [of "[fresh_sink]"]) (simp_all add: serve_def finality_notification_stream_def fresh_sink_def)
  qed
qed

section \<open>The invariant of the node\<close>

definition heard :: "(Header \<Rightarrow> H256) \<Rightarrow> client \<Rightarrow> bool" where
  "heard hash c \<longleftrightarrow> list_all (\<lambda>s. \<not> is_closed s \<and>
     subseq (map fn_hash (inbox s)) (finalized_history hash (committed c))) (finality_sinks c)"

definition node_inv ::
  "(Header \<Rightarrow> H256) \<Rightarrow> H256 \<Rightarrow> (op_action list list \<Rightarrow> chain_queries) \<Rightarrow> bool \<Rightarrow>
     node_event list \<Rightarrow> node_state \<Rightarrow> bool" where
  "node_inv hash g database announce as s \<longleftrightarrow>
     (db_documented hash database \<longrightarrow>
        heard hash (node_client s) \<and> finality_sinks (node_client s) \<noteq> [] \<and>
        node_taken s \<le> length (finality_stream (node_client s)) \<and>
        finality_arrived (network_events as) = take (node_taken s) (finality_stream (node_client s)) \<and>
        runs (network_step announce) network_future_start (network_events as) (node_network s) \<and>
        (list_all keeps_finality_event as \<longrightarrow> final_chain hash g (committed (node_client s))))"

lemma network_events_snoc [simp]: "network_events (as @ [a]) = network_events as @ network_event_of a"
  by (simp add: network_events_def)

lemma history_append: "finalized_history hash (cs @ ds) = finalized_history hash cs @ finalized_history hash ds"
  by (simp add: finalized_history_def)

lemma no_arrival: "\<not> is_finality_arrival a \<Longrightarrow> finality_arrived [a] = []"
  by (cases a) simp_all

lemma serve_heard:
  assumes "db_documented hash database" and "heard hash c" and "finality_sinks c \<noteq> []"
  shows "heard hash (serve database r c) \<and> finality_sinks (serve database r c) \<noteq> [] \<and>
    prefix (finality_stream c) (finality_stream (serve database r c))"
proof -
  from assms(1,2) have pre: "cb_header_hash (cq_backend (database (committed c))) = hash" "all_open (client_notifies c)"
    by (auto simp: db_documented_def heard_def list_all_iff)
  from serve_relays [where database = database and r = r, OF pre] obtain acts hs ns more where
    com: "committed (serve database r c) = committed c @ acts" and sub: "subseq hs (finalized_history hash acts)"
      "prefix (map fn_hash ns) hs" and more: "list_all (\<lambda>s. \<not> is_closed s \<and> inbox s = []) more" and
    sinks: "finality_sinks (serve database r c) = map (\<lambda>s. s\<lparr>inbox := inbox s @ ns\<rparr>) (finality_sinks c) @ more"
    by blast
  have ns: "subseq (map fn_hash ns) (finalized_history hash acts)"
    using sub by (meson prefix_imp_subseq subseq_order.trans)
  have "subseq (xs @ map fn_hash ns) (finalized_history hash (committed c @ acts))"
    if "subseq xs (finalized_history hash (committed c))" for xs
    using list_emb_append_mono [OF that ns] by (simp add: history_append)
  then have "heard hash (serve database r c)"
    using assms(2) more by (auto simp: heard_def sinks com list_all_iff)
  then show ?thesis
    using assms(3) by (cases "finality_sinks c") (simp_all add: sinks finality_stream_def)
qed

lemma node_inv_step:
  assumes inv: "node_inv hash g database announce as s" and step: "node_step database announce s a t"
  shows "node_inv hash g database announce (as @ [a]) t"
  unfolding node_inv_def
proof
  assume doc: "db_documented hash database"
  with inv have i: "heard hash (node_client s)" "finality_sinks (node_client s) \<noteq> []"
    "node_taken s \<le> length (finality_stream (node_client s))"
    "finality_arrived (network_events as) = take (node_taken s) (finality_stream (node_client s))"
    "runs (network_step announce) network_future_start (network_events as) (node_network s)"
    "list_all keeps_finality_event as \<longrightarrow> final_chain hash g (committed (node_client s))"
    by (simp_all add: node_inv_def)
  from step show "heard hash (node_client t) \<and> finality_sinks (node_client t) \<noteq> [] \<and>
      node_taken t \<le> length (finality_stream (node_client t)) \<and>
      finality_arrived (network_events (as @ [a])) = take (node_taken t) (finality_stream (node_client t)) \<and>
      runs (network_step announce) network_future_start (network_events (as @ [a])) (node_network t) \<and>
      (list_all keeps_finality_event (as @ [a]) \<longrightarrow> final_chain hash g (committed (node_client t)))"
  proof cases
    case (served r)
    from serve_heard [OF doc i(1,2), of r] obtain zs where
      "heard hash (node_client t)" "finality_sinks (node_client t) \<noteq> []"
      "finality_stream (node_client t) = finality_stream (node_client s) @ zs"
      by (auto simp: served prefix_def)
    moreover have "final_chain hash g (committed (node_client t))" if "list_all keeps_finality_event (as @ [a])"
      using that i(6) serve_keeps_chain [OF doc, of g "node_client s" r] by (simp add: served)
    ultimately show ?thesis using i(3-5) by (simp add: served)
  next
    case (taken t')
    then show ?thesis
      using i runs_snoc [OF i(5), of "Finality_arrives (finality_stream (node_client s) ! node_taken s)" t']
      by (simp add: take_Suc_conv_app_nth)
  next
    case (worked b t')
    then show ?thesis
      using i runs_snoc [OF i(5), of b t'] by (simp add: no_arrival)
  qed
qed

interpretation node: trace_invariant "node_step database announce"
  "\<lambda>s. \<exists>c. s = node_start c \<and> finality_sinks c = [] \<and> final_chain hash g (committed c)"
  "node_inv hash g database announce" for hash g database announce
proof unfold_locales
  show "node_inv hash g database announce [] s"
    if "\<exists>c. s = node_start c \<and> finality_sinks c = [] \<and> final_chain hash g (committed c)" for s
    using that
    by (auto simp: node_inv_def node_start_def heard_def finality_notification_stream_def fresh_sink_def
        network_events_def intro: runs_Nil)
qed (rule node_inv_step)

lemma client_new_unheard:
  assumes "client_new env fork_blocks bad_blocks cs = (Ok c, cs')"
  shows "finality_sinks c = []"
proof (cases "ge_header env cs 0 = Ok None")
  case True
  with assms obtain u c1 where "insert_genesis env \<lparr>importing_block = None, block_rules = rules_new fork_blocks bad_blocks,
      client_notifies = notifies_new, operation = empty_operation, committed = cs\<rparr> = (Ok u, c1)"
    "client_notifies c = client_notifies c1"
    by (auto simp: client_new_def split: prod.splits result.splits)
  then show ?thesis by (auto simp: notifies_new_def elim: insert_genesis_ok)
next
  case False
  with assms show ?thesis
    by (cases "ge_header env cs 0") (auto simp: client_new_def pbind_def notifies_new_def)
qed

section \<open>Properties\<close>

text \<open>C15: client and network agree on finality. In every run of the node, with a database that behaves as
  documented and requests that leave finality to the client, the blocks of which the network is told that
  they are final are, in this order, among the blocks that the client has committed as final, which form one
  chain; and once nothing is waiting, the last block told is the last one the client announced.\<close>

theorem network_hears_one_chain:
  assumes "client_new env fork_blocks bad_blocks [] = (Ok c, cs)" and "ge_header env [] 0 = Ok None"
    and "db_documented hash database" and "runs (node_step database announce) (node_start c) as s"
    and "list_all keeps_finality_event as"
  shows "chained (child_of hash (committed (node_client s))) (finalized_history hash (committed (node_client s))) \<and>
    subseq (map fst (finality_calls (network_calls (node_network s)))) (finalized_history hash (committed (node_client s))) \<and>
    (finality_ready (node_network s) = [] \<and> node_taken s = length (finality_stream (node_client s)) \<and> node_taken s \<noteq> 0 \<longrightarrow>
       finality_calls (network_calls (node_network s)) \<noteq> [] \<and>
       last (finality_calls (network_calls (node_network s))) = as_call (last (finality_stream (node_client s))))"
proof -
  obtain st where genesis: "final_chain hash
      (hash (header (construct_genesis_block (ge_empty_trie_root env) (ge_storage_root env st)))) (committed c)"
    using new_client_chain [OF assms(1,2)] by blast
  have "node_inv hash (hash (header (construct_genesis_block (ge_empty_trie_root env) (ge_storage_root env st))))
      database announce as s"
    using node.inv_runs [OF assms(4)] genesis client_new_unheard [OF assms(1)] by blast
  with assms(3,5) have i: "heard hash (node_client s)" "finality_sinks (node_client s) \<noteq> []"
    "finality_arrived (network_events as) = take (node_taken s) (finality_stream (node_client s))"
    "runs (network_step announce) network_future_start (network_events as) (node_network s)"
    "chained (child_of hash (committed (node_client s))) (finalized_history hash (committed (node_client s)))"
    by (auto simp: node_inv_def final_chain_def)
  have stream: "subseq (map fn_hash (finality_stream (node_client s))) (finalized_history hash (committed (node_client s)))"
    using i(1,2) by (cases "finality_sinks (node_client s)") (auto simp: heard_def finality_stream_def)
  have told: "finality_told (network_events as) (node_network s)"
    by (rule finality.inv_runs [OF i(4)]) simp
  let ?handled = "concat (finality_batches (network_events as))"
  have h: "take (node_taken s) (finality_stream (node_client s)) = ?handled @ finality_ready (node_network s)"
    using told i(3) by (simp add: finality_told_def)
  then have "prefix ?handled (take (node_taken s) (finality_stream (node_client s)))" by simp
  then have "prefix ?handled (finality_stream (node_client s))" using take_is_prefix prefix_order.trans by blast
  then have "subseq (map fn_hash ?handled) (map fn_hash (finality_stream (node_client s)))"
    by (intro prefix_imp_subseq map_mono_prefix)
  moreover have "subseq (map fst (finality_calls (network_calls (node_network s)))) (map fn_hash ?handled)"
    using subseq_map [OF told_in_order(1) [OF told], of fst] by (simp add: comp_def)
  ultimately have "subseq (map fst (finality_calls (network_calls (node_network s)))) (finalized_history hash (committed (node_client s)))"
    using stream by (meson subseq_order.trans)
  then show ?thesis using i(3,5) told_in_order(2) [OF told] by auto
qed

section \<open>A concrete run\<close>

text \<open>Blocks 3 and 4 with the same parent are imported, then block 9 on block 4, which is finalized; the task
  takes what the client announces and tells the network.\<close>

lemma served_run:
  "runs (node_step database announce) s (map Served rs) (s\<lparr>node_client := fold (serve database) rs (node_client s)\<rparr>)"
proof (induction rs rule: rev_induct)
  case (snoc r rs)
  from runs_snoc [OF snoc node_step.served [where r = r]] show ?case by simp
qed (simp add: runs_Nil)

theorem network_hears_one_chain_witness:
  "\<exists>as s. runs (node_step demo_db True) (node_start demo_new_client) as s \<and>
     finality_calls (network_calls (node_network s)) = [(9, tree_header 4 [])] \<and>
     finalized_history tree_hash (committed (node_client s)) = [1, 4, 9] \<and>
     child_of tree_hash (committed (node_client s)) 1 3 \<and>
     chained (child_of tree_hash (committed (node_client s))) [1, 4, 9]"
proof -
  let ?c0 = "snd (finality_notification_stream demo_new_client)"
  define c where "c = fold (serve demo_db) tree_requests ?c0"
  let ?n1 = "tree_final 1 [[1]]" and ?n2 = "tree_final 4 []"
  have "importing_block ?c0 = None" "committed ?c0 = committed demo_new_client" "finality_sinks ?c0 = [fresh_sink]"
    by (simp_all add: finality_notification_stream_def demo_new_client_def notifies_new_def)
  with tree_run [of ?c0] have c: "finality_stream c = [?n1, ?n2]" "finalized_history tree_hash (committed c) = [1, 4, 9]"
      "child_of tree_hash (committed c) 1 3"
    by (simp_all add: c_def Let_def fresh_sink_def finality_stream_def)
  let ?net = "\<lambda>f cs. \<lparr>imported_blocks = [], imports_closed = False, finality_ready = f, network_calls = cs, future_done = False\<rparr>"
  let ?s = "\<lambda>n k. \<lparr>node_client = c, node_network = n, node_taken = k\<rparr>"
  let ?call = "On_block_finalized (tree_hash (tree_header 4 [])) (tree_header 4 [])"
  let ?as = "map Served tree_requests @ [Network_event (Finality_arrives ?n1), Network_event (Finality_arrives ?n2),
    Network_event (Handled_finality [?n1, ?n2])]"
  let ?t = "?s (?net [] [?call]) (Suc (Suc 0))"
  have r1: "runs (node_step demo_db True) (node_start demo_new_client) (map Served tree_requests) (?s (?net [] []) 0)"
    using served_run [of demo_db True "node_start demo_new_client" tree_requests]
    by (simp add: node_start_def network_future_start_def c_def)
  have s2: "node_step demo_db True (?s (?net [] []) 0) (Network_event (Finality_arrives ?n1)) (?s (?net [?n1] []) 1)"
    using node_step.taken [of "?s (?net [] []) 0" True "?net [?n1] []" demo_db]
      network_step.finality_arrives [of True "?net [] []" ?n1] by (simp add: c)
  have s3: "node_step demo_db True (?s (?net [?n1] []) 1) (Network_event (Finality_arrives ?n2)) (?s (?net [?n1, ?n2] []) (Suc (Suc 0)))"
    using node_step.taken [of "?s (?net [?n1] []) 1" True "?net [?n1, ?n2] []" demo_db]
      network_step.finality_arrives [of True "?net [?n1] []" ?n2] by (simp add: c)
  have s4: "node_step demo_db True (?s (?net [?n1, ?n2] []) (Suc (Suc 0))) (Network_event (Handled_finality [?n1, ?n2])) ?t"
    using node_step.worked [of True "?s (?net [?n1, ?n2] []) (Suc (Suc 0))" "Handled_finality [?n1, ?n2]" "?net [] [?call]" demo_db]
      network_step.handle_finality [of "?net [?n1, ?n2] []" ?n2 True]
    by (simp add: poll_latest_def add_calls_def)
  note r = runs_step [where step = "node_step demo_db True"]
  have run: "runs (node_step demo_db True) (node_start demo_new_client) ?as ?t"
    using r [OF r [OF r [OF r1 s2 refl] s3 refl] s4 refl] by simp
  have hdr: "ge_header demo_genesis_env [] 0 = Ok None" by (simp add: demo_genesis_env_def)
  have "list_all keeps_finality_event ?as"
    by (simp add: tree_requests_def tree_import_simps)
  from network_hears_one_chain [OF demo_new_client hdr demo_db_documented run this]
  have "chained (child_of tree_hash (committed c)) (finalized_history tree_hash (committed c))" by simp
  with c(2) have "chained (child_of tree_hash (committed c)) [1, 4, 9]" by simp
  with run c show ?thesis by (intro exI [of _ ?as] exI [of _ ?t]) (simp add: tree_hash_def)
qed

end
