(* ===== verification/Client_Traits.thy ===== *)
theory Client_Traits
  imports Client_New Mock_Runtime
begin

text \<open>
  The client seen through the traits that other parts of the node ask for
  (\<open>client/service/src/client/client.rs\<close>): each implementation hands its calls to the client's own
  operations or to the backend. An implementation is a record of operations, one field per method; an
  implementation for a reference to the client is built from the one for the client.
\<close>

section \<open>Traits\<close>

record ChainHeaderBackend =
  chb_header :: "BlockId \<Rightarrow> (blockchain_error, Header option) result"
  chb_info :: chain_info
  chb_status :: "BlockId \<Rightarrow> (blockchain_error, chain_status) result"
  chb_number :: "H256 \<Rightarrow> (blockchain_error, BlockNumber option) result"
  chb_hash :: "BlockNumber \<Rightarrow> (blockchain_error, H256 option) result"

record BlockBackend =
  bl_block_body :: "BlockId \<Rightarrow> (blockchain_error, Extrinsic list option) result"
  bl_block :: "BlockId \<Rightarrow> (blockchain_error, SignedBlock option) result"
  bl_block_status :: "client \<Rightarrow> BlockId \<Rightarrow> (blockchain_error, BlockStatus) result"
  bl_justifications :: "BlockId \<Rightarrow> (blockchain_error, Justification list option) result"
  bl_block_hash :: "BlockNumber \<Rightarrow> (blockchain_error, H256 option) result"
  bl_indexed_transaction :: "H256 \<Rightarrow> (blockchain_error, bytes option) result"
  bl_has_indexed_transaction :: "H256 \<Rightarrow> (blockchain_error, bool) result"

record BlockImport =
  bi_import_block :: "BlockImportParams \<Rightarrow> bytes \<Rightarrow> (client, ConsensusError, ImportResult) prog"
  bi_check_block :: "BlockCheckParams \<Rightarrow> (client, ConsensusError, ImportResult) prog"

record Finalizer =
  fi_apply_finality :: "BlockId \<Rightarrow> Justification option \<Rightarrow> bool \<Rightarrow> unit client_prog"
  fi_finalize_block :: "BlockId \<Rightarrow> Justification option \<Rightarrow> bool \<Rightarrow> unit client_prog"

record AuxStore =
  as_insert_aux :: "(bytes \<times> bytes) list \<Rightarrow> bytes list \<Rightarrow> unit client_prog"
  as_get_aux :: "bytes \<Rightarrow> (blockchain_error, bytes option) result"

text \<open>The header metadata is kept in a cache of the database, whose state is \<open>'s\<close>.\<close>

record ('s, 'm) HeaderMetadata =
  hm_header_metadata :: "H256 \<Rightarrow> ('s, blockchain_error, 'm) prog"
  hm_insert_header_metadata :: "H256 \<Rightarrow> 'm \<Rightarrow> 's \<Rightarrow> 's"
  hm_remove_header_metadata :: "H256 \<Rightarrow> 's \<Rightarrow> 's"

section \<open>The implementations for the client\<close>

definition client_header_metadata :: "('s, 'm) HeaderMetadata \<Rightarrow> ('s, 'm) HeaderMetadata" where
  "client_header_metadata blockchain =
     \<lparr>hm_header_metadata = (\<lambda>h. hm_header_metadata blockchain h),
      hm_insert_header_metadata = (\<lambda>h m. hm_insert_header_metadata blockchain h m),
      hm_remove_header_metadata = (\<lambda>h. hm_remove_header_metadata blockchain h)\<rparr>"

definition client_chain_headers ::
  "(BlockId \<Rightarrow> (blockchain_error, chain_status) result) \<Rightarrow> chain_queries \<Rightarrow> ChainHeaderBackend" where
  "client_chain_headers status q =
     \<lparr>chb_header = (\<lambda>bid. cq_header q bid), chb_info = cb_info (cq_backend q), chb_status = (\<lambda>bid. status bid),
      chb_number = (\<lambda>h. client_number q h), chb_hash = (\<lambda>n. cb_hash (cq_backend q) n)\<rparr>"

definition client_block_backend :: "chain_queries \<Rightarrow> BlockBackend" where
  "client_block_backend q =
     \<lparr>bl_block_body = (\<lambda>bid. client_body q bid), bl_block = (\<lambda>bid. client_block q bid),
      bl_block_status = (\<lambda>c bid. block_status (cq_backend q) c bid),
      bl_justifications = (\<lambda>bid. client_justifications q bid), bl_block_hash = (\<lambda>n. block_hash q n),
      bl_indexed_transaction = (\<lambda>h. indexed_transaction q h),
      bl_has_indexed_transaction = (\<lambda>h. has_indexed_transaction q h)\<rparr>"

definition chain_block_status ::
  "(blockchain_error \<Rightarrow> 'e) \<Rightarrow> chain_queries \<Rightarrow> client \<Rightarrow> BlockId \<Rightarrow> ('e, BlockStatus) result" where
  "chain_block_status boxed q c bid = map_err boxed (block_status (cq_backend q) c bid)"

definition provide_cache :: "'cache option \<Rightarrow> 'cache option" where
  "provide_cache blockchain_cache = blockchain_cache"

definition client_runtime_api :: "('ov, 'c, 'st, 'a) mock_env \<Rightarrow> ('ov, 'c) MockRuntimeApiImpl" where
  "client_runtime_api env = construct_runtime_api env"

definition api_runtime_version_at ::
  "(blockchain_error \<Rightarrow> 'e) \<Rightarrow> ('st, 'tr, 'm, 'ov) call_env \<Rightarrow> BlockId \<Rightarrow> ('e, RuntimeVersion) result" where
  "api_runtime_version_at into env bid = map_err into (client_runtime_version_at env bid)"

text \<open>Listening for storage changes registers with the storage notifications, whose state is \<open>'s\<close>.\<close>

definition storage_changes_notification_stream ::
  "(StorageKey list option \<Rightarrow> (StorageKey \<times> StorageKey list option) list option \<Rightarrow> 's \<Rightarrow> 'stream \<times> 's) \<Rightarrow>
     StorageKey list option \<Rightarrow> (StorageKey \<times> StorageKey list option) list option \<Rightarrow>
     ('s, blockchain_error, 'stream) prog" where
  "storage_changes_notification_stream listen filter_keys child_filter_keys s =
     (case listen filter_keys child_filter_keys s of (stream, s') \<Rightarrow> (Ok stream, s'))"

section \<open>The implementations for references\<close>

definition ref_block_import :: "chain_queries \<Rightarrow> BlockImport" where
  "ref_block_import q =
     \<lparr>bi_import_block = import_block (cq_backend q),
      bi_check_block = (\<lambda>b c. (map_err ClientImport (check_block (cq_backend q) c b), c))\<rparr>"

definition client_block_import :: "chain_queries \<Rightarrow> BlockImport" where
  "client_block_import q =
     \<lparr>bi_import_block = (\<lambda>ib new_cache. bi_import_block (ref_block_import q) ib new_cache),
      bi_check_block = (\<lambda>b. bi_check_block (ref_block_import q) b)\<rparr>"

definition ref_chain_headers ::
  "(BlockId \<Rightarrow> (blockchain_error, chain_status) result) \<Rightarrow> chain_queries \<Rightarrow> ChainHeaderBackend" where
  "ref_chain_headers status q =
     \<lparr>chb_header = (\<lambda>bid. cq_header q bid), chb_info = cb_info (cq_backend q),
      chb_status = (\<lambda>bid. chb_status (client_chain_headers status q) bid),
      chb_number = (\<lambda>h. chb_number (client_chain_headers status q) h),
      chb_hash = (\<lambda>n. chb_hash (client_chain_headers status q) n)\<rparr>"

definition client_finalizer :: "chain_queries \<Rightarrow> Finalizer" where
  "client_finalizer q =
     \<lparr>fi_apply_finality = apply_finality (cq_backend q), fi_finalize_block = finalize_block (cq_backend q)\<rparr>"

definition ref_finalizer :: "chain_queries \<Rightarrow> Finalizer" where
  "ref_finalizer q =
     \<lparr>fi_apply_finality = (\<lambda>bid j notify. fi_apply_finality (client_finalizer q) bid j notify),
      fi_finalize_block = (\<lambda>bid j notify. fi_finalize_block (client_finalizer q) bid j notify)\<rparr>"

definition client_aux_store :: "chain_queries \<Rightarrow> AuxStore" where
  "client_aux_store q = \<lparr>as_insert_aux = insert_aux q, as_get_aux = get_aux q\<rparr>"

definition ref_aux_store :: "chain_queries \<Rightarrow> AuxStore" where
  "ref_aux_store q =
     \<lparr>as_insert_aux = (\<lambda>ins del. as_insert_aux (client_aux_store q) ins del),
      as_get_aux = (\<lambda>key. as_get_aux (client_aux_store q) key)\<rparr>"

section \<open>Lemmas\<close>

text \<open>A reference to the client is as good as the client.\<close>

lemma references_transparent:
  "client_block_import q = ref_block_import q" "ref_finalizer q = client_finalizer q"
  "ref_aux_store q = client_aux_store q" "ref_chain_headers status q = client_chain_headers status q"
  by (simp_all add: client_block_import_def ref_block_import_def ref_finalizer_def client_finalizer_def
      ref_aux_store_def client_aux_store_def ref_chain_headers_def client_chain_headers_def)

end
