(* ===== verification/Readonly_Db.thy ===== *)
theory Readonly_Db
  imports Archive_Prelude
begin

text \<open>
  The read-only database (\<open>archive/traits/src/readonly/rocksdb.rs\<close>): a secondary RocksDB instance that
  follows the primary one of the node by catching up, the memory budget of its columns, and its reads.
  The engine itself belongs to another package and is a parameter of the definitions.
\<close>

section \<open>Model\<close>

text \<open>\<open>readonly/mod.rs\<close>: the columns of the node's database.\<close>

definition NUM_COLUMNS :: u32 where
  "NUM_COLUMNS = 12"

definition STATE_COLUMN :: u32 where
  "STATE_COLUMN = 1"

record RocksDbConfig =
  rk_path :: "string option"
  rk_cache_size :: usize
  rk_secondary_db_path :: "string option"

record DatabaseConfig =
  dc_columns :: u32
  dc_secondary :: "string option"
  dc_memory_budget :: "u32 \<rightharpoonup> usize"

text \<open>The engine: opening a database, catching up with the primary, reading. \<open>nine_tenths\<close> is the
  product of the cache size with 0.9 in floating point, cut back to an integer.\<close>

record 's rocks_engine =
  en_open :: "DatabaseConfig \<Rightarrow> string \<Rightarrow> ('s, string, unit) prog"
  en_catch_up :: "('s, string, unit) prog"
  en_get :: "u32 \<Rightarrow> bytes \<Rightarrow> ('s, string, bytes option) prog"
  nine_tenths :: "usize \<Rightarrow> usize"

definition state_col_budget :: "'s rocks_engine \<Rightarrow> usize \<Rightarrow> usize" where
  "state_col_budget en cache_size = nine_tenths en cache_size"

definition other_col_budget :: "'s rocks_engine \<Rightarrow> usize \<Rightarrow> usize" where
  "other_col_budget en cache_size = (cache_size - state_col_budget en cache_size) div (ucast NUM_COLUMNS - 1)"

definition memory_budget :: "'s rocks_engine \<Rightarrow> usize \<Rightarrow> u32 \<rightharpoonup> usize" where
  "memory_budget en cache_size =
     fold (\<lambda>i m. m(i \<mapsto> (if i = STATE_COLUMN then state_col_budget en cache_size else other_col_budget en cache_size)))
       (map of_nat [0..<unat NUM_COLUMNS]) (\<lambda>_. None)"

definition secondary_open :: "'s rocks_engine \<Rightarrow> RocksDbConfig \<Rightarrow> ('s, string, unit) prog" where
  "secondary_open en config =
     pbind (return_prog (expect_some ''Cannot find primary rocksdb'' (rk_path config))) (\<lambda>path.
     pbind (return_prog (expect_some ''Cannot create secondary rocksdb db'' (rk_secondary_db_path config))) (\<lambda>secondary.
     pbind (en_open en \<lparr>dc_columns = NUM_COLUMNS, dc_secondary = Some secondary,
              dc_memory_budget = memory_budget en (rk_cache_size config)\<rparr> path) (\<lambda>_.
       en_catch_up en)))"

text \<open>A read: a missing key and an error both make the instance catch up, but only the error is
  retried.\<close>

definition secondary_get :: "'s rocks_engine \<Rightarrow> u32 \<Rightarrow> bytes \<Rightarrow> ('s, 'e, bytes option) prog" where
  "secondary_get en col key s =
     (case en_get en col key s of
        (Ok (Some v), s1) \<Rightarrow> (Ok (Some v), s1)
      | (Ok None, s1) \<Rightarrow>
          (case en_catch_up en s1 of
             (Ok _, s2) \<Rightarrow> (Ok None, s2)
           | (Err _, s2) \<Rightarrow> (Ok None, s2)
           | (Panic w, s2) \<Rightarrow> (Panic w, s2))
      | (Err _, s1) \<Rightarrow>
          (case en_catch_up en s1 of
             (Ok _, s2) \<Rightarrow>
               (case en_get en col key s2 of
                  (Ok v, s3) \<Rightarrow> (Ok v, s3)
                | (Err _, s3) \<Rightarrow> (Ok None, s3)
                | (Panic w, s3) \<Rightarrow> (Panic w, s3))
           | (Err _, s2) \<Rightarrow> (Ok None, s2)
           | (Panic w, s2) \<Rightarrow> (Panic w, s2))
      | (Panic w, s1) \<Rightarrow> (Panic w, s1))"

definition secondary_commit :: "('s, 'e, unit) prog" where
  "secondary_commit = return_prog (Panic ''Read-only database don't support commit transaction'')"

section \<open>What is relied on\<close>

text \<open>
  A secondary instance reads from its own view of the data; catching up replaces the view by what the
  primary holds, and a failed catch-up leaves it.
\<close>

definition replica_laws ::
  "'s rocks_engine \<Rightarrow> ('s \<Rightarrow> u32 \<Rightarrow> bytes \<Rightarrow> bytes option) \<Rightarrow> ('s \<Rightarrow> u32 \<Rightarrow> bytes \<Rightarrow> bytes option) \<Rightarrow> bool" where
  "replica_laws en view primary \<longleftrightarrow>
     (\<forall>col key s r s'. en_get en col key s = (r, s') \<longrightarrow>
        view s' = view s \<and> primary s' = primary s \<and> (\<forall>v. r = Ok v \<longrightarrow> v = view s col key)) \<and>
     (\<forall>s r s'. en_catch_up en s = (r, s') \<longrightarrow>
        primary s' = primary s \<and> view s' = (if is_ok r then primary s else view s))"

section \<open>Lemmas\<close>

lemma replica_getD:
  assumes "replica_laws en view primary" and "en_get en col key s = (r, s')"
  shows "view s' = view s" and "primary s' = primary s" and "r = Ok v \<Longrightarrow> v = view s col key"
  using assms by (auto simp: replica_laws_def)

lemma replica_catch_upD:
  assumes "replica_laws en view primary" and "en_catch_up en s = (r, s')"
  shows "primary s' = primary s" and "view s' = (if is_ok r then primary s else view s)"
  using assms by (auto simp: replica_laws_def)

lemma columns_listed: "set (map of_nat [0..<unat NUM_COLUMNS]) = {i :: u32. i < NUM_COLUMNS}"
proof -
  have "\<exists>k \<in> {0..<unat NUM_COLUMNS}. i = of_nat k" if "i < NUM_COLUMNS" for i :: u32
    using that by (intro bexI [of _ "unat i"]) (simp_all add: word_less_nat_alt)
  moreover have "(of_nat k :: u32) < NUM_COLUMNS" if "k < unat NUM_COLUMNS" for k
    using that by (simp add: NUM_COLUMNS_def word_less_nat_alt unat_of_nat)
  ultimately show ?thesis by (auto simp: image_iff)
qed

lemma fold_update: "fold (\<lambda>i m. m(i \<mapsto> f i)) is m k = (if k \<in> set is then Some (f k) else m k)"
  by (induction "is" arbitrary: m) auto

lemma memory_budget_at:
  "memory_budget en c i =
     (if i < NUM_COLUMNS then Some (if i = STATE_COLUMN then state_col_budget en c else other_col_budget en c) else None)"
  unfolding memory_budget_def fold_update columns_listed by simp

section \<open>Properties\<close>

text \<open>A read never reports an error and never makes up data: unless the engine panics,
  it returns nothing, the value in the view before the read, or the value the primary had. Reading
  changes nothing on the primary, and leaves the view as it was or at the primary's data.\<close>

lemma secondary_read_sound:
  assumes laws: "replica_laws en view primary" and run: "secondary_get en col key s = (r, s')"
  shows "primary s' = primary s \<and> (\<exists>w. r = Panic w \<or> r = Ok None \<or>
    r = Ok (view s col key) \<or> r = Ok (primary s col key)) \<and> (view s' = view s \<or> view s' = primary s)"
proof -
  obtain r1 s1 where get: "en_get en col key s = (r1, s1)" by fastforce
  obtain r2 s2 where catch: "en_catch_up en s1 = (r2, s2)" by fastforce
  obtain r3 s3 where again: "en_get en col key s2 = (r3, s3)" by fastforce
  note g = replica_getD [OF laws get] and c = replica_catch_upD [OF laws catch] and a = replica_getD [OF laws again]
  show ?thesis
  proof (cases r1)
    case (Ok v)
    then show ?thesis
      using run get catch g c by (cases v; cases r2) (auto simp: secondary_get_def)
  next
    case (Err e)
    show ?thesis
    proof (cases r2)
      case (Ok u)
      have "view s2 = primary s" using Ok c(2) g(2) by simp
      then show ?thesis
        using Ok Err run get catch again g c(1) a by (cases r3) (auto simp: secondary_get_def)
    qed (use Err run get catch g c in \<open>auto simp: secondary_get_def\<close>)
  next
    case (Panic w)
    then show ?thesis using run get g by (auto simp: secondary_get_def)
  qed
qed

text \<open>A key that the primary has written since the last catch-up is reported as absent by the first
  read that misses it, although that very read catches up; a second read finds it.\<close>

lemma first_read_misses:
  assumes laws: "replica_laws en view primary"
    and behind: "view s col key = None" "primary s col key = Some v"
    and works: "\<And>t. is_ok (fst (en_get en col key t))" "\<And>t. is_ok (fst (en_catch_up en t))"
  shows "\<exists>s1 s2. secondary_get en col key s = (Ok None, s1) \<and> secondary_get en col key s1 = (Ok (Some v), s2)"
proof -
  have get: "\<exists>t'. en_get en col key t = (Ok (view t col key), t')" for t
    using replica_getD(3) [OF laws, of col key t] works(1) [of t]
    by (cases "en_get en col key t"; cases "fst (en_get en col key t)") auto
  obtain t1 where t1: "en_get en col key s = (Ok None, t1)" using get [of s] behind(1) by auto
  obtain u t2 where t2: "en_catch_up en t1 = (Ok u, t2)"
    using works(2) [of t1] by (cases "en_catch_up en t1"; cases "fst (en_catch_up en t1)") auto
  have "view t2 col key = Some v"
    using replica_catch_upD(2) [OF laws t2] replica_getD(2) [OF laws t1] behind(2) by simp
  then obtain t3 where "en_get en col key t2 = (Ok (Some v), t3)" using get [of t2] by auto
  with t1 t2 show ?thesis by (simp add: secondary_get_def)
qed

text \<open>Every column of the database gets a budget and no other does; as long as the share of the
  state column is not above the whole cache, the subtraction does not wrap and the budgets of the
  columns together fit into the cache.\<close>

lemma budgets_fit_cache:
  assumes "state_col_budget en c \<le> c"
  shows "dom (memory_budget en c) = {i. i < 12} \<and>
    unat (state_col_budget en c) + 11 * unat (other_col_budget en c) \<le> unat c"
proof -
  have "unat (other_col_budget en c) = (unat c - unat (state_col_budget en c)) div 11"
    using assms by (simp add: other_col_budget_def NUM_COLUMNS_def unat_div unat_sub)
  moreover have "unat (state_col_budget en c) \<le> unat c" using assms by (simp add: word_le_nat_alt)
  ultimately have "unat (state_col_budget en c) + 11 * unat (other_col_budget en c) \<le> unat c"
    by simp
  moreover have "dom (memory_budget en c) = {i. i < 12}"
    by (auto simp: memory_budget_at NUM_COLUMNS_def split: if_splits)
  ultimately show ?thesis by simp
qed

section \<open>A concrete engine\<close>

text \<open>A state is the view and the primary of one key each.\<close>

definition demo_engine :: "(bytes option \<times> bytes option) rocks_engine" where
  "demo_engine = \<lparr>en_open = (\<lambda>_ _. ret ()), en_catch_up = modify_prog (\<lambda>(v, p). (p, p)),
     en_get = (\<lambda>_ _. gets_prog fst), nine_tenths = (\<lambda>x. x div 10 * 9)\<rparr>"

lemma demo_replica: "replica_laws demo_engine (\<lambda>s _ _. fst s) (\<lambda>s _ _. snd s)"
  by (auto simp: replica_laws_def demo_engine_def)

end
