(* ===== verification/Archive_Cli.thy ===== *)
theory Archive_Cli
  imports Network_Future Readonly_Db Archive_Runtime
begin

text \<open>
  Starting the node: the archive's configuration (\<open>archive/src/config.rs\<close>), the command line
  (\<open>cli/src/command.rs\<close>), the development chain (\<open>cli/src/chain_spec.rs\<close>) and the assembly of the
  service (\<open>cli/src/service.rs\<close>). The host, the database engines, consensus and networking are
  parameters; what is started on them is recorded.
\<close>

section \<open>Model\<close>

subsection \<open>Configuration\<close>

datatype Strategy = LocalBackend | ReadonlyBackend | RemoteDb | Rpc | None_strategy
datatype Runtime = RuntimeApi | MockRuntimeApi

record CliConfig =
  block_num :: u32
  reset_force :: bool
  strategy :: Strategy
  runtime :: Runtime

record PostgresConfig =
  uri :: string
  min_connections :: u32
  max_connections :: u32
  connect_timeout :: u64
  idle_timeout :: "u64 option"
  max_lifetime :: "u64 option"

text \<open>The options of the connection pool (\<open>archive/postgres/src/database/mod.rs\<close>).\<close>

record PgPoolOptions =
  po_min_connections :: u32
  po_max_connections :: u32
  po_connect_timeout :: u64
  po_idle_timeout :: "u64 option"
  po_max_lifetime :: "u64 option"

definition postgres_new ::
  "(string \<Rightarrow> (SqlxError, 'o) result) \<Rightarrow> (PgPoolOptions \<Rightarrow> 'o \<Rightarrow> (SqlxError, unit) result) \<Rightarrow> PostgresConfig \<Rightarrow>
     (SqlxError, unit) result" where
  "postgres_new parse_uri connect_with config =
     and_then (parse_uri (uri config)) (\<lambda>options.
       connect_with \<lparr>po_min_connections = min_connections config, po_max_connections = max_connections config,
         po_connect_timeout = connect_timeout config, po_idle_timeout = idle_timeout config,
         po_max_lifetime = max_lifetime config\<rparr> options)"

record ArchiveConfig =
  ac_rocksdb :: RocksDbConfig
  ac_cli :: CliConfig
  ac_postgres :: PostgresConfig
  ac_kafka :: "KafkaConfig option"

text \<open>What the process finds around it: environment variables, files, and the parsers of the two file
  formats.\<close>

record 'spec host =
  env_var :: "string \<Rightarrow> string option"
  read_to_string :: "string \<Rightarrow> (string, string) result"
  toml_from_str :: "string \<Rightarrow> (string, ArchiveConfig) result"
  from_json_file :: "string \<Rightarrow> (string, 'spec) result"
  development_spec :: "'spec"
  spec_build_storage :: "'spec \<Rightarrow> (string, GenesisStorage) result"

datatype cli_error = Cli_input string | Cli_io string | Cli_service node_error

definition archive_cli_init :: "'spec host \<Rightarrow> (cli_error, ArchiveConfig) result" where
  "archive_cli_init h =
     and_then (ok_or (Cli_input ''env'') (env_var h ''ARCHIVE_CONFIG'')) (\<lambda>config_path.
     and_then (map_err Cli_io (read_to_string h config_path)) (\<lambda>toml_str.
       map_err (\<lambda>_. Cli_input ''toml'') (toml_from_str h toml_str)))"

subsection \<open>Chain specification\<close>

record GenesisConfig =
  gc_system_code :: bytes
  gc_system_changes_trie_config :: "bytes option"
  gc_sudo_key :: bytes
  gc_babe_authorities :: "bytes list"
  gc_babe_epoch_config :: "BabeEpochConfiguration option"
  gc_grandpa_authorities :: "bytes list"

record DevelopmentSpec =
  dv_name :: string
  dv_id :: string
  dv_genesis :: GenesisConfig
  dv_boot_nodes :: "string list"
  dv_ss58_format :: nat
  dv_token_decimals :: nat
  dv_token_symbol :: string

text \<open>Deriving keys belongs to the crypto library: a pair from a secret, its public key, the account of it.\<close>

definition get_from_seed :: "(string \<Rightarrow> ('e, 'pair) result) \<Rightarrow> ('pair \<Rightarrow> 'pub) \<Rightarrow> string \<Rightarrow> ('f, 'pub) result" where
  "get_from_seed from_string public seed =
     map_ok public (unwrap_result ''static values are valid; qed'' (from_string (''//'' @ seed)))"

definition get_account_id_from_seed ::
  "(string \<Rightarrow> ('e, 'pair) result) \<Rightarrow> ('pair \<Rightarrow> 'pub) \<Rightarrow> ('pub \<Rightarrow> 'signer) \<Rightarrow> ('signer \<Rightarrow> bytes) \<Rightarrow> string \<Rightarrow>
     ('f, bytes) result" where
  "get_account_id_from_seed from_string public account_public into_account seed =
     map_ok (\<lambda>k. into_account (account_public k)) (get_from_seed from_string public seed)"

definition genesis_config :: "bytes \<Rightarrow> bytes list \<Rightarrow> bool \<Rightarrow> GenesisConfig" where
  "genesis_config root_key endowed_accounts enable_println =
     \<lparr>gc_system_code = [], gc_system_changes_trie_config = None, gc_sudo_key = root_key,
      gc_babe_authorities = [], gc_babe_epoch_config = Some BABE_GENESIS_EPOCH_CONFIG,
      gc_grandpa_authorities = []\<rparr>"

definition development_config :: "(string \<Rightarrow> bytes) \<Rightarrow> (string, DevelopmentSpec) result" where
  "development_config account_id_from_seed =
     Ok \<lparr>dv_name = ''Development'', dv_id = ''dev'',
         dv_genesis = genesis_config (account_id_from_seed ''Alice'')
           (map account_id_from_seed [''Alice'', ''Bob'', ''Alice//stash'', ''Bob//stash'']) True,
         dv_boot_nodes = [], dv_ss58_format = 42, dv_token_decimals = 10, dv_token_symbol = ''DOT''\<rparr>"

definition load_spec :: "'spec host \<Rightarrow> string \<Rightarrow> (string, 'spec) result" where
  "load_spec h spec_id =
     (case env_var h ''ARCHIVE_JSON'' of
        Some path \<Rightarrow> from_json_file h path
      | None \<Rightarrow> if spec_id = ''dev'' then Ok (development_spec h) else from_json_file h spec_id)"

text \<open>What the command says about itself; the three texts come from the build.\<close>

record cli_info =
  cli_impl_name :: string
  cli_impl_version :: string
  description :: string
  author :: string
  support_url :: string
  copyright_start_year :: int

definition cli_info_of :: "string \<Rightarrow> string \<Rightarrow> string \<Rightarrow> cli_info" where
  "cli_info_of version_env description_env authors_env =
     \<lparr>cli_impl_name = ''Archive Dev Node'', cli_impl_version = version_env, description = description_env,
      author = authors_env, support_url = ''https://github.com/patractlabs/patract-archive'',
      copyright_start_year = 2021\<rparr>"

definition native_runtime_version :: "(bytes \<times> u32) list \<Rightarrow> 'spec \<Rightarrow> RuntimeVersion" where
  "native_runtime_version api_versions chain_spec = VERSION api_versions"

definition gen_genesis_storages :: "'spec host \<Rightarrow> (node_error, GenesisStorage) result" where
  "gen_genesis_storages h =
     and_then (ok_or (Node_other ''env'') (env_var h ''ARCHIVE_JSON'')) (\<lambda>config_path.
     and_then (unwrap_result ''generate chain spec from json bytes'' (from_json_file h config_path)) (\<lambda>json.
       map_err (\<lambda>_. Node_other ''build storage error'') (spec_build_storage h json)))"

subsection \<open>The node's configuration and its libraries\<close>

datatype ExecutionStrategy = NativeWhenPossible | AlwaysWasm | Both | NativeElseWasm

record ExecutionStrategies =
  es_syncing :: ExecutionStrategy
  es_importing :: ExecutionStrategy
  es_block_construction :: ExecutionStrategy
  es_offchain_worker :: ExecutionStrategy
  es_other :: ExecutionStrategy

datatype PruningMode = Constrained u32 | ArchiveAll | ArchiveCanonical
datatype database_source = Configured_database string | Custom_secondary

record node_config =
  nd_base :: Configuration
  nd_execution_strategies :: ExecutionStrategies
  nd_state_pruning :: PruningMode
  nd_state_cache_size :: usize
  nd_state_cache_child_ratio :: "usize option"
  nd_database :: string
  nd_keep_blocks :: "u32 option"
  nd_transaction_storage :: nat
  nd_telemetry_endpoints :: "string list option"
  nd_network :: network_config
  nd_disable_grandpa :: bool

record DatabaseSettings =
  ds_state_cache_size :: usize
  ds_state_cache_child_ratio :: "(usize \<times> usize) option"
  ds_state_pruning :: PruningMode
  ds_source :: database_source
  ds_keep_blocks :: "u32 option"
  ds_transaction_storage :: nat

record ('be, 's) node_libs =
  nl_open_backend :: "DatabaseSettings \<Rightarrow> u64 \<Rightarrow> (blockchain_error, 'be) result"
  nl_rocks :: "'s rocks_engine"
  nl_telemetry_worker :: "(string, unit) result"
  nl_hasher :: "bytes \<Rightarrow> u64"
  nl_reader :: version_reader
  nl_genesis :: genesis_env
  nl_kafka :: kafka_env
  nl_parse_uri :: "string \<Rightarrow> (SqlxError, string) result"
  nl_connect_with :: "PgPoolOptions \<Rightarrow> string \<Rightarrow> (SqlxError, unit) result"
  nl_grandpa_block_import :: "(blockchain_error, unit) result"
  nl_babe_config :: "(blockchain_error, unit) result"
  nl_babe_block_import :: "(blockchain_error, unit) result"
  nl_import_queue :: "(blockchain_error, unit) result"
  nl_grandpa_voter :: "(blockchain_error, unit) result"

text \<open>The node while it is put together: its tasks by name, its database, the secondary instance, and
  whether the network was started.\<close>

record 's node_state =
  ns_tasks :: "string list"
  ns_database :: "op_action list list"
  ns_rocks :: 's
  ns_network_started :: bool

type_synonym ('s, 'a) node_prog = "('s node_state, node_error, 'a) prog"

abbreviation on_tasks :: "(string list, 'e, 'a) prog \<Rightarrow> ('s node_state, 'e, 'a) prog" where
  "on_tasks \<equiv> zoom ns_tasks (\<lambda>t s. s\<lparr>ns_tasks := t\<rparr>)"

text \<open>Which backend each part of the archive reads, and the number sent to the executor at once, if
  any.\<close>

record 'be archive_plan =
  ap_executor_backend :: 'be
  ap_version_backend :: 'be
  ap_comparer_backend :: 'be
  ap_first_number :: "u32 option"
  ap_genesis :: GenesisStorage

subsection \<open>The service\<close>

definition spawn_cond :: "string \<Rightarrow> ('s, unit) node_prog" where
  "spawn_cond name = on_tasks (spawn name)"

definition start_archive ::
  "('be, 's) node_libs \<Rightarrow> ArchiveConfig \<Rightarrow> 'be \<Rightarrow> 'be \<Rightarrow> GenesisStorage \<Rightarrow> ('s, 'be archive_plan) node_prog" where
  "start_archive libs ac backend readonly_backend genesis_storage =
     pbind (return_prog (expect_some ''called `Option::unwrap()` on a `None` value'' (ac_kafka ac))) (\<lambda>kafka.
     pbind (return_prog (unwrap_result ''called `Result::unwrap()` on an `Err` value''
              (notifier_new (nl_kafka libs) (postgres_new (nl_parse_uri libs) (nl_connect_with libs) (ac_postgres ac)) kafka))) (\<lambda>_.
     pbind (spawn_cond ''archiver'') (\<lambda>_.
     pbind (if reset_force (ac_cli ac) then ret () else spawn_cond ''initializer'') (\<lambda>_.
     pbind (spawn_cond ''executor'') (\<lambda>_.
     pbind (spawn_cond ''comparer'') (\<lambda>_.
       ret \<lparr>ap_executor_backend = readonly_backend, ap_version_backend = readonly_backend,
            ap_comparer_backend = backend,
            ap_first_number = (if reset_force (ac_cli ac) then Some (block_num (ac_cli ac)) else None),
            ap_genesis = genesis_storage\<rparr>))))))"

definition make_telemetry :: "('be, 's) node_libs \<Rightarrow> node_config \<Rightarrow> (node_error, bool) result" where
  "make_telemetry libs config =
     (case nd_telemetry_endpoints config of
        None \<Rightarrow> Ok False
      | Some endpoints \<Rightarrow>
          if endpoints = [] then Ok False
          else map_ok (\<lambda>_. True) (map_err Node_telemetry (nl_telemetry_worker libs)))"

definition make_client :: "('be, 's) node_libs \<Rightarrow> node_config \<Rightarrow> ('s, (u32 \<rightharpoonup> WasmBlob) option \<times> client) node_prog" where
  "make_client libs config s =
     (case new_full_parts (nl_hasher libs) (nl_reader libs) (nl_genesis libs) (nd_base config) (ns_database s) of
        (r, d) \<Rightarrow> (r, s\<lparr>ns_database := d\<rparr>))"

definition make_import_queue :: "('be, 's) node_libs \<Rightarrow> (node_error, unit) result" where
  "make_import_queue libs =
     and_then (map_err Node_client (nl_grandpa_block_import libs)) (\<lambda>_.
     and_then (map_err Node_client (nl_babe_config libs)) (\<lambda>_.
     and_then (map_err Node_client (nl_babe_block_import libs)) (\<lambda>_.
       map_err Node_client (nl_import_queue libs))))"

definition start_grandpa :: "('be, 's) node_libs \<Rightarrow> node_config \<Rightarrow> ('s, unit) node_prog" where
  "start_grandpa libs config =
     (if nd_disable_grandpa config then ret ()
      else pbind (return_prog (map_err Node_client (nl_grandpa_voter libs))) (\<lambda>_. spawn_cond ''grandpa-voter''))"

definition start_network :: "('s, unit) node_prog" where
  "start_network = modify_prog (\<lambda>s. s\<lparr>ns_network_started := True\<rparr>)"

text \<open>Everything after the archive's own tasks.\<close>

definition start_node_services :: "('be, 's) node_libs \<Rightarrow> node_config \<Rightarrow> bool \<Rightarrow> ('s, unit) node_prog" where
  "start_node_services libs config telemetry =
     pbind (if telemetry then spawn_cond ''telemetry'' else ret ()) (\<lambda>_.
     pbind (return_prog (make_import_queue libs)) (\<lambda>_.
     pbind (on_tasks (build_network ((nd_network config)\<lparr>nc_extra_sets := nc_extra_sets (nd_network config) @ [''grandpa'']\<rparr>) None)) (\<lambda>_.
     pbind (start_grandpa libs config) (\<lambda>_.
       start_network))))"

definition new_full_base ::
  "('be, 's) node_libs \<Rightarrow> node_config \<Rightarrow> ArchiveConfig \<Rightarrow> 'be \<Rightarrow> 'be \<Rightarrow> bool \<Rightarrow> GenesisStorage \<Rightarrow>
     ('s, 'be archive_plan option) node_prog" where
  "new_full_base libs config ac backend readonly_backend start_channels genesis_storage =
     pbind (return_prog (make_telemetry libs config)) (\<lambda>telemetry.
     pbind (make_client libs config) (\<lambda>_.
     pbind (if start_channels
            then pbind (start_archive libs ac backend readonly_backend genesis_storage) (\<lambda>plan. ret (Some plan))
            else ret None) (\<lambda>plan.
     pbind (start_node_services libs config telemetry) (\<lambda>_.
       ret plan))))"

definition new_full ::
  "('be, 's) node_libs \<Rightarrow> node_config \<Rightarrow> ArchiveConfig \<Rightarrow> 'be \<Rightarrow> 'be \<Rightarrow> bool \<Rightarrow> GenesisStorage \<Rightarrow>
     ('s, 'be archive_plan option) node_prog" where
  "new_full libs config ac backend readonly_backend start_channels genesis_storage =
     new_full_base libs config ac backend readonly_backend start_channels genesis_storage"

subsection \<open>The command\<close>

definition CANONICALIZATION_DELAY :: u64 where
  "CANONICALIZATION_DELAY = 4096"

definition archive_defaults :: "node_config \<Rightarrow> node_config" where
  "archive_defaults config = config
     \<lparr>nd_execution_strategies := \<lparr>es_syncing = AlwaysWasm, es_importing = AlwaysWasm, es_block_construction = AlwaysWasm,
        es_offchain_worker = AlwaysWasm, es_other = AlwaysWasm\<rparr>,
      nd_state_pruning := ArchiveAll\<rparr>"

definition database_settings :: "node_config \<Rightarrow> database_source \<Rightarrow> DatabaseSettings" where
  "database_settings config source =
     \<lparr>ds_state_cache_size = nd_state_cache_size config,
      ds_state_cache_child_ratio = map_option (\<lambda>v. (v, 100)) (nd_state_cache_child_ratio config),
      ds_state_pruning = nd_state_pruning config, ds_source = source,
      ds_keep_blocks = nd_keep_blocks config, ds_transaction_storage = nd_transaction_storage config\<rparr>"

definition open_backend ::
  "('be, 's) node_libs \<Rightarrow> node_config \<Rightarrow> database_source \<Rightarrow> ('s, 'be) node_prog" where
  "open_backend libs config source =
     return_prog (map_err Node_client (nl_open_backend libs (database_settings config source) CANONICALIZATION_DELAY))"

text \<open>The backend the archive reads from and whether its tasks are started, by the strategy.\<close>

definition choose_backend ::
  "('be, 's) node_libs \<Rightarrow> node_config \<Rightarrow> ArchiveConfig \<Rightarrow> 'be \<Rightarrow> ('s, 'be \<times> bool) node_prog" where
  "choose_backend libs config ac backend =
     (case strategy (ac_cli ac) of
        ReadonlyBackend \<Rightarrow>
          pbind (zoom ns_rocks (\<lambda>r s. s\<lparr>ns_rocks := r\<rparr>) (map_err_prog Node_io (secondary_open (nl_rocks libs) (ac_rocksdb ac)))) (\<lambda>_.
          pbind (open_backend libs config Custom_secondary) (\<lambda>readonly_backend.
            ret (readonly_backend, True)))
      | None_strategy \<Rightarrow> ret (backend, False)
      | _ \<Rightarrow> ret (backend, True))"

definition do_work ::
  "'spec host \<Rightarrow> ('be, 's) node_libs \<Rightarrow> node_config \<Rightarrow> ArchiveConfig \<Rightarrow>
     ('s, Runtime \<times> 'be archive_plan option) node_prog" where
  "do_work h libs config ac =
     pbind (return_prog (gen_genesis_storages h)) (\<lambda>genesis_storages.
     pbind (open_backend libs (archive_defaults config) (Configured_database (nd_database config))) (\<lambda>backend.
     pbind (choose_backend libs (archive_defaults config) ac backend) (\<lambda>(readonly_backend, start_channels).
     pbind (new_full libs (archive_defaults config) ac backend readonly_backend start_channels genesis_storages) (\<lambda>plan.
       ret (runtime (ac_cli ac), plan)))))"

text \<open>The runner of the command line library may fail to start.\<close>

definition run_command ::
  "'spec host \<Rightarrow> ('be, 's) node_libs \<Rightarrow> (cli_error, node_config) result \<Rightarrow>
     ('s node_state, cli_error, Runtime \<times> 'be archive_plan option) prog" where
  "run_command h libs create_runner =
     pbind (return_prog (archive_cli_init h)) (\<lambda>archive_config.
     pbind (return_prog create_runner) (\<lambda>config.
       map_err_prog Cli_service (do_work h libs config archive_config)))"

section \<open>Lemmas\<close>

lemma spawn_cond_eval [simp]: "spawn_cond name s = (Ok (), s\<lparr>ns_tasks := ns_tasks s @ [name]\<rparr>)"
  by (simp add: spawn_cond_def spawn_def zoom_def)

definition archive_tasks :: "ArchiveConfig \<Rightarrow> string list" where
  "archive_tasks ac = [''archiver''] @ (if reset_force (ac_cli ac) then [] else [''initializer'']) @ [''executor'', ''comparer'']"

lemma start_archive_ok:
  assumes "start_archive libs ac backend ro g s = (Ok plan, t)"
  shows "ac_kafka ac \<noteq> None \<and> ns_tasks t = ns_tasks s @ archive_tasks ac \<and>
    plan = \<lparr>ap_executor_backend = ro, ap_version_backend = ro, ap_comparer_backend = backend,
      ap_first_number = (if reset_force (ac_cli ac) then Some (block_num (ac_cli ac)) else None), ap_genesis = g\<rparr>"
proof -
  from assms obtain kafka where k: "ac_kafka ac = Some kafka"
    by (cases "ac_kafka ac") (auto simp: start_archive_def pbind_def)
  from assms obtain c where n: "notifier_new (nl_kafka libs) (postgres_new (nl_parse_uri libs) (nl_connect_with libs) (ac_postgres ac)) kafka = Ok c"
    by (cases "notifier_new (nl_kafka libs) (postgres_new (nl_parse_uri libs) (nl_connect_with libs) (ac_postgres ac)) kafka")
      (auto simp: start_archive_def pbind_def k)
  from assms show ?thesis
    by (cases "reset_force (ac_cli ac)") (auto simp: start_archive_def pbind_def k n archive_tasks_def)
qed

text \<open>The services around the archive start tasks of other names only.\<close>

definition adds_tasks :: "string set \<Rightarrow> ('s, 'a) node_prog \<Rightarrow> bool" where
  "adds_tasks names m \<longleftrightarrow> (\<forall>s. \<exists>more. ns_tasks (snd (m s)) = ns_tasks s @ more \<and> set more \<subseteq> names)"

lemma adds_return [intro, simp]: "adds_tasks names (return_prog r)"
  by (simp add: adds_tasks_def)

lemma adds_spawn [intro, simp]: "name \<in> names \<Longrightarrow> adds_tasks names (spawn_cond name)"
  by (simp add: adds_tasks_def)

lemma adds_modify: "(\<And>s. ns_tasks (f s) = ns_tasks s) \<Longrightarrow> adds_tasks names (modify_prog f)"
  by (simp add: adds_tasks_def)

lemma adds_pbind [intro]:
  assumes "adds_tasks names m" and "\<And>x. adds_tasks names (f x)"
  shows "adds_tasks names (pbind m f)"
  unfolding adds_tasks_def
proof
  fix s
  obtain r t where m: "m s = (r, t)" by fastforce
  with assms(1) obtain more where more: "ns_tasks t = ns_tasks s @ more" "set more \<subseteq> names"
    by (metis adds_tasks_def snd_conv)
  have "\<exists>more'. ns_tasks (snd (f x t)) = ns_tasks t @ more' \<and> set more' \<subseteq> names" for x
    using assms(2) by (simp add: adds_tasks_def)
  then show "\<exists>more. ns_tasks (snd (pbind m f s)) = ns_tasks s @ more \<and> set more \<subseteq> names"
    using m more by (cases r) (auto simp: pbind_def, metis Un_least append_assoc set_append)
qed

abbreviation service_tasks :: "string set" where
  "service_tasks \<equiv> {''telemetry'', ''block_request_handler'', ''network-worker'', ''grandpa-voter''}"

lemma build_network_tasks: "adds_tasks service_tasks (on_tasks (build_network config v))"
proof -
  have "\<exists>more. snd (build_network config v tasks) = tasks @ more \<and> set more \<subseteq> service_tasks" for tasks
    by (cases "nc_worker config") (auto simp: build_network_def block_request_protocol_def spawn_def pbind_def)
  then show ?thesis by (simp add: adds_tasks_def)
qed

lemma services_tasks: "adds_tasks service_tasks (start_node_services libs config tel)"
  unfolding start_node_services_def start_grandpa_def start_network_def
  by (auto intro!: adds_pbind build_network_tasks adds_modify simp del: pbind_ret)

lemma new_full_ok:
  assumes "new_full libs config ac backend ro start g s = (Ok plan, t)"
  shows "\<exists>more. ns_tasks t = ns_tasks s @ (if start then archive_tasks ac else []) @ more \<and> set more \<subseteq> service_tasks"
    and "plan = (if start then Some \<lparr>ap_executor_backend = ro, ap_version_backend = ro, ap_comparer_backend = backend,
      ap_first_number = (if reset_force (ac_cli ac) then Some (block_num (ac_cli ac)) else None), ap_genesis = g\<rparr> else None)"
    and "start \<longrightarrow> ac_kafka ac \<noteq> None"
proof -
  from assms obtain tel c s1 s2 u where client: "make_client libs config s = (Ok c, s1)"
    and arch: "(if start then pbind (start_archive libs ac backend ro g) (\<lambda>plan. ret (Some plan)) else ret None) s1 = (Ok plan, s2)"
    and rest: "start_node_services libs config tel s2 = (Ok u, t)"
    unfolding new_full_def new_full_base_def by (auto simp: pbind_eq_Ok)
  have s1: "ns_tasks s1 = ns_tasks s" using client by (auto simp: make_client_def split: prod.splits)
  obtain more where more: "ns_tasks t = ns_tasks s2 @ more" "set more \<subseteq> service_tasks"
    using services_tasks [of libs config tel] rest unfolding adds_tasks_def by (metis snd_conv)
  show "\<exists>more. ns_tasks t = ns_tasks s @ (if start then archive_tasks ac else []) @ more \<and> set more \<subseteq> service_tasks"
    and "plan = (if start then Some \<lparr>ap_executor_backend = ro, ap_version_backend = ro, ap_comparer_backend = backend,
      ap_first_number = (if reset_force (ac_cli ac) then Some (block_num (ac_cli ac)) else None), ap_genesis = g\<rparr> else None)"
    and "start \<longrightarrow> ac_kafka ac \<noteq> None"
    using arch s1 more by (auto simp: pbind_eq_Ok split: if_splits dest!: start_archive_ok)
qed

lemma choose_backend_ok:
  assumes "choose_backend libs config ac backend s = (Ok (ro, start), t)"
  shows "ns_tasks t = ns_tasks s" and "start \<longleftrightarrow> strategy (ac_cli ac) \<noteq> None_strategy"
    and "if strategy (ac_cli ac) = ReadonlyBackend
      then nl_open_backend libs (database_settings config Custom_secondary) CANONICALIZATION_DELAY = Ok ro
      else ro = backend"
  using assms
  by (auto simp: choose_backend_def open_backend_def pbind_eq_Ok zoom_def split: Strategy.splits prod.splits)

lemma do_work_stages:
  assumes run: "do_work h libs config ac s = (Ok (rt, plan), t)"
  obtains g backend ro start s1 where "gen_genesis_storages h = Ok g"
    "nl_open_backend libs (database_settings (archive_defaults config) (Configured_database (nd_database config)))
       CANONICALIZATION_DELAY = Ok backend"
    "choose_backend libs (archive_defaults config) ac backend s = (Ok (ro, start), s1)"
    "new_full libs (archive_defaults config) ac backend ro start g s1 = (Ok plan, t)" "rt = runtime (ac_cli ac)"
  using run unfolding do_work_def by (auto simp: pbind_eq_Ok open_backend_def)

lemma do_work_plan:
  assumes "do_work h libs config ac s = (Ok (rt, Some plan), t)"
  shows "ap_first_number plan = (if reset_force (ac_cli ac) then Some (block_num (ac_cli ac)) else None)"
  using assms by (cases rule: do_work_stages) (auto dest!: new_full_ok(2) split: if_splits)

section \<open>Properties\<close>

text \<open>A node that starts does what the strategy of its configuration says: with no strategy none of
  the archive's tasks is started; otherwise they all are, the initializer exactly when no reset is
  asked for, and then a Kafka configuration was given. The comparer always reads the node's own
  database; the executor and the version cache read the read-only one exactly under that strategy. The
  strategies for a remote database and for RPC are not distinguished from the local backend. Whatever
  the configuration said, no state is pruned.\<close>

lemma node_follows_strategy:
  assumes run: "do_work h libs config ac s = (Ok (rt, plan), t)"
  shows "rt = runtime (ac_cli ac) \<and>
    (\<exists>backend ro g more. gen_genesis_storages h = Ok g \<and>
      nl_open_backend libs (database_settings (config\<lparr>nd_state_pruning := ArchiveAll\<rparr>)
        (Configured_database (nd_database config))) 4096 = Ok backend \<and>
      (if strategy (ac_cli ac) = ReadonlyBackend
       then nl_open_backend libs (database_settings (config\<lparr>nd_state_pruning := ArchiveAll\<rparr>) Custom_secondary) 4096 = Ok ro
       else ro = backend) \<and>
      ns_tasks t = ns_tasks s @ (if strategy (ac_cli ac) = None_strategy then [] else archive_tasks ac) @ more \<and>
      set more \<subseteq> service_tasks \<and>
      (if strategy (ac_cli ac) = None_strategy then plan = None
       else ac_kafka ac \<noteq> None \<and>
         plan = Some \<lparr>ap_executor_backend = ro, ap_version_backend = ro, ap_comparer_backend = backend,
           ap_first_number = (if reset_force (ac_cli ac) then Some (block_num (ac_cli ac)) else None), ap_genesis = g\<rparr>))"
proof -
  let ?c = "archive_defaults config"
  have settings: "database_settings ?c src = database_settings (config\<lparr>nd_state_pruning := ArchiveAll\<rparr>) src" for src
    by (simp add: database_settings_def archive_defaults_def)
  obtain g backend ro start s1 where gen: "gen_genesis_storages h = Ok g"
    and op: "nl_open_backend libs (database_settings ?c (Configured_database (nd_database config))) CANONICALIZATION_DELAY = Ok backend"
    and ch: "choose_backend libs ?c ac backend s = (Ok (ro, start), s1)"
    and full: "new_full libs ?c ac backend ro start g s1 = (Ok plan, t)" and rt: "rt = runtime (ac_cli ac)"
    by (rule do_work_stages [OF run])
  note c = choose_backend_ok [OF ch] and f = new_full_ok [OF full]
  from f(1) c(1,2) obtain more where
    "ns_tasks t = ns_tasks s @ (if strategy (ac_cli ac) = None_strategy then [] else archive_tasks ac) @ more"
    "set more \<subseteq> service_tasks" by auto
  with gen op rt c(2,3) f(2,3) settings show ?thesis
    by (intro conjI exI [of _ backend] exI [of _ ro] exI [of _ g] exI [of _ more])
      (auto simp: CANONICALIZATION_DELAY_def)
qed

text \<open>Without the variable ARCHIVE_JSON the development chain can be selected but not started: its
  specification is loaded, and the node then fails with an error before it opens a database. With the
  variable set, the name given on the command line is ignored.\<close>

lemma archive_json_required:
  "(env_var h ''ARCHIVE_JSON'' = None \<longrightarrow>
     load_spec h ''dev'' = Ok (development_spec h) \<and> do_work h libs config ac s = (Err (Node_other ''env''), s)) \<and>
   (\<forall>path. env_var h ''ARCHIVE_JSON'' = Some path \<longrightarrow> load_spec h i = load_spec h j \<and> load_spec h i = from_json_file h path)"
  by (simp add: load_spec_def do_work_def gen_genesis_storages_def pbind_def)

section \<open>A concrete node\<close>

definition demo_archive_config :: "Strategy \<Rightarrow> ArchiveConfig" where
  "demo_archive_config st = \<lparr>ac_rocksdb = \<lparr>rk_path = Some ''db'', rk_cache_size = 1000, rk_secondary_db_path = Some ''db2''\<rparr>,
     ac_cli = \<lparr>block_num = 7, reset_force = True, strategy = st, runtime = MockRuntimeApi\<rparr>,
     ac_postgres = \<lparr>uri = ''postgres'', min_connections = 1, max_connections = 2, connect_timeout = 3,
       idle_timeout = None, max_lifetime = None\<rparr>,
     ac_kafka = Some demo_kafka_config\<rparr>"

definition demo_host :: "unit host" where
  "demo_host = \<lparr>env_var = (\<lambda>v. if v = ''ARCHIVE_JSON'' then Some ''spec.json'' else None),
     read_to_string = (\<lambda>_. Ok []), toml_from_str = (\<lambda>_. Ok (demo_archive_config LocalBackend)),
     from_json_file = (\<lambda>_. Ok ()), development_spec = (), spec_build_storage = (\<lambda>_. Ok demo_genesis_storage)\<rparr>"

text \<open>Backend 5 is the node's own database, backend 2 the read-only one.\<close>

definition demo_libs :: "(nat, bytes option \<times> bytes option) node_libs" where
  "demo_libs = \<lparr>nl_open_backend = (\<lambda>ds _. Ok (if ds_source ds = Custom_secondary then 2 else 5)), nl_rocks = demo_engine,
     nl_telemetry_worker = Ok (), nl_hasher = (\<lambda>_. 0), nl_reader = demo_reader, nl_genesis = demo_genesis_env,
     nl_kafka = kafka_ok, nl_parse_uri = Ok, nl_connect_with = (\<lambda>_ _. Ok ()), nl_grandpa_block_import = Ok (), nl_babe_config = Ok (),
     nl_babe_block_import = Ok (), nl_import_queue = Ok (), nl_grandpa_voter = Ok ()\<rparr>"

definition demo_node_config :: node_config where
  "demo_node_config = \<lparr>nd_base = \<lparr>cf_task_manager = Ok (), cf_fork_blocks = None, cf_bad_blocks = None,
       cf_offchain_worker_enabled = False, cf_offchain_indexing_enabled = False, cf_wasm_runtime_overrides = None\<rparr>,
     nd_execution_strategies = \<lparr>es_syncing = Both, es_importing = Both, es_block_construction = Both,
       es_offchain_worker = Both, es_other = Both\<rparr>,
     nd_state_pruning = Constrained 256, nd_state_cache_size = 0, nd_state_cache_child_ratio = None, nd_database = ''db'',
     nd_keep_blocks = None, nd_transaction_storage = 0, nd_telemetry_endpoints = None,
     nd_network = \<lparr>nc_role = Full, nc_in_peers = 25, nc_out_peers = 25, nc_boot_nodes = [], nc_announce_block = True,
       nc_worker = Ok (), nc_extra_sets = []\<rparr>, nd_disable_grandpa = False\<rparr>"

definition demo_node_state :: "(bytes option \<times> bytes option) node_state" where
  "demo_node_state = \<lparr>ns_tasks = [], ns_database = [], ns_rocks = (None, None), ns_network_started = False\<rparr>"

lemma demo_make_client:
  assumes "ns_database s = []"
  shows "\<exists>c s1. make_client demo_libs (archive_defaults demo_node_config) s = (Ok c, s1)"
proof -
  obtain c where c: "client_new demo_genesis_env None None [] = (Ok c, [genesis_operation demo_genesis_env demo_genesis_storage])"
    by (rule demo_client_new)
  have "demo_genesis_env\<lparr>ge_backend := (ge_backend demo_genesis_env)\<lparr>cb_offchain_indexing_api := False\<rparr>\<rparr> = demo_genesis_env"
    by (simp add: demo_genesis_env_def demo_client_backend_def)
  then show ?thesis
    using c assms
    by (simp add: make_client_def new_full_parts_def new_client_def call_executor_new_def client_config_of_def
        demo_libs_def demo_node_config_def archive_defaults_def)
qed

definition demo_config_at :: "u32 \<Rightarrow> ArchiveConfig" where
  "demo_config_at n = (demo_archive_config ReadonlyBackend)
     \<lparr>ac_cli := (ac_cli (demo_archive_config ReadonlyBackend))\<lparr>block_num := n\<rparr>\<rparr>"

lemma demo_choose:
  "choose_backend demo_libs (archive_defaults demo_node_config) (demo_config_at n) 5 s =
     (Ok (2, True), s\<lparr>ns_rocks := (snd (ns_rocks s), snd (ns_rocks s))\<rparr>)"
  by (cases "ns_rocks s") (simp add: demo_config_at_def choose_backend_def open_backend_def demo_archive_config_def demo_libs_def
      database_settings_def secondary_open_def demo_engine_def map_err_prog_def zoom_def pbind_def)

lemma demo_start_archive: "\<exists>plan t. start_archive demo_libs (demo_config_at n) b ro g s = (Ok plan, t)"
proof -
  have "check_kafka_config demo_kafka_config" by (simp add: check_kafka_config_def demo_kafka_config_def)
  then have "notifier_new kafka_ok (Ok ()) demo_kafka_config = Ok demo_kafka_config"
    by (simp add: notifier_new_def producer_new_def kafka_ok_def)
  then show ?thesis by (simp add: start_archive_def postgres_new_def demo_libs_def demo_config_at_def demo_archive_config_def pbind_def)
qed

lemma demo_services: "\<exists>t. start_node_services demo_libs (archive_defaults demo_node_config) False s = (Ok (), t)"
  by (simp add: start_node_services_def start_grandpa_def start_network_def make_import_queue_def build_network_def
      block_request_protocol_def spawn_def demo_libs_def demo_node_config_def archive_defaults_def zoom_def pbind_def)

lemma demo_do_work:
  "\<exists>plan t. do_work demo_host demo_libs demo_node_config (demo_config_at n) demo_node_state =
     (Ok (MockRuntimeApi, Some plan), t)"
proof -
  let ?c = "archive_defaults demo_node_config" and ?ac = "demo_config_at n"
  let ?s = "demo_node_state\<lparr>ns_rocks := (None, None)\<rparr>"
  obtain c s1 where c: "make_client demo_libs ?c ?s = (Ok c, s1)"
    using demo_make_client [of ?s] by (auto simp: demo_node_state_def)
  obtain plan s2 where p: "start_archive demo_libs ?ac 5 2 demo_genesis_storage s1 = (Ok plan, s2)"
    using demo_start_archive by blast
  obtain t where t: "start_node_services demo_libs ?c False s2 = (Ok (), t)" using demo_services by blast
  have tel: "make_telemetry demo_libs ?c = Ok False"
    by (simp add: make_telemetry_def archive_defaults_def demo_node_config_def)
  have full: "new_full demo_libs ?c ?ac 5 2 True demo_genesis_storage ?s = (Ok (Some plan), t)"
    by (simp add: new_full_def new_full_base_def tel pbind_def c p t)
  have gen: "gen_genesis_storages demo_host = Ok demo_genesis_storage"
    by (simp add: gen_genesis_storages_def demo_host_def)
  have op: "open_backend demo_libs ?c (Configured_database d) = ret 5" for d
    by (simp add: open_backend_def demo_libs_def database_settings_def)
  have "ns_rocks demo_node_state = (None, None)" by (simp add: demo_node_state_def)
  with full show ?thesis
    by (simp add: do_work_def gen op pbind_def demo_choose) (simp add: demo_config_at_def demo_archive_config_def)
qed

end
