(* ===== verification/Spec2Isabelle.thy ===== *)
theory Spec2Isabelle
  imports Restarts Task_Loops Runtime_Config Changes_Trie Finality_To_Network Client_Traits Archive_Demos
begin

text \<open>
  \<^bold>\<open>sub-archive: a verification development.\<close>

  The program is an archive node for a Substrate chain. It imports blocks like a full node, executes
  every block again to learn its storage changes, and writes blocks, changes and runtime metadata to
  Postgres and Kafka. Its parts are

  \<^item> the \<^emph>\<open>archive\<close> (\<open>src/archive\<close>): a block executor, a notifier, an initializer and a comparer, four
    tasks that exchange block numbers and messages over channels wired up in \<open>src/cli/src/service.rs\<close>;
    a runtime version cache; the Postgres store; the Kafka producer; the local core that reads blocks;
    and a runtime API that forwards every method to the wasm runtime of the block. Blocks may also be
    read from a secondary, read-only RocksDB that follows the database of another node;
  \<^item> the \<^emph>\<open>client\<close> (\<open>src/client/service\<close>): import, finality, notifications, queries and proofs, changes
    tries, block rules, the call executor, the local wasm overrides, its construction with the genesis
    block, and the task that tells the network what was imported and finalized;
  \<^item> the \<^emph>\<open>node\<close> (\<open>src/cli\<close>, \<open>src/runtime\<close>): configuration, chain specification, the start of the services
    in order, and the runtime of the development chain.

  \<^bold>\<open>Theories, in the order of their imports.\<close>

  \<^item> \<open>Archive_Prelude\<close>: the outcome of a Rust call (\<open>Ok\<close>, \<open>Err\<close>, \<open>Panic\<close>), programs that thread a
    state through fallible calls, fault oracles for external services, the chain types, the decimal
    keys of messages and the reading of 32-bit words as signed numbers.
  \<^item> \<open>Block_Rules\<close> (\<open>client/block_rules.rs\<close>): bad and fork blocks. The locale \<open>block_filter\<close> states
    that rejecting a block is final and touches no other verdict.
  \<^item> \<open>Version_Cache\<close> (\<open>archive/executor/src/version_cache.rs\<close>): the cache under the hash of the code.
    The locale \<open>version_source\<close> states that its answers are those of a direct read.
  \<^item> \<open>Postgres_Db\<close> (\<open>archive/postgres\<close>, its migrations included): rows, keys, checks, partitions, the
    foreign key, every statement and every method of \<open>PostgresDb\<close>, where any acquisition of a
    connection and any statement may fail, before or after it took effect. Locale \<open>archive_store\<close>.
  \<^item> \<open>Kafka_Producer\<close> (\<open>archive/kafka\<close>): configuration, payloads, topics, keys and deliveries that may
    fail in the same two ways. Locale \<open>payload_sink\<close>.
  \<^item> \<open>Block_Executor\<close> (\<open>archive/traits/src/local_db.rs\<close>, \<open>archive/executor/src/lib.rs\<close>): reading a
    block through the core (locale \<open>archive_core\<close>), executing it and sending the message and the number.
  \<^item> \<open>Archive_Notifier\<close> (\<open>archive/notifier\<close>): what the notifier writes and publishes, where the
    initializer starts and which number the comparer asks for next.
  \<^item> \<open>Pipeline\<close>: the four tasks as a labelled step relation over their channels, with runs of any
    interleaving and any failures, and the locale \<open>trace_invariant\<close>, interpreted for the six invariants
    of the system.
  \<^item> \<open>Archive_Spec\<close>: the archive without tasks, channels and failures, as an abstract step relation. The
    locale \<open>forward_simulation\<close> is interpreted on the pipeline.
  \<^item> \<open>Task_Loops\<close>: the receive loops of executor, notifier and comparer as programs over their channels.
    The locale \<open>receiving_task\<close> states when a task that works through its channel is a run of a system,
    and is interpreted on the pipeline for the three tasks.
  \<^item> \<open>Chain_Growth\<close>: the pipeline on a chain that changes: each event carries what the database answered
    while the task handled its item (\<open>moving_step\<close>), so forks, a reorganisation between two queries, and a
    replica that lags behind are part of the runs. A row is traced to the chains (\<open>archive_chain\<close>) from
    which its header, body, justifications and version came.
  \<^item> \<open>Archive_Progress\<close>: what the tasks can always do, and how far a run of a given length has come.
  \<^item> \<open>Published_Order\<close>: the block topic of Kafka as a consumer sees it.
  \<^item> \<open>Restarts\<close>: lives of the process (\<open>session\<close>, \<open>restarts\<close>), each stopped at some moment, perhaps while
    the notifier is writing, with Postgres and Kafka carried from one to the next.
  \<^item> \<open>Wasm_Override\<close> and \<open>Call_Executor\<close> (\<open>client/wasm_override.rs\<close>, \<open>client/call_executor.rs\<close>): which
    code a runtime call runs and when the block is initialised first. Locale \<open>code_overrides\<close>.
  \<^item> \<open>Mock_Runtime\<close> (\<open>archive/runtime/src/mock.rs\<close>): the runtime API and its overlay transactions.
  \<^item> \<open>Client_Notifies\<close> and \<open>Client_Import\<close> (\<open>notifies.rs\<close>, \<open>client/client.rs\<close>): notification rounds,
    block status, checks, preparation and application of a block, finality, the import lock, reverting.
  \<^item> \<open>Client_Queries\<close> and \<open>Changes_Trie\<close> (\<open>client/client.rs\<close>): headers, uncles, storage and its proofs, the
    auxiliary store, streams; the search for changes trie configurations, the changes of a key and their
    proof with the roots it used, and the canonical hash trie proofs.
  \<^item> \<open>Client_New\<close> (\<open>client/genesis.rs\<close>, \<open>client/client.rs\<close>, \<open>builder.rs\<close>): the genesis block, the constructor
    of the client and the functions that build one from the configuration. \<open>Client_Session\<close>: a client made
    on a database and then used in any order, with any answers of the database to each request.
    \<open>Client_Finality\<close>: the blocks that its committed operations finalize, with the database answering
    according to what was committed; parent and child are read off the headers the operations stored. \<open>Client_Traits\<close>: the client
    behind the traits that other parts of the node ask for, as records of operations.
  \<^item> \<open>Readonly_Db\<close> (\<open>archive/traits/src/readonly\<close>): memory budgets, opening, and reads that catch up.
  \<^item> \<open>Archive_Runtime\<close> (\<open>runtime\<close>): constants at their integer widths, the version, block weights, and the
    runtime APIs over the pallets. \<open>Runtime_Composition\<close> (\<open>runtime\<close>, \<open>executor\<close>): the pallets with their
    parts and numbers, the signed extensions, native dispatch, and the methods the archive calls by name.
    \<open>Runtime_Config\<close>: the values and hooks that the pallets are configured with.
  \<^item> \<open>Network_Future\<close> (\<open>client/service/src/lib.rs\<close>, \<open>builder.rs\<close>): the network task as a step relation, for
    which \<open>trace_invariant\<close> is interpreted again, and its construction. \<open>Finality_To_Network\<close>: client and
    network task as one system, the task taking from its stream what the client sends.
  \<^item> \<open>Archive_Cli\<close> (\<open>archive/src/config.rs\<close>, \<open>cli/src\<close>): the configuration, the chain specification, and
    what \<open>new_full_base\<close> and \<open>do_work\<close> start, in order, with every early return and panic. \<open>Archive_Demos\<close>
    (\<open>archive/postgres/examples\<close>, \<open>archive/kafka/examples\<close>): the two example programs and the migration of
    the database, run on the models.
  \<^item> this theory: the executor together with the runtime API it uses, and the node together with the
    pipeline it starts.

  \<^bold>\<open>Correspondence.\<close> A struct is a record with its fields in order, an enum a datatype; a method that
  changes state is a program over the record of that state. An error that the caller may see is \<open>Err\<close>,
  an \<open>unwrap\<close>, \<open>expect\<close>, \<open>assert\<close>, \<open>panic\<close> or \<open>unimplemented\<close> that fails is \<open>Panic\<close>, which no code of the
  program catches; in the pipeline it ends the task. Integers keep their width. Log messages, timing and
  telemetry are left out. Packages that are not in the repository (the Substrate backend and state
  machine, the wasm executor, SCALE and JSON encoders, sqlx and the server, librdkafka, the file system)
  are fields of environment records and unconstrained, except where a theorem names what it relies on:
  \<open>collision_free\<close> (the standard hasher separates the runtimes of the chain), \<open>one_node\<close> (the same of all
  chains a node sees, with one hasher and one set of decoders), \<open>executable\<close> (a block is there, can be
  executed and has a version), \<open>imports_within\<close> and \<open>imports_from\<close> (bounds of the best block over a run),
  \<open>start_within\<close> (the archive starts below such a bound), \<open>header_from\<close> and its companions (from which chain a
  query was answered),
  \<open>topics_distinct\<close> (metadata and blocks go to different topics), \<open>modern_core\<close> (version 2 of the core API), \<open>overlay_laws\<close> and
  \<open>balanced_call\<close> (transactions of the overlay), \<open>reliable\<close> (services that answer), \<open>versions_fit\<close>
  (spec versions below two to the 31), \<open>header_tree\<close> (the stored headers are a tree over genesis,
  numbered by height), \<open>trie_ranges_documented\<close> (a configuration starts at the block or at an ancestor),
  \<open>genesis_documented\<close> (a committed genesis block is found again) \<open>replica_laws\<close> (a secondary instance
  shows what it last caught up with) and \<open>db_documented\<close> (the database of a client: a route without retracted
  blocks leads from parent to child over stored headers, and the last finalized block is the last one a
  committed operation finalized; the hash function is any function). Text of foreign errors is kept only where the code builds it.

  \<^bold>\<open>What is shown.\<close>

  \<^item> The archive as a whole: every stored row is the result of executing that block (\<open>archive_sound\<close>);
    with services that answer nothing between the first and the last executed block is missing
    (\<open>archive_complete\<close>); no number is skipped by the executor (\<open>executed_contiguous\<close>), one block is
    in flight (\<open>one_block_in_flight\<close>), the schema holds throughout. Every run of the tasks is a run of the
    abstract archive (\<open>pipeline_refines_spec\<close>), and a node started from a configuration archives from the
    block configured there (\<open>node_archives_from_configured\<close>). The tasks never get stuck on executable blocks,
    but for a failure of the initializer's only query (\<open>archive_never_stuck\<close>), and while the best block stays
    ahead every completed block is progress (\<open>archive_catches_up\<close>). The block topic is in the order of the
    chain (\<open>published_in_order\<close>) and, with services that answer, has one record with the block's own content
    for every execution (\<open>published_completely\<close>). Stopping and restarting the process leaves no
    hole in the database (\<open>restarts_leave_no_gap\<close>) and every block but perhaps the last announced
    (\<open>stored_blocks_are_announced\<close>).
  \<^item> Its failures: a block whose archiving failed is skipped for good (\<open>gap_arises\<close>,
    \<open>skipped_block_never_archived\<close>), also by restarts (\<open>gap_is_permanent\<close>); a lost metadata record stays lost
    (\<open>metadata_record_lost\<close>); a failed execution is archived as a block without effect
    (\<open>failed_execution_is_archived\<close>); rows of blocks that a fork replaced stay (\<open>retracted_rows_stay\<close>), and a
    row mixes two forks when the chain changes between two queries, but only then
    (\<open>rows_come_from_views\<close>); a block that the
    executor's database does not have yet ends the archive (\<open>missing_block_ends_archive\<close>).
  \<^item> Each component: functional contracts on every branch, agreement of row and payload, order of
    Postgres before Kafka, transparency of the version cache, round trips, bounds of the partitions,
    all-or-nothing imports, monotone finality, order of notifications, balance of transactions.
  \<^item> The client over its lifetime: every operation it commits has the shape the backend expects
    (\<open>operations_well_formed\<close>), the genesis block is written once (\<open>genesis_created_once\<close>), uncles are the
    other children of the ancestors (\<open>uncles_are_siblings\<close>), and the search for configurations ends
    (\<open>require_changes_trie_terminates\<close>) with a descending chain of them. Unless it is reverted, what it
    finalizes is one chain from genesis on (\<open>finality_is_one_chain\<close>); the exception is a block imported as
    final whose parent's state was pruned, which skips its ancestors (\<open>final_without_state_skips\<close>). The network
    hears of this chain, in its order (\<open>network_hears_one_chain\<close>).
  \<^item> The node: which backend, runtime and first block a configuration selects, that the network is told
    of the last finalized block of every batch (\<open>network_told_latest_final\<close>), that a call runs the override
    declared for the on-chain version (\<open>override_matches_version\<close>), and where start-up stops with an error. The runtime API of the
    archive calls only methods that the runtime exports (\<open>api_calls_are_methods\<close>).

  Loops of the program run over finite lists or bounded counters and are structural recursions or
  functions with a measure; the endless receive loops are the step relations. The one loop that need not
  end, the search for configurations in \<open>require_changes_trie\<close>, is a partial function in the option type,
  and that it returns is proved. No model uses fuel; only the example database of \<open>Client_Finality\<close> climbs
  its finite tree with the number of its headers as a bound, which no climb to an ancestor exceeds. The import operation is the list of requests made
  to the backend, committed at once. Additions on 32-bit numbers wrap, as in a release build.

  \<^bold>\<open>Not modelled.\<close> The pallets themselves, which other packages define; what the macros over them
  generate is modelled as far as the source names it (the parts of each pallet, their configuration, the
  dispatch of a method by its name). The parsing of arguments, the derivation of keys, and the network,
  consensus and telemetry libraries, which are parameters of the definitions that start them.
\<close>

section \<open>The executor with the runtime API of the archive\<close>

text \<open>
  \<open>BlockExecutor\<close> runs a block through a fresh instance of the mock runtime API and takes the storage
  changes from the same instance (\<open>client.runtime_api()\<close> constructs it).
\<close>

definition mock_exec_env ::
  "('ov, 'c, 'st, 'a) mock_env \<Rightarrow> ('st, ('ov, 'c) MockRuntimeApiImpl) exec_env \<Rightarrow>
     ('st, ('ov, 'c) MockRuntimeApiImpl) exec_env" where
  "mock_exec_env me xe = xe
     \<lparr>xe_execute_block := (\<lambda>bid b. snd (api_execute_block me bid b (construct_runtime_api me))),
      xe_into_storage_changes := (\<lambda>api st parent. fst (into_storage_changes me st None parent api))\<rparr>"

text \<open>C20: an execution that fails in the runtime does not stop the archive: the executor drops the
  error, and since the overlay was rolled back, what it goes on to archive for the block are the
  storage changes of an untouched overlay.\<close>

theorem failed_execution_is_archived:
  assumes "overlay_laws (overlay me)" and "balanced_call me"
    and "core_get_block (xe_backend xe) n = Ok (Some sb)"
    and "be_state_at (xe_backend xe) (Hash (parent_hash (header (block sb)))) = Ok st"
    and "fst (api_execute_block me (Hash (parent_hash (header (block sb)))) (unsealed (block sb))
           (construct_runtime_api me)) = Err e"
    and "e \<noteq> FailedToDecodeReturnValue ''Core_execute_block''"
  shows "\<exists>cache. execute_block_and_into_storage_changes (mock_exec_env me xe) n =
    (case overlay_into_storage_changes me (default_overlay (overlay me)) st None (parent_hash (header (block sb))) cache of
       Ok sc \<Rightarrow> Ok (Some (sc, sb)) | Err _ \<Rightarrow> Ok None | Panic w \<Rightarrow> Panic w)"
proof -
  let ?p = "parent_hash (header (block sb))"
  obtain s' where run: "call_api_at_decoded me ''Core_execute_block'' None False (Hash ?p)
      (encode_block me (unsealed (block sb))) (construct_runtime_api me) = (Err e, s')"
    using assms(5) unfolding api_execute_block_def
    by (cases "call_api_at_decoded me ''Core_execute_block'' None False (Hash ?p)
          (encode_block me (unsealed (block sb))) (construct_runtime_api me)") simp
  have "changes s' = default_overlay (overlay me)"
    using assms(6)
    by (cases rule: decoded_call_cases [OF assms(1,2) run]) (auto simp: construct_runtime_api_def)
  then show ?thesis
    using assms(3,4) run
    by (intro exI [of _ "storage s'"])
       (simp add: execute_block_and_into_storage_changes_def core_get_state_def mock_exec_env_def
          api_execute_block_def into_storage_changes_def Let_def)
qed

theorem failed_execution_is_archived_witness:
  "\<exists>sb. core_get_block demo_backend 3 = Ok (Some sb) \<and>
     execute_block_and_into_storage_changes
       (mock_exec_env (demo_mock_env\<lparr>call_api_at := (\<lambda>_ s. (Err (ApiApplication ''trap''), s))\<rparr>)
          \<lparr>xe_backend = demo_backend, xe_version = demo_version_env, xe_execute_block = (\<lambda>_ _. construct_runtime_api demo_mock_env),
           xe_into_storage_changes = (\<lambda>_ _ _. Err ''unused''), xe_header_hash = (\<lambda>_. 0), xe_encode_extrinsic = (\<lambda>e. e),
           xe_encode_justification = snd, xe_encode_digest = concat, xe_json = (\<lambda>_. JsonNull), xe_genesis_top = []\<rparr>) 3
     = Ok (Some (demo_changes, sb))"
proof -
  let ?me = "demo_mock_env\<lparr>call_api_at := (\<lambda>_ s. (Err (ApiApplication ''trap''), s))\<rparr>"
  let ?xe = "\<lparr>xe_backend = demo_backend, xe_version = demo_version_env, xe_execute_block = (\<lambda>_ _. construct_runtime_api demo_mock_env),
     xe_into_storage_changes = (\<lambda>_ _ _. Err ''unused''), xe_header_hash = (\<lambda>_. 0), xe_encode_extrinsic = (\<lambda>e. e),
     xe_encode_justification = snd, xe_encode_digest = concat, xe_json = (\<lambda>_. JsonNull), xe_genesis_top = []\<rparr>
     :: (unit, (nat \<times> nat list, unit) MockRuntimeApiImpl) exec_env"
  let ?sb = "\<lparr>block = \<lparr>header = demo_header 3, extrinsics = [[7]]\<rparr>, justifications = None\<rparr>"
  have 1: "overlay_laws (overlay ?me)" using demo_overlay_laws by simp
  have 2: "balanced_call ?me" by (simp add: balanced_call_def)
  have 3: "core_get_block (xe_backend ?xe) 3 = Ok (Some ?sb)"
    by (simp add: core_get_block_def demo_backend_def)
  have 4: "be_state_at (xe_backend ?xe) (Hash (parent_hash (header (block ?sb)))) = Ok ()"
    by (simp add: demo_backend_def)
  have 5: "fst (api_execute_block ?me (Hash (parent_hash (header (block ?sb)))) (unsealed (block ?sb))
      (construct_runtime_api ?me)) = Err (ApiApplication ''trap'')"
    by (simp add: api_execute_block_def call_api_at_decoded_def api_start_transaction_def
        construct_runtime_api_def demo_mock_env_def demo_overlay_def)
  have 6: "overlay_into_storage_changes demo_mock_env a b c d e = Ok demo_changes" for a b c d e
    by (simp add: demo_mock_env_def)
  from failed_execution_is_archived [OF 1 2 3 4 5] 3 show ?thesis by (auto simp: 6)
qed

section \<open>The node and its archive\<close>

text \<open>The channels as a started node leaves them: with a first number for the executor, or with the
  initializer still to run.\<close>

definition plan_pipeline :: "'be archive_plan \<Rightarrow> archive_world \<Rightarrow> u32 \<Rightarrow> pipeline" where
  "plan_pipeline plan w b =
     pipeline_start (ap_first_number plan \<noteq> None) (case ap_first_number plan of Some n \<Rightarrow> n | None \<Rightarrow> 0) w b"

text \<open>C26: a node whose configuration forces a reset to a block number archives from that block on: in
  every run of its tasks, the numbers the executor has completed are exactly the interval from the
  configured number to the last one completed, and with services that answer every block of that interval
  (genesis and numbers without a partition apart) is stored or its message is waiting for the notifier.\<close>

theorem node_archives_from_configured:
  assumes node: "do_work h libs config ac s = (Ok (rt, Some plan), t)"
    and reset: "reset_force (ac_cli ac)"
    and run: "runs (pipeline_step xe ne) (plan_pipeline plan w b) as u"
    and some: "executed_numbers as \<noteq> []"
  shows "unat ` set (executed_numbers as) = {unat (block_num (ac_cli ac))..unat (last (executed_numbers as))} \<and>
    (collision_free (xe_version xe) \<and> faithful_db xe (db w) \<and> reliable ne \<and> versions_fit (xe_version xe) \<longrightarrow>
      {n. block_num (ac_cli ac) \<le> n \<and> n \<le> last (executed_numbers as) \<and> n \<noteq> 0 \<and> n < 10000000}
        \<subseteq> dom (block_rows (db (world u))) \<union> pending_numbers u)"
proof -
  from do_work_plan [OF node] reset have "ap_first_number plan = Some (block_num (ac_cli ac))" by simp
  then have start: "plan_pipeline plan w b = pipeline_start True (block_num (ac_cli ac)) w b"
    by (simp add: plan_pipeline_def)
  with executed_contiguous [of xe ne True] run some
  have set: "unat ` set (executed_numbers as) = {unat (block_num (ac_cli ac))..unat (last (executed_numbers as))}"
    by metis
  have "n \<in> set (executed_numbers as)" if "block_num (ac_cli ac) \<le> n" "n \<le> last (executed_numbers as)" for n
    using that by (intro executed_between [OF set]) (simp_all add: word_le_nat_alt)
  then show ?thesis using set executed_kept [OF run [unfolded start]] by blast
qed

theorem node_archives_from_configured_witness:
  "\<exists>plan t u. do_work demo_host demo_libs demo_node_config (demo_config_at 3) demo_node_state =
       (Ok (MockRuntimeApi, Some plan), t) \<and>
     runs (pipeline_step demo_exec_env (demo_notify_env no_faults)) (plan_pipeline plan empty_world 9) demo_trace u \<and>
     unat ` set (executed_numbers demo_trace) = {3..4} \<and>
     {3, 4} \<subseteq> dom (block_rows (db (world u))) \<union> pending_numbers u"
proof -
  let ?ac = "demo_config_at 3"
  obtain plan t where node: "do_work demo_host demo_libs demo_node_config ?ac demo_node_state = (Ok (MockRuntimeApi, Some plan), t)"
    using demo_do_work [of 3] by blast
  have reset: "reset_force (ac_cli ?ac)" by (simp add: demo_config_at_def demo_archive_config_def)
  have "plan_pipeline plan empty_world 9 = pipeline_start True 3 empty_world 9"
    using do_work_plan [OF node] reset by (simp add: plan_pipeline_def demo_config_at_def)
  then obtain u where run: "runs (pipeline_step demo_exec_env (demo_notify_env no_faults)) (plan_pipeline plan empty_world 9) demo_trace u"
    using demo_reliable_run by metis
  have ne: "executed_numbers demo_trace \<noteq> []" by simp
  note conf = node_archives_from_configured [OF node reset run ne]
  have "block_num (ac_cli ?ac) = 3" by (simp add: demo_config_at_def)
  with conf demo_chain_facts demo_notify_reliable
  have sub: "{n. 3 \<le> n \<and> n \<le> 4 \<and> n \<noteq> 0 \<and> n < 10000000} \<subseteq> dom (block_rows (db (world u))) \<union> pending_numbers u" by simp
  have "3 \<in> dom (block_rows (db (world u))) \<union> pending_numbers u" "4 \<in> dom (block_rows (db (world u))) \<union> pending_numbers u"
    by (rule subsetD [OF sub], simp)+
  with conf node run show ?thesis by (auto simp: demo_config_at_def)
qed

end
